(* ===== verification/Prelude.thy ===== *)
theory Prelude
  imports Main "HOL-Library.Word" "HOL-Library.Sublist"
begin

text \<open>
  Shared vocabulary of the development: Go's outcomes (a value, an error, a panic, blocking
  for ever), its 64-bit signed arithmetic, the iteration orders of its maps, and the generic
  lemmas on maps and lists that the component theories use.

  Collections: \<open>go_arith\<close> holds the rewrite rules of the wrapping arithmetic, \<open>map_loops\<close>
  the closed forms of the loops that run over a map.
\<close>

named_theorems go_arith
named_theorems map_loops

section \<open>Names of the types\<close>

type_synonym byte = "8 word"
type_synonym bytes = "byte list"
type_synonym u16 = "16 word"
type_synonym u32 = "32 word"

section \<open>Outcomes of a Go call\<close>

text \<open>
  A Go error is a value. \<open>External\<close> is an error made by code outside the repository,
  \<open>Msg\<close> an \<open>errors.New\<close> or \<open>fmt.Errorf\<close> text of the repository itself and \<open>Wrap\<close> a
  \<open>fmt.Errorf\<close> that includes another error.
\<close>

datatype goerr = External nat | Msg string | Wrap string goerr

datatype panic = NilDeref | IndexOutOfRange | CloseOfClosed | Raised goerr

text \<open>
  What a call does: it returns a value with a nil error, returns an error, panics, or never
  returns.
\<close>

datatype 'a res = Ok 'a | Err goerr | Panic panic | Blocked

fun is_ok :: "'a res \<Rightarrow> bool" where
  "is_ok (Ok _) = True"
| "is_ok _ = False"

lemma is_ok_iff [simp]: "is_ok r \<longleftrightarrow> (\<exists>x. r = Ok x)"
  by (cases r) auto

text \<open>The result of a call into another package: its error or its value.\<close>

type_synonym 'a ext = "goerr + 'a"

section \<open>64-bit signed integers\<close>

text \<open>
  Go's \<open>int64\<close> (and \<open>int\<close> on the 64-bit platforms dcrd runs on) wraps around in two's
  complement. Such a value is an \<open>int\<close> here and every arithmetic operation of the code is
  followed by \<open>i64\<close>.
\<close>

definition i64 :: "int \<Rightarrow> int" where
  "i64 x = (x + 2 ^ 63) mod 2 ^ 64 - 2 ^ 63"

definition in64 :: "int \<Rightarrow> bool" where
  "in64 x \<longleftrightarrow> - (2 ^ 63) \<le> x \<and> x < 2 ^ 63"

lemma i64_id [go_arith, simp]: "in64 x \<Longrightarrow> i64 x = x"
  by (simp add: i64_def in64_def)

lemma in64_i64 [simp, intro]: "in64 (i64 x)"
  by (simp add: i64_def in64_def)

lemma i64_add_left [go_arith]: "i64 (i64 x + y) = i64 (x + y)"
  by (simp add: i64_def algebra_simps mod_simps)

lemma i64_add_right [go_arith]: "i64 (x + i64 y) = i64 (x + y)"
  using i64_add_left [of y x] by (simp add: add.commute)

lemma i64_diff_left [go_arith]: "i64 (i64 x - y) = i64 (x - y)"
  using i64_add_left [of x "- y"] by simp

lemma i64_diff_right [go_arith]: "i64 (x - i64 y) = i64 (x - y)"
proof -
  have "(x - i64 y + 2 ^ 63) mod 2 ^ 64 = (x - y + 2 ^ 63) mod 2 ^ 64"
    unfolding mod_eq_dvd_iff
    by (simp add: i64_def algebra_simps minus_mult_div_eq_mod [symmetric] dvd_def)
  then show ?thesis by (simp add: i64_def)
qed

lemma i64_0 [simp]: "i64 0 = 0"
  by (simp add: in64_def)

lemma in64_range: "0 \<le> x \<Longrightarrow> x < 2 ^ 63 \<Longrightarrow> in64 x"
  by (simp add: in64_def)

text \<open>The widths of unsigned values that are converted to \<open>int64\<close>.\<close>

lemma uint_u16_less [simp]: "uint (x :: u16) < 65536"
  using uint_lt2p [of x] by simp

lemma uint_u32_less [simp]: "uint (x :: u32) < 4294967296"
  using uint_lt2p [of x] by simp

lemma unat_u32_less: "unat (x :: u32) < 4294967296"
  using unsigned_less [of x, where ?'a = nat] by simp

lemma unat_u16_less: "unat (x :: u16) < 65536"
  using unsigned_less [of x, where ?'a = nat] by simp

lemma unat_of_nat_u32: "n < 4294967296 \<Longrightarrow> unat (of_nat n :: u32) = n"
  by (simp add: unat_of_nat take_bit_eq_mod)

lemma unat_pos: "0 < (x :: u32) \<longleftrightarrow> 0 < unat x"
  by (simp add: word_less_nat_alt)

section \<open>Iterating over a map\<close>

text \<open>
  A \<open>range\<close> loop over a Go map visits every key once, in an order that the language leaves
  open and that may differ from one loop to the next. Every such loop of the model takes the
  order as an argument; \<open>is_order\<close> says that it is one the runtime may choose.
\<close>

definition is_order :: "'k list \<Rightarrow> ('k \<rightharpoonup> 'v) \<Rightarrow> bool" where
  "is_order ks m \<longleftrightarrow> distinct ks \<and> set ks = dom m"

lemma is_orderD:
  assumes "is_order ks m"
  shows "distinct ks" "set ks = dom m"
  using assms by (simp_all add: is_order_def)

lemma is_order_lookup: "is_order ks m \<Longrightarrow> k \<in> set ks \<Longrightarrow> \<exists>v. m k = Some v"
  by (auto simp: is_order_def)

lemma is_order_exists: "finite (dom m) \<Longrightarrow> \<exists>ks. is_order ks m"
  by (metis finite_distinct_list is_order_def)

lemma is_order_empty [simp]: "is_order [] Map.empty"
  by (simp add: is_order_def)

text \<open>The loop \<open>for _, k := range ks { delete(m, k) }\<close>.\<close>

fun delete_all :: "'k list \<Rightarrow> ('k \<rightharpoonup> 'v) \<Rightarrow> ('k \<rightharpoonup> 'v)" where
  "delete_all [] m = m"
| "delete_all (k # ks) m = delete_all ks (m(k := None))"

lemma delete_all_apply [map_loops]:
  "delete_all ks m k = (if k \<in> set ks then None else m k)"
  by (induction ks arbitrary: m) auto

text \<open>The loop \<open>for k, v := range d { m[k] = v }\<close>, in the order \<open>ks\<close>.\<close>

fun assign_all :: "'k list \<Rightarrow> ('k \<rightharpoonup> 'v) \<Rightarrow> ('k \<rightharpoonup> 'v) \<Rightarrow> ('k \<rightharpoonup> 'v)" where
  "assign_all [] d m = m"
| "assign_all (k # ks) d m =
     assign_all ks d (case d k of None \<Rightarrow> m | Some v \<Rightarrow> m(k \<mapsto> v))"

lemma assign_all_apply:
  "assign_all ks d m k = (if k \<in> set ks \<and> d k \<noteq> None then d k else m k)"
  by (induction ks arbitrary: m) (auto split: option.splits)

lemma assign_all_order [map_loops]:
  assumes "is_order ks d"
  shows "assign_all ks d m = m ++ d"
proof
  fix k
  show "assign_all ks d m k = (m ++ d) k"
    using is_orderD(2) [OF assms]
    by (auto simp: assign_all_apply map_add_def split: option.splits)
qed

section \<open>Logs that can be undone\<close>

text \<open>
  A state that is moved forward by \<open>apply\<close> and back by \<open>undo\<close>: applying a list of entries in
  order, undoing them (the first entry of the list first), and the side conditions of a run.
\<close>

fun apply_seq :: "('b \<Rightarrow> 's \<Rightarrow> 's) \<Rightarrow> 'b list \<Rightarrow> 's \<Rightarrow> 's" where
  "apply_seq f [] s = s"
| "apply_seq f (b # bs) s = apply_seq f bs (f b s)"

fun undo_seq :: "('b \<Rightarrow> 's \<Rightarrow> 's res) \<Rightarrow> 'b list \<Rightarrow> 's \<Rightarrow> 's res" where
  "undo_seq g [] s = Ok s"
| "undo_seq g (b # bs) s = (case g b s of Ok t \<Rightarrow> undo_seq g bs t | r \<Rightarrow> r)"

fun ok_seq :: "('b \<Rightarrow> 's \<Rightarrow> 's) \<Rightarrow> ('b \<Rightarrow> 's \<Rightarrow> bool) \<Rightarrow> 'b list \<Rightarrow> 's \<Rightarrow> bool" where
  "ok_seq f P [] s = True"
| "ok_seq f P (b # bs) s = (P b s \<and> ok_seq f P bs (f b s))"

lemma undo_seq_append:
  "undo_seq g (xs @ ys) s = (case undo_seq g xs s of Ok t \<Rightarrow> undo_seq g ys t | r \<Rightarrow> r)"
  by (induction xs arbitrary: s) (auto split: res.splits)

text \<open>
  The contract of an undo log: undoing the entry just applied succeeds and restores the part
  \<open>view\<close> of the state, and what \<open>undo\<close> does to that part depends on nothing else.
\<close>

locale undo_log =
  fixes apply_entry :: "'b \<Rightarrow> 's \<Rightarrow> 's"
    and undo_entry :: "'b \<Rightarrow> 's \<Rightarrow> 's res"
    and ok_entry :: "'b \<Rightarrow> 's \<Rightarrow> bool"
    and view :: "'s \<Rightarrow> 'v"
  assumes undo_apply:
      "ok_entry b s \<Longrightarrow> \<exists>t. undo_entry b (apply_entry b s) = Ok t \<and> view t = view s"
    and undo_view:
      "view s = view t \<Longrightarrow> map_res view (undo_entry b s) = map_res view (undo_entry b t)"
begin

lemma undo_seq_view:
  "view s = view t \<Longrightarrow> map_res view (undo_seq undo_entry bs s) = map_res view (undo_seq undo_entry bs t)"
proof (induction bs arbitrary: s t)
  case Nil
  then show ?case by simp
next
  case (Cons b bs)
  from undo_view [OF Cons.prems, of b] show ?case
    by (auto split: res.splits intro: Cons.IH)
qed

lemma undo_seq_viewD:
  assumes "view s = view t" "undo_seq undo_entry bs t = Ok t'"
  shows "\<exists>s'. undo_seq undo_entry bs s = Ok s' \<and> view s' = view t'"
  using undo_seq_view [OF assms(1), of bs] assms(2)
  by (cases "undo_seq undo_entry bs s") auto

lemma undo_rev_apply:
  "ok_seq apply_entry ok_entry bs s \<Longrightarrow>
   \<exists>t. undo_seq undo_entry (rev bs) (apply_seq apply_entry bs s) = Ok t \<and> view t = view s"
proof (induction bs arbitrary: s)
  case Nil
  then show ?case by simp
next
  case (Cons b bs)
  let ?s1 = "apply_entry b s"
  from Cons obtain t1 where
    t1: "undo_seq undo_entry (rev bs) (apply_seq apply_entry bs ?s1) = Ok t1" "view t1 = view ?s1"
    by fastforce
  from Cons.prems undo_apply obtain t0 where
    t0: "undo_entry b ?s1 = Ok t0" "view t0 = view s"
    by fastforce
  from undo_view [OF t1(2), of b] t0 obtain t where "undo_entry b t1 = Ok t" "view t = view s"
    by (cases "undo_entry b t1") auto
  with t1 show ?case by (simp add: undo_seq_append)
qed

end

section \<open>First-in first-out queues\<close>

text \<open>
  The contract of a queue whose reader removes the oldest element and panics on an empty queue,
  with what a producer and a consumer that share it may rely on: the elements consumed and
  those still queued are together the elements produced, in order, and a reader that is let in
  at most once per queued element never panics.
\<close>

locale fifo =
  fixes enq :: "'a \<Rightarrow> 'q \<Rightarrow> 'q"
    and deq :: "'q \<Rightarrow> ('a \<times> 'q) res"
    and content :: "'q \<Rightarrow> 'a list"
  assumes content_enq: "content (enq x q) = content q @ [x]"
    and deq_empty: "content q = [] \<Longrightarrow> deq q = Panic IndexOutOfRange"
    and deq_cons: "content q = x # xs \<Longrightarrow> \<exists>q'. deq q = Ok (x, q') \<and> content q' = xs"
begin

lemma deq_Ok: "deq q = Ok (x, q') \<Longrightarrow> content q = x # content q'"
  using deq_empty [of q] deq_cons [of q] by (cases "content q") fastforce+

lemma enq_history: "h = d @ content q \<Longrightarrow> h @ [x] = d @ content (enq x q)"
  by (simp add: content_enq)

lemma deq_history: "h = d @ content q \<Longrightarrow> deq q = Ok (x, q') \<Longrightarrow> h = d @ x # content q'"
  by (simp add: deq_Ok)

lemma enq_permits: "n \<le> length (content q) \<Longrightarrow> Suc n \<le> length (content (enq x q))"
  by (simp add: content_enq)

lemma deq_permits: "n \<le> length (content q) \<Longrightarrow> deq q = Ok (x, q') \<Longrightarrow> n - 1 \<le> length (content q')"
  by (simp add: deq_Ok)

lemma deq_permitted:
  assumes "n \<le> length (content q)" "0 < n"
  shows "\<exists>x q'. deq q = Ok (x, q')"
  using assms deq_cons [of q] by (cases "content q") (simp, blast)

end

section \<open>Retrying\<close>

text \<open>
  Several loops of the program try something a bounded number of times and return with the first
  success. An attempt gets its number and returns \<open>Some\<close> of its result or \<open>None\<close>; \<open>afterTries\<close> is
  the state after \<open>n\<close> attempts, the first of them number \<open>i\<close>. The contract fixes what such a loop
  does in its two cases; the lemmas say which attempt it returns with.
\<close>

fun afterTries :: "(nat \<Rightarrow> 's \<Rightarrow> 'r option \<times> 's) \<Rightarrow> nat \<Rightarrow> nat \<Rightarrow> 's \<Rightarrow> 's" where
  "afterTries f i 0 s = s"
| "afterTries f i (Suc n) s = afterTries f (Suc i) n (snd (f i s))"

locale retry =
  fixes loop :: "nat \<Rightarrow> nat \<Rightarrow> 's \<Rightarrow> 'r option \<times> 's"
    and attempt :: "nat \<Rightarrow> 's \<Rightarrow> 'r option \<times> 's"
  assumes loop_0: "loop 0 i s = (None, s)"
    and loop_Suc: "loop (Suc n) i s =
      (case attempt i s of (Some r, t) \<Rightarrow> (Some r, t) | (None, t) \<Rightarrow> loop n (Suc i) t)"
begin

definition fails_before :: "nat \<Rightarrow> nat \<Rightarrow> 's \<Rightarrow> bool" where
  "fails_before i k s \<longleftrightarrow> (\<forall>j < k. fst (attempt (i + j) (afterTries attempt i j s)) = None)"

lemma fails_before_Suc:
  "fails_before i (Suc k) s \<longleftrightarrow> fst (attempt i s) = None \<and> fails_before (Suc i) k (snd (attempt i s))"
  by (simp add: fails_before_def All_less_Suc2)

lemma loop_Some:
  "loop n i s = (Some r, t) \<longleftrightarrow>
   (\<exists>k < n. fails_before i k s \<and> attempt (i + k) (afterTries attempt i k s) = (Some r, t))"
proof (induction n arbitrary: i s)
  case 0
  then show ?case by (simp add: loop_0)
next
  case (Suc n)
  obtain q u where q: "attempt i s = (q, u)" by force
  show ?case
  proof (cases q)
    case None
    with q Suc.IH [of "Suc i" u] show ?thesis
      by (simp add: loop_Suc Ex_less_Suc2 fails_before_Suc)
  next
    case (Some r')
    have "fails_before i 0 s" by (simp add: fails_before_def)
    with q Some show ?thesis by (auto simp: loop_Suc Ex_less_Suc2 fails_before_Suc)
  qed
qed

lemma loop_None:
  "loop n i s = (None, t) \<longleftrightarrow> fails_before i n s \<and> t = afterTries attempt i n s"
proof (induction n arbitrary: i s)
  case 0
  then show ?case by (auto simp: loop_0 fails_before_def)
next
  case (Suc n)
  then show ?case by (auto simp: loop_Suc fails_before_Suc split: prod.splits option.splits)
qed

end

section \<open>Polling\<close>

text \<open>
  A loop without a bound: it repeats \<open>round\<close> until a round has a result. \<open>None\<close> is a loop that
  never returns.
\<close>

partial_function (option) poll :: "('s \<Rightarrow> 'r option \<times> 's) \<Rightarrow> 's \<Rightarrow> ('r \<times> 's) option" where
  "poll round s =
     (case round s of
        (Some r, t) \<Rightarrow> Some (r, t)
      | (None, t) \<Rightarrow> poll round t)"

text \<open>The state before round \<open>k\<close>, and that the rounds before \<open>k\<close> have no result.\<close>

definition polled :: "('s \<Rightarrow> 'r option \<times> 's) \<Rightarrow> nat \<Rightarrow> 's \<Rightarrow> 's" where
  "polled round k s = ((\<lambda>s. snd (round s)) ^^ k) s"

definition undecided :: "('s \<Rightarrow> 'r option \<times> 's) \<Rightarrow> nat \<Rightarrow> 's \<Rightarrow> bool" where
  "undecided round k s \<longleftrightarrow> (\<forall>j < k. fst (round (polled round j s)) = None)"

lemma polled_0 [simp]: "polled round 0 s = s"
  by (simp add: polled_def)

lemma polled_Suc: "polled round (Suc k) s = polled round k (snd (round s))"
  unfolding polled_def by (simp only: funpow_Suc_right o_apply)

lemma undecided_0 [simp]: "undecided round 0 s"
  by (simp add: undecided_def)

lemma undecided_Suc:
  "undecided round (Suc k) s \<longleftrightarrow> fst (round s) = None \<and> undecided round k (snd (round s))"
  by (simp add: undecided_def All_less_Suc2 polled_Suc)

lemma poll_returns:
  "undecided round k s \<Longrightarrow> round (polled round k s) = (Some r, t) \<Longrightarrow> poll round s = Some (r, t)"
proof (induction k arbitrary: s)
  case 0
  then show ?case by (simp add: poll.simps)
next
  case (Suc k)
  then show ?case
    by (cases "round s") (simp add: poll.simps [of round s] undecided_Suc polled_Suc)
qed

lemma poll_result:
  assumes "poll round s = Some rt"
  shows "\<exists>k. undecided round k s \<and> round (polled round k s) = (Some (fst rt), snd rt)"
proof (rule poll.raw_induct [OF _ assms, where P =
      "\<lambda>round s rt. \<exists>k. undecided round k s \<and> round (polled round k s) = (Some (fst rt), snd rt)"])
  fix go :: "('s \<Rightarrow> 'r option \<times> 's) \<Rightarrow> 's \<Rightarrow> ('r \<times> 's) option" and round s rt
  assume IH: "\<And>s t y. go s t = Some y \<Longrightarrow>
      \<exists>k. undecided s k t \<and> s (polled s k t) = (Some (fst y), snd y)"
    and eq: "(case round s of (None, t) \<Rightarrow> go round t | (Some r, t) \<Rightarrow> Some (r, t)) = Some rt"
  obtain q u where q: "round s = (q, u)" by force
  show "\<exists>k. undecided round k s \<and> round (polled round k s) = (Some (fst rt), snd rt)"
  proof (cases q)
    case None
    with eq q have "go round u = Some rt" by simp
    from IH [OF this] obtain k where
      "undecided round k u" "round (polled round k u) = (Some (fst rt), snd rt)" by blast
    with q None show ?thesis
      by (intro exI [of _ "Suc k"]) (simp add: undecided_Suc polled_Suc)
  next
    case (Some x)
    with eq q show ?thesis by (intro exI [of _ 0]) auto
  qed
qed

lemma poll_iff:
  "poll round s = Some (r, t) \<longleftrightarrow>
   (\<exists>k. undecided round k s \<and> round (polled round k s) = (Some r, t))"
  using poll_result [of round s "(r, t)"] poll_returns [of round _ s r t] by auto

text \<open>Polling for a condition that only sleeping changes.\<close>

lemma poll_agreed:
  assumes "\<And>s. round s = (if agreed s then (Some r, s) else (None, sleep s))"
  shows "poll round s = Some (q, t) \<longleftrightarrow>
    q = r \<and> (\<exists>k. t = (sleep ^^ k) s \<and> agreed t \<and> (\<forall>j < k. \<not> agreed ((sleep ^^ j) s)))"
proof -
  have u: "undecided round k s \<longleftrightarrow> (\<forall>j < k. \<not> agreed ((sleep ^^ j) s))" for k s
    by (induction k arbitrary: s)
      (auto simp: undecided_Suc All_less_Suc2 assms funpow_Suc_right simp del: funpow.simps(2))
  have p: "undecided round k s \<Longrightarrow> polled round k s = (sleep ^^ k) s" for k s
    by (induction k arbitrary: s)
      (auto simp: undecided_Suc polled_Suc assms funpow_Suc_right simp del: funpow.simps(2) split: if_splits)
  have r: "round x = (Some q, t) \<longleftrightarrow> q = r \<and> t = x \<and> agreed x" for x by (auto simp: assms)
  show ?thesis
    unfolding poll_iff r by (auto simp: p u [symmetric])
qed

section \<open>Lists\<close>

lemma sublist_Cons_self [simp]: "sublist xs (x # xs)"
  by (simp add: sublist_Cons_right)

text \<open>A sum over the keys of a map does not depend on the iteration order.\<close>

lemma sum_list_order:
  fixes f :: "'k \<Rightarrow> int"
  assumes "is_order ks m"
  shows "sum_list (map f ks) = sum f (dom m)"
  using is_orderD [OF assms] by (metis sum_list_distinct_conv_sum_set)

lemma sum_list_nonneg_le:
  fixes xs :: "int list"
  assumes "x \<in> set xs" "\<forall>y \<in> set xs. 0 \<le> y"
  shows "x \<le> sum_list xs"
  using assms by (induction xs) (auto simp: sum_list_nonneg add_increasing add_increasing2)

end
