(* ===== verification/Wire.thy ===== *)
theory Wire
  imports Prelude "HOL-Library.List_Lexorder" "HOL-Library.Product_Lexorder"
begin

text \<open>
  The data of the dcrd packages that the harness handles, with the fields the code reads or
  writes, and the functions of those packages as parameters of the model.

  \<^item> \<open>wire_api\<close> holds the functions and constants of \<open>wire\<close>, \<open>dcrutil\<close> and \<open>standalone\<close>;
    \<open>wire_ok\<close> states the documented behaviour the code relies on: the constructors fill in the
    fields they are given and the two \<open>Add\<close> methods append.
  \<^item> \<open>key_api\<close> holds the functions of \<open>hdkeychain\<close>, \<open>secp256k1\<close>, \<open>stdaddr\<close> and \<open>sign\<close>.
    Nothing is assumed of them.
  \<^item> \<open>demo_wire\<close> and \<open>demo_keys\<close> are concrete instances, used by the witnesses only.
\<close>

section \<open>Transactions and headers\<close>

text \<open>
  \<open>wire.OutPoint\<close>. A composite literal that leaves \<open>Tree\<close> out has the zero value there.
\<close>

datatype outpoint = OutPoint (opHash: bytes) (opIndex: u32) (opTree: byte)

text \<open>Outpoints are ordered by hash, index and tree, so that a map of them has a canonical order.\<close>

definition opKey :: "outpoint \<Rightarrow> bytes \<times> u32 \<times> byte" where
  "opKey p = (opHash p, opIndex p, opTree p)"

lemma opKey_eq_iff: "opKey p = opKey q \<longleftrightarrow> p = q"
  by (cases p; cases q) (simp add: opKey_def)

instantiation outpoint :: linorder
begin

definition less_eq_outpoint :: "outpoint \<Rightarrow> outpoint \<Rightarrow> bool" where
  "less_eq_outpoint p q \<longleftrightarrow> opKey p \<le> opKey q"

definition less_outpoint :: "outpoint \<Rightarrow> outpoint \<Rightarrow> bool" where
  "less_outpoint p q \<longleftrightarrow> opKey p < opKey q"

instance
  by standard (auto simp: less_eq_outpoint_def less_outpoint_def opKey_eq_iff [symmetric])

end

definition canonicalOrder :: "(outpoint \<rightharpoonup> 'v) \<Rightarrow> outpoint list" where
  "canonicalOrder m = sorted_list_of_set (dom m)"

lemma canonicalOrder: "finite (dom m) \<Longrightarrow> is_order (canonicalOrder m) m"
  by (simp add: is_order_def canonicalOrder_def)

record txin =
  PreviousOutPoint :: outpoint
  ValueIn :: int
  SignatureScript :: bytes

record txout =
  Value :: int
  outVersion :: u16
  PkScript :: bytes

record msgtx =
  msgVersion :: u16
  TxIn :: "txin list"
  TxOut :: "txout list"

text \<open>
  \<open>wire.BlockHeader\<close>; \<open>hdrRest\<close> stands for the fields the code never touches. The timestamp is
  in nanoseconds.
\<close>

record block_header =
  hdrHeight :: u32
  SBits :: int
  PrevBlock :: bytes
  Timestamp :: int
  Bits :: u32
  Nonce :: u32
  hdrRest :: bytes

text \<open>The parameters of a network, \<open>chaincfg.Params\<close>.\<close>

record net_params =
  Net :: u32
  CoinbaseMaturity :: u16
  TicketMaturity :: u16
  TicketsPerBlock :: u16
  StakeValidationHeight :: int
  MinimumStakeDiff :: int
  StakeBaseSigScript :: bytes

text \<open>
  A value of the interface \<open>stdaddr.Address\<close> is what its methods return: \<open>String\<close>,
  \<open>Hash160\<close> and the script methods, each a script version and a script.
\<close>

record address =
  addrString :: string
  Hash160 :: bytes
  PaymentScript :: "u16 \<times> bytes"
  VotingRightsScript :: "u16 \<times> bytes"
  PayVoteCommitmentScript :: "u16 \<times> bytes"

section \<open>The functions of the wire packages\<close>

record wire_api =
  NewMsgTx :: msgtx
  AddTxIn :: "msgtx \<Rightarrow> txin \<Rightarrow> msgtx"
  AddTxOut :: "msgtx \<Rightarrow> txout \<Rightarrow> msgtx"
  NewTxIn :: "outpoint \<Rightarrow> int \<Rightarrow> bytes \<Rightarrow> txin"
  NewTxOut :: "int \<Rightarrow> bytes \<Rightarrow> txout"
  SerializeSize :: "msgtx \<Rightarrow> int"
  TxHash :: "msgtx \<Rightarrow> bytes"
  IsCoinBaseTx :: "msgtx \<Rightarrow> bool \<Rightarrow> bool"
  HeaderFromBytes :: "bytes \<Rightarrow> block_header ext"
  NewTxFromBytes :: "bytes \<Rightarrow> msgtx ext"

definition wire_ok :: "wire_api \<Rightarrow> bool" where
  "wire_ok w \<longleftrightarrow>
     TxIn (NewMsgTx w) = [] \<and> TxOut (NewMsgTx w) = [] \<and>
     (\<forall>tx i. AddTxIn w tx i = tx\<lparr>TxIn := TxIn tx @ [i]\<rparr>) \<and>
     (\<forall>tx t. AddTxOut w tx t = tx\<lparr>TxOut := TxOut tx @ [t]\<rparr>) \<and>
     (\<forall>p v s. NewTxIn w p v s = \<lparr>PreviousOutPoint = p, ValueIn = v, SignatureScript = s\<rparr>) \<and>
     (\<forall>v s. NewTxOut w v s = \<lparr>Value = v, outVersion = 0, PkScript = s\<rparr>)"

lemma wire_okD:
  assumes "wire_ok w"
  shows "TxIn (NewMsgTx w) = []" "TxOut (NewMsgTx w) = []"
    "AddTxIn w tx i = tx\<lparr>TxIn := TxIn tx @ [i]\<rparr>"
    "AddTxOut w tx t = tx\<lparr>TxOut := TxOut tx @ [t]\<rparr>"
    "NewTxIn w p v s = \<lparr>PreviousOutPoint = p, ValueIn = v, SignatureScript = s\<rparr>"
    "NewTxOut w v s = \<lparr>Value = v, outVersion = 0, PkScript = s\<rparr>"
  using assms by (simp_all add: wire_ok_def)

section \<open>The functions of the key packages\<close>

text \<open>
  \<open>'k\<close> is the type of extended keys, and a private key is the byte string it is made of. The
  network and the fixed arguments of \<open>sign.SignatureScript\<close> (\<open>SigHashAll\<close>,
  \<open>STEcdsaSecp256k1\<close>, compressed keys) are the same at every call and part of the function.
\<close>

record 'k key_api =
  NewMaster :: "bytes \<Rightarrow> 'k ext"
  Child :: "'k \<Rightarrow> u32 \<Rightarrow> 'k ext"
  SerializedPrivKey :: "'k \<Rightarrow> bytes ext"
  PrivKeyFromBytes :: "bytes \<Rightarrow> bytes"
  PubKeyCompressed :: "bytes \<Rightarrow> bytes"
  NewAddressPubKeyRaw :: "bytes \<Rightarrow> address ext"
  AddressPubKeyHash :: "address \<Rightarrow> address"
  SignScript :: "msgtx \<Rightarrow> nat \<Rightarrow> bytes \<Rightarrow> bytes \<Rightarrow> bytes ext"

section \<open>A concrete instance\<close>

definition demo_tx_bytes :: "msgtx \<Rightarrow> bytes" where
  "demo_tx_bytes tx = concat (map PkScript (TxOut tx)) @ [of_nat (length (TxIn tx))]"

definition demo_wire :: wire_api where
  "demo_wire =
     \<lparr>NewMsgTx = \<lparr>msgVersion = 1, TxIn = [], TxOut = []\<rparr>,
      AddTxIn = (\<lambda>tx i. tx\<lparr>TxIn := TxIn tx @ [i]\<rparr>),
      AddTxOut = (\<lambda>tx t. tx\<lparr>TxOut := TxOut tx @ [t]\<rparr>),
      NewTxIn = (\<lambda>p v s. \<lparr>PreviousOutPoint = p, ValueIn = v, SignatureScript = s\<rparr>),
      NewTxOut = (\<lambda>v s. \<lparr>Value = v, outVersion = 0, PkScript = s\<rparr>),
      SerializeSize = (\<lambda>tx. 20 + 58 * int (length (TxIn tx)) + 36 * int (length (TxOut tx))),
      TxHash = demo_tx_bytes,
      IsCoinBaseTx = (\<lambda>tx _. length (TxIn tx) = 0),
      HeaderFromBytes = (\<lambda>bs. case bs of
         [] \<Rightarrow> Inl (External 0)
       | b # _ \<Rightarrow> Inr \<lparr>hdrHeight = ucast b, SBits = 20000, PrevBlock = [], Timestamp = 0,
                       Bits = 0, Nonce = 0, hdrRest = []\<rparr>),
      NewTxFromBytes = (\<lambda>bs. Inr \<lparr>msgVersion = 1, TxIn = [],
         TxOut = [\<lparr>Value = 100, outVersion = 0, PkScript = bs\<rparr>]\<rparr>)\<rparr>"

lemma demo_wire_ok [simp]: "wire_ok demo_wire"
  by (simp add: wire_ok_def demo_wire_def)

definition demo_address :: "bytes \<Rightarrow> address" where
  "demo_address h =
     \<lparr>addrString = ''addr'', Hash160 = h, PaymentScript = (0, 118 # h),
      VotingRightsScript = (0, 186 # h), PayVoteCommitmentScript = (0, 187 # h)\<rparr>"

text \<open>Extended keys are child indices; a key's bytes are the low byte of its index.\<close>

definition demo_keys :: "u32 key_api" where
  "demo_keys =
     \<lparr>NewMaster = (\<lambda>seed. Inr 0),
      Child = (\<lambda>k i. Inr (i + 1)),
      SerializedPrivKey = (\<lambda>k. Inr [ucast k]),
      PrivKeyFromBytes = (\<lambda>bs. bs),
      PubKeyCompressed = (\<lambda>bs. 2 # bs),
      NewAddressPubKeyRaw = (\<lambda>bs. Inr (demo_address bs)),
      AddressPubKeyHash = (\<lambda>a. a),
      SignScript = (\<lambda>tx i script key. Inr (of_nat i # key))\<rparr>"

end
