(* ===== verification/MemWallet.thy ===== *)
theory MemWallet
  imports Wire
begin

text \<open>
  The in-memory wallet of \<open>memwallet.go\<close>: its state and one definition per method. Every
  mutating method takes the wallet and returns the new one beside its outcome.

  The map \<open>utxos\<close> holds pointers in the code. Each \<open>utxo\<close> object is allocated by one
  assignment in \<open>evalOutputs\<close> and is then owned by exactly one map entry: \<open>evalInputs\<close> moves it
  into the undo entry and deletes it, \<open>UnwindBlock\<close> moves it back and drops the entry. So the
  value in the map is the object, and setting \<open>isLocked\<close> through a pointer is an update of the
  entry of its outpoint.
\<close>

section \<open>State\<close>

record utxo =
  pkScript :: bytes
  val :: int
  maturityHeight :: int
  keyIndex :: u32
  isLocked :: bool

definition isMature :: "utxo \<Rightarrow> int \<Rightarrow> bool" where
  "isMature u height \<longleftrightarrow> height \<ge> maturityHeight u"

record chain_update =
  blockHeight :: int
  filteredTxns :: "msgtx list"

record undo_entry =
  utxosDestroyed :: "outpoint \<rightharpoonup> utxo"
  utxosCreated :: "outpoint list"

text \<open>The requests the wallet issues through its RPC client, in order.\<close>

datatype rpc_call = LoadTxFilter address | SendRawTransaction msgtx

text \<open>
  \<open>rpc\<close> is the client pointer, \<open>None\<close> for nil; \<open>rpcLog\<close> records the calls made through it.
  \<open>quitClosed\<close> and \<open>wg\<close> are the state of the channel \<open>quit\<close> and of the wait group. The two
  mutexes are not part of the state: each definition below is what one holder of the lock does.
\<close>

record 'k mem_wallet =
  coinbaseKey :: bytes
  coinbaseAddr :: "address option"
  hdRoot :: 'k
  hdIndex :: u32
  currentHeight :: int
  addrs :: "u32 \<rightharpoonup> address"
  utxos :: "outpoint \<rightharpoonup> utxo"
  reorgJournal :: "int \<rightharpoonup> undo_entry"
  chainUpdates :: "chain_update list"
  net :: net_params
  quitClosed :: bool
  wg :: nat
  rpc :: "nat option"
  rpcLog :: "rpc_call list"

section \<open>Construction\<close>

definition noTreasury :: bool where
  "noTreasury = False"

definition hdSeed :: bytes where
  "hdSeed =
     [0x79, 0xa6, 0x1a, 0xdb, 0xc6, 0xe5, 0xa2, 0xe1,
      0x39, 0xd2, 0x71, 0x3a, 0x54, 0x6e, 0xc7, 0xc8,
      0x75, 0x63, 0x2e, 0x75, 0xf1, 0xdf, 0x9c, 0x3f,
      0xa6, 0x01, 0x00, 0x00, 0x00, 0x00, 0x00, 0x00]"

text \<open>Go's \<open>copy\<close>, and \<open>binary.BigEndian.PutUint32\<close> on a buffer of at least four bytes.\<close>

definition copy_into :: "bytes \<Rightarrow> bytes \<Rightarrow> bytes" where
  "copy_into dst src = take (length dst) src @ drop (length src) dst"

definition putUint32BE :: "bytes \<Rightarrow> u32 \<Rightarrow> bytes" where
  "putUint32BE buf v =
     buf[0 := ucast (drop_bit 24 v), 1 := ucast (drop_bit 16 v),
         2 := ucast (drop_bit 8 v), 3 := ucast v]"

definition harnessHDSeed :: "u32 \<Rightarrow> bytes" where
  "harnessHDSeed harnessID =
     (let buf = copy_into (replicate 36 0) hdSeed
      in putUint32BE (take 32 buf) harnessID @ drop 32 buf)"

definition keyToAddr :: "'k key_api \<Rightarrow> bytes \<Rightarrow> address ext" where
  "keyToAddr K serializedPrivKey =
     (let key = PrivKeyFromBytes K serializedPrivKey;
          serializedKey = PubKeyCompressed K key
      in case NewAddressPubKeyRaw K serializedKey of
           Inl err \<Rightarrow> Inl err
         | Inr pubKeyAddr \<Rightarrow> Inr (AddressPubKeyHash K pubKeyAddr))"

text \<open>
  The result is a pointer: \<open>Ok None\<close> is a nil wallet with a nil error, which is what the code
  returns when the master key cannot be made.
\<close>

definition newMemWallet :: "'k key_api \<Rightarrow> net_params \<Rightarrow> u32 \<Rightarrow> 'k mem_wallet option res" where
  "newMemWallet K params harnessID =
     (case NewMaster K (harnessHDSeed harnessID) of
        Inl err \<Rightarrow> Ok None
      | Inr root \<Rightarrow>
     (case Child K root 0 of
        Inl err \<Rightarrow> Err err
      | Inr coinbaseChild \<Rightarrow>
     (case SerializedPrivKey K coinbaseChild of
        Inl err \<Rightarrow> Err err
      | Inr cbKey \<Rightarrow>
     (case keyToAddr K cbKey of
        Inl err \<Rightarrow> Err err
      | Inr cbAddr \<Rightarrow>
          Ok (Some
            \<lparr>coinbaseKey = PrivKeyFromBytes K cbKey, coinbaseAddr = Some cbAddr,
             hdRoot = root, hdIndex = 1, currentHeight = 0,
             addrs = [0 \<mapsto> cbAddr], utxos = Map.empty, reorgJournal = Map.empty,
             chainUpdates = [], net = params, quitClosed = False, wg = 0,
             rpc = None, rpcLog = []\<rparr>)))))"

section \<open>Starting, stopping and simple accessors\<close>

text \<open>\<open>Start\<close> launches the chain syncer; the goroutine itself is in the theory \<open>WalletSystem\<close>.\<close>

definition Start :: "'k mem_wallet \<Rightarrow> 'k mem_wallet" where
  "Start m = m\<lparr>wg := wg m + 1\<rparr>"

text \<open>The first statement of \<open>Stop\<close>; the wait that follows is a step of \<open>WalletSystem\<close>.\<close>

definition closeQuit :: "'k mem_wallet \<Rightarrow> 'k mem_wallet res" where
  "closeQuit m = (if quitClosed m then Panic CloseOfClosed else Ok (m\<lparr>quitClosed := True\<rparr>))"

definition SyncedHeight :: "'k mem_wallet \<Rightarrow> int" where
  "SyncedHeight m = currentHeight m"

definition SetRPCClient :: "nat option \<Rightarrow> 'k mem_wallet \<Rightarrow> 'k mem_wallet" where
  "SetRPCClient client m = m\<lparr>rpc := client\<rparr>"

section \<open>Chain updates\<close>

fun parseTxns :: "wire_api \<Rightarrow> bytes list \<Rightarrow> msgtx list ext" where
  "parseTxns w [] = Inr []"
| "parseTxns w (txBytes # rest) =
     (case NewTxFromBytes w txBytes of
        Inl err \<Rightarrow> Inl err
      | Inr tx \<Rightarrow> (case parseTxns w rest of Inl err \<Rightarrow> Inl err | Inr txns \<Rightarrow> Inr (tx # txns)))"

definition enqueueUpdate :: "chain_update \<Rightarrow> 'k mem_wallet \<Rightarrow> 'k mem_wallet" where
  "enqueueUpdate u m = m\<lparr>chainUpdates := chainUpdates m @ [u]\<rparr>"

text \<open>\<open>IngestBlock\<close> up to the launch of the goroutine that signals the chain syncer.\<close>

definition IngestBlock :: "wire_api \<Rightarrow> bytes \<Rightarrow> bytes list \<Rightarrow> 'k mem_wallet \<Rightarrow> 'k mem_wallet res" where
  "IngestBlock w header txns m =
     (case HeaderFromBytes w header of
        Inl err \<Rightarrow> Panic (Raised err)
      | Inr hdr \<Rightarrow>
     (case parseTxns w txns of
        Inl err \<Rightarrow> Panic (Raised err)
      | Inr parsed \<Rightarrow>
          Ok (enqueueUpdate
            \<lparr>blockHeight = uint (hdrHeight hdr), filteredTxns = parsed\<rparr> m)))"

text \<open>The critical section of the chain syncer under \<open>chainMtx\<close>: \<open>m.chainUpdates[0]\<close>.\<close>

definition popUpdate :: "'k mem_wallet \<Rightarrow> (chain_update \<times> 'k mem_wallet) res" where
  "popUpdate m =
     (case chainUpdates m of
        [] \<Rightarrow> Panic IndexOutOfRange
      | u # us \<Rightarrow> Ok (u, m\<lparr>chainUpdates := us\<rparr>))"

text \<open>
  \<open>evalOutputs\<close>. The inner loop runs over the addresses in the order \<open>ks\<close>; the orders of the
  inner loops of one call are given by \<open>ord\<close>, one for every output.
\<close>

definition coinbaseMaturityHeight :: "'k mem_wallet \<Rightarrow> bool \<Rightarrow> int" where
  "coinbaseMaturityHeight m isCoinbase =
     (if isCoinbase then i64 (currentHeight m + uint (CoinbaseMaturity (net m))) else 0)"

fun scanAddrs :: "bytes \<Rightarrow> bool \<Rightarrow> nat \<Rightarrow> txout \<Rightarrow> u32 list \<Rightarrow>
    'k mem_wallet \<times> undo_entry \<Rightarrow> 'k mem_wallet \<times> undo_entry" where
  "scanAddrs txHash isCoinbase i output [] (m, undo) = (m, undo)"
| "scanAddrs txHash isCoinbase i output (k # ks) (m, undo) =
     (case addrs m k of
        None \<Rightarrow> scanAddrs txHash isCoinbase i output ks (m, undo)
      | Some addr \<Rightarrow>
          if \<not> sublist (Hash160 addr) (PkScript output)
          then scanAddrs txHash isCoinbase i output ks (m, undo)
          else
            let op = OutPoint txHash (of_nat i) 0;
                u = \<lparr>pkScript = PkScript output, val = Value output,
                     maturityHeight = coinbaseMaturityHeight m isCoinbase,
                     keyIndex = k, isLocked = False\<rparr>
            in scanAddrs txHash isCoinbase i output ks
                 (m\<lparr>utxos := (utxos m)(op \<mapsto> u)\<rparr>,
                  undo\<lparr>utxosCreated := utxosCreated undo @ [op]\<rparr>))"

fun evalOutputs :: "(nat \<Rightarrow> u32 list) \<Rightarrow> nat \<Rightarrow> txout list \<Rightarrow> bytes \<Rightarrow> bool \<Rightarrow>
    'k mem_wallet \<times> undo_entry \<Rightarrow> 'k mem_wallet \<times> undo_entry" where
  "evalOutputs ord i [] txHash isCoinbase mu = mu"
| "evalOutputs ord i (output # outputs) txHash isCoinbase mu =
     evalOutputs ord (Suc i) outputs txHash isCoinbase
       (scanAddrs txHash isCoinbase i output (ord i) mu)"

fun evalInputs :: "txin list \<Rightarrow> 'k mem_wallet \<times> undo_entry \<Rightarrow> 'k mem_wallet \<times> undo_entry" where
  "evalInputs [] (m, undo) = (m, undo)"
| "evalInputs (txIn # inputs) (m, undo) =
     (let op = PreviousOutPoint txIn in
      case utxos m op of
        None \<Rightarrow> evalInputs inputs (m, undo)
      | Some oldUtxo \<Rightarrow>
          evalInputs inputs
            (m\<lparr>utxos := (utxos m)(op := None)\<rparr>,
             undo\<lparr>utxosDestroyed := (utxosDestroyed undo)(op \<mapsto> oldUtxo)\<rparr>))"

fun processTxns :: "wire_api \<Rightarrow> (nat \<Rightarrow> nat \<Rightarrow> u32 list) \<Rightarrow> nat \<Rightarrow> msgtx list \<Rightarrow>
    'k mem_wallet \<times> undo_entry \<Rightarrow> 'k mem_wallet \<times> undo_entry" where
  "processTxns w ord n [] mu = mu"
| "processTxns w ord n (mtx # txns) mu =
     (let isCoinbase = IsCoinBaseTx w mtx noTreasury;
          txHash = TxHash w mtx;
          mu1 = evalOutputs (ord n) 0 (TxOut mtx) txHash isCoinbase mu;
          mu2 = evalInputs (TxIn mtx) mu1
      in processTxns w ord (Suc n) txns mu2)"

definition emptyUndo :: undo_entry where
  "emptyUndo = \<lparr>utxosDestroyed = Map.empty, utxosCreated = []\<rparr>"

text \<open>The critical section of the chain syncer under the wallet's lock.\<close>

definition applyUpdate :: "wire_api \<Rightarrow> (nat \<Rightarrow> nat \<Rightarrow> u32 list) \<Rightarrow> chain_update \<Rightarrow>
    'k mem_wallet \<Rightarrow> 'k mem_wallet" where
  "applyUpdate w ord update m =
     (let m1 = m\<lparr>currentHeight := blockHeight update\<rparr>;
          (m2, undo) = processTxns w ord 0 (filteredTxns update) (m1, emptyUndo)
      in m2\<lparr>reorgJournal := (reorgJournal m2)(blockHeight update \<mapsto> undo)\<rparr>)"

text \<open>
  \<open>UnwindBlock\<close>; \<open>unwindHeight\<close> is its body after the header is parsed, with the iteration order
  \<open>ds\<close> of the map of destroyed outputs. A missing journal entry is a nil pointer.
\<close>

definition unwindHeight :: "outpoint list \<Rightarrow> int \<Rightarrow> 'k mem_wallet \<Rightarrow> 'k mem_wallet res" where
  "unwindHeight ds height m =
     (case reorgJournal m height of
        None \<Rightarrow> Panic NilDeref
      | Some undo \<Rightarrow>
          Ok (m\<lparr>utxos := assign_all ds (utxosDestroyed undo)
                             (delete_all (utxosCreated undo) (utxos m)),
               reorgJournal := (reorgJournal m)(height := None)\<rparr>))"

definition UnwindBlock :: "wire_api \<Rightarrow> outpoint list \<Rightarrow> bytes \<Rightarrow> 'k mem_wallet \<Rightarrow>
    'k mem_wallet res" where
  "UnwindBlock w ds header m =
     (case HeaderFromBytes w header of
        Inl err \<Rightarrow> Panic (Raised err)
      | Inr hdr \<Rightarrow> unwindHeight ds (uint (hdrHeight hdr)) m)"

section \<open>Addresses\<close>

text \<open>
  \<open>loadFilter\<close> is the answer of the node to \<open>LoadTxFilter\<close>: an error or nil. A method call
  through a nil client is a nil dereference.
\<close>

definition newAddress :: "'k key_api \<Rightarrow> (address \<Rightarrow> goerr option) \<Rightarrow> 'k mem_wallet \<Rightarrow>
    address res \<times> 'k mem_wallet" where
  "newAddress K loadFilter m =
     (let index = hdIndex m in
      case Child K (hdRoot m) index of
        Inl err \<Rightarrow> (Err err, m)
      | Inr childKey \<Rightarrow>
     (case SerializedPrivKey K childKey of
        Inl err \<Rightarrow> (Err err, m)
      | Inr privKey \<Rightarrow>
     (case keyToAddr K privKey of
        Inl err \<Rightarrow> (Err err, m)
      | Inr addr \<Rightarrow>
     (case rpc m of
        None \<Rightarrow> (Panic NilDeref, m)
      | Some client \<Rightarrow>
          let m1 = m\<lparr>rpcLog := rpcLog m @ [LoadTxFilter addr]\<rparr> in
          case loadFilter addr of
            Some err \<Rightarrow> (Err err, m1)
          | None \<Rightarrow>
              (Ok addr, m1\<lparr>addrs := (addrs m1)(index \<mapsto> addr), hdIndex := index + 1\<rparr>)))))"

definition NewAddress :: "'k key_api \<Rightarrow> (address \<Rightarrow> goerr option) \<Rightarrow> 'k mem_wallet \<Rightarrow>
    address res \<times> 'k mem_wallet" where
  "NewAddress K loadFilter m = newAddress K loadFilter m"

section \<open>Spending\<close>

definition spendSize :: int where
  "spendSize = 1 + 73 + 1 + 33"

definition notEnoughFunds :: goerr where
  "notEnoughFunds = Msg ''not enough funds for coin selection''"

text \<open>
  \<open>fundTx\<close>: the loop over the wallet's outputs in the order \<open>ks\<close>, with the accumulator
  \<open>amtSelected\<close>. It returns the transaction it has extended.
\<close>

definition isSpendable :: "int \<Rightarrow> utxo \<Rightarrow> bool" where
  "isSpendable height u \<longleftrightarrow> \<not> (\<not> isMature u height \<or> isLocked u)"

definition requiredFee :: "wire_api \<Rightarrow> msgtx \<Rightarrow> int \<Rightarrow> int" where
  "requiredFee w tx feeRate =
     (let txSize = i64 (SerializeSize w tx + i64 (spendSize * int (length (TxIn tx))))
      in i64 (txSize * feeRate))"

fun fundLoop :: "wire_api \<Rightarrow> 'k key_api \<Rightarrow> (address \<Rightarrow> goerr option) \<Rightarrow> int \<Rightarrow> int \<Rightarrow>
    outpoint list \<Rightarrow> int \<Rightarrow> msgtx \<Rightarrow> 'k mem_wallet \<Rightarrow> msgtx res \<times> 'k mem_wallet" where
  "fundLoop w K lf amt feeRate [] amtSelected tx m = (Err notEnoughFunds, m)"
| "fundLoop w K lf amt feeRate (outPoint # ks) amtSelected tx m =
     (case utxos m outPoint of
        None \<Rightarrow> fundLoop w K lf amt feeRate ks amtSelected tx m
      | Some u \<Rightarrow>
          if \<not> isSpendable (currentHeight m) u
          then fundLoop w K lf amt feeRate ks amtSelected tx m
          else
            let amtSelected' = i64 (amtSelected + val u);
                tx' = AddTxIn w tx (NewTxIn w outPoint (val u) []);
                reqFee = requiredFee w tx' feeRate
            in if i64 (amtSelected' - reqFee) < amt
               then fundLoop w K lf amt feeRate ks amtSelected' tx' m
               else
                 let changeVal = i64 (i64 (amtSelected' - amt) - reqFee) in
                 if changeVal > 0 then
                   (case newAddress K lf m of
                      (Ok addr, m') \<Rightarrow>
                        (let (ver, script) = PaymentScript addr in
                         (Ok (AddTxOut w tx'
                            \<lparr>Value = changeVal, outVersion = ver, PkScript = script\<rparr>), m'))
                    | (Err err, m') \<Rightarrow> (Err err, m')
                    | (Panic p, m') \<Rightarrow> (Panic p, m')
                    | (Blocked, m') \<Rightarrow> (Blocked, m'))
                 else (Ok tx', m))"

definition fundTx :: "wire_api \<Rightarrow> 'k key_api \<Rightarrow> (address \<Rightarrow> goerr option) \<Rightarrow> outpoint list \<Rightarrow>
    msgtx \<Rightarrow> int \<Rightarrow> int \<Rightarrow> 'k mem_wallet \<Rightarrow> msgtx res \<times> 'k mem_wallet" where
  "fundTx w K lf ks tx amt feeRate m = fundLoop w K lf amt feeRate ks 0 tx m"

text \<open>The loops of \<open>CreateTransaction\<close>: tally the outputs, sign the inputs, lock the coins.\<close>

fun tallyOutputs :: "wire_api \<Rightarrow> txout list \<Rightarrow> int \<Rightarrow> msgtx \<Rightarrow> int \<times> msgtx" where
  "tallyOutputs w [] outputAmt tx = (outputAmt, tx)"
| "tallyOutputs w (output # outputs) outputAmt tx =
     tallyOutputs w outputs (i64 (outputAmt + Value output)) (AddTxOut w tx output)"

fun signInputs :: "'k key_api \<Rightarrow> 'k mem_wallet \<Rightarrow> nat \<Rightarrow> txin list \<Rightarrow> msgtx \<Rightarrow> outpoint list \<Rightarrow>
    (msgtx \<times> outpoint list) res" where
  "signInputs K m i [] tx spentOutputs = Ok (tx, spentOutputs)"
| "signInputs K m i (txIn # inputs) tx spentOutputs =
     (let outPoint = PreviousOutPoint txIn in
      case utxos m outPoint of
        None \<Rightarrow> Panic NilDeref
      | Some u \<Rightarrow>
     (case Child K (hdRoot m) (keyIndex u) of
        Inl err \<Rightarrow> Err err
      | Inr extendedKey \<Rightarrow>
     (case SerializedPrivKey K extendedKey of
        Inl err \<Rightarrow> Err err
      | Inr privKey \<Rightarrow>
     (case SignScript K tx i (pkScript u) privKey of
        Inl err \<Rightarrow> Err err
      | Inr sigScript \<Rightarrow>
          signInputs K m (Suc i) inputs
            (tx\<lparr>TxIn := (TxIn tx)[i := (TxIn tx ! i)\<lparr>SignatureScript := sigScript\<rparr>]\<rparr>)
            (spentOutputs @ [outPoint])))))"

fun setLocked :: "bool \<Rightarrow> outpoint list \<Rightarrow> (outpoint \<rightharpoonup> utxo) \<Rightarrow> (outpoint \<rightharpoonup> utxo)" where
  "setLocked b [] us = us"
| "setLocked b (op # ops) us =
     setLocked b ops
       (case us op of None \<Rightarrow> us | Some u \<Rightarrow> us(op \<mapsto> u\<lparr>isLocked := b\<rparr>))"

definition CreateTransaction :: "wire_api \<Rightarrow> 'k key_api \<Rightarrow> (address \<Rightarrow> goerr option) \<Rightarrow>
    outpoint list \<Rightarrow> txout list \<Rightarrow> int \<Rightarrow> 'k mem_wallet \<Rightarrow> msgtx res \<times> 'k mem_wallet" where
  "CreateTransaction w K lf ks outputs feeRate m =
     (let (outputAmt, tx) = tallyOutputs w outputs 0 (NewMsgTx w) in
      case fundTx w K lf ks tx outputAmt feeRate m of
        (Ok tx1, m1) \<Rightarrow>
          (case signInputs K m1 0 (TxIn tx1) tx1 [] of
             Ok (tx2, spentOutputs) \<Rightarrow>
               (Ok tx2, m1\<lparr>utxos := setLocked True spentOutputs (utxos m1)\<rparr>)
           | Err err \<Rightarrow> (Err err, m1)
           | Panic p \<Rightarrow> (Panic p, m1)
           | Blocked \<Rightarrow> (Blocked, m1))
      | (Err err, m1) \<Rightarrow> (Err err, m1)
      | (Panic p, m1) \<Rightarrow> (Panic p, m1)
      | (Blocked, m1) \<Rightarrow> (Blocked, m1))"

text \<open>\<open>sendRaw\<close> is the node's answer to \<open>SendRawTransaction\<close>: an error or the hash.\<close>

definition SendOutputs :: "wire_api \<Rightarrow> 'k key_api \<Rightarrow> (address \<Rightarrow> goerr option) \<Rightarrow>
    (msgtx \<Rightarrow> bytes ext) \<Rightarrow> outpoint list \<Rightarrow> txout list \<Rightarrow> int \<Rightarrow> 'k mem_wallet \<Rightarrow>
    bytes res \<times> 'k mem_wallet" where
  "SendOutputs w K lf sendRaw ks outputs feeRate m =
     (case CreateTransaction w K lf ks outputs feeRate m of
        (Ok tx, m1) \<Rightarrow>
          (case rpc m1 of
             None \<Rightarrow> (Panic NilDeref, m1)
           | Some client \<Rightarrow>
               let m2 = m1\<lparr>rpcLog := rpcLog m1 @ [SendRawTransaction tx]\<rparr> in
               (case sendRaw tx of Inl err \<Rightarrow> (Err err, m2) | Inr h \<Rightarrow> (Ok h, m2)))
      | (Err err, m1) \<Rightarrow> (Err err, m1)
      | (Panic p, m1) \<Rightarrow> (Panic p, m1)
      | (Blocked, m1) \<Rightarrow> (Blocked, m1))"

definition UnlockOutputs :: "txin list \<Rightarrow> 'k mem_wallet \<Rightarrow> 'k mem_wallet" where
  "UnlockOutputs inputs m =
     m\<lparr>utxos := setLocked False (map PreviousOutPoint inputs) (utxos m)\<rparr>"

text \<open>\<open>ConfirmedBalance\<close>, with the iteration order \<open>ks\<close> of the outputs.\<close>

fun balanceLoop :: "'k mem_wallet \<Rightarrow> outpoint list \<Rightarrow> int \<Rightarrow> int" where
  "balanceLoop m [] balance = balance"
| "balanceLoop m (op # ks) balance =
     (case utxos m op of
        None \<Rightarrow> balanceLoop m ks balance
      | Some u \<Rightarrow>
          if \<not> isSpendable (currentHeight m) u then balanceLoop m ks balance
          else balanceLoop m ks (i64 (balance + val u)))"

definition ConfirmedBalance :: "outpoint list \<Rightarrow> 'k mem_wallet \<Rightarrow> int" where
  "ConfirmedBalance ks m = balanceLoop m ks 0"

section \<open>A concrete wallet\<close>

text \<open>
  The parameters of simnet that matter here, and a wallet that owns one address (with hash
  \<open>[1]\<close>, the child key 0 of \<open>demo_keys\<close>) and two mature coins. Used by the witnesses only.
\<close>

definition demo_net :: net_params where
  "demo_net =
     \<lparr>Net = 0x12141c16, CoinbaseMaturity = 16, TicketMaturity = 16, TicketsPerBlock = 5,
      StakeValidationHeight = 144, MinimumStakeDiff = 20000, StakeBaseSigScript = [0]\<rparr>"

definition demo_point :: "nat \<Rightarrow> outpoint" where
  "demo_point n = OutPoint [of_nat n] 0 0"

definition demo_utxo :: "int \<Rightarrow> utxo" where
  "demo_utxo v =
     \<lparr>pkScript = [118, 2, 1], val = v, maturityHeight = 0, keyIndex = 0, isLocked = False\<rparr>"

definition demo_wallet :: "u32 mem_wallet" where
  "demo_wallet =
     \<lparr>coinbaseKey = [1], coinbaseAddr = Some (demo_address [2, 1]), hdRoot = 0, hdIndex = 1,
      currentHeight = 100, addrs = [0 \<mapsto> demo_address [2, 1]],
      utxos = [demo_point 1 \<mapsto> demo_utxo 5000, demo_point 2 \<mapsto> demo_utxo 90000],
      reorgJournal = Map.empty, chainUpdates = [], net = demo_net, quitClosed = False, wg = 1,
      rpc = Some 0, rpcLog = []\<rparr>"

text \<open>A transaction that spends \<open>p\<close> and pays \<open>v\<close> to the wallet's address.\<close>

definition demo_tx :: "outpoint list \<Rightarrow> int \<Rightarrow> msgtx" where
  "demo_tx ps v =
     \<lparr>msgVersion = 1,
      TxIn = map (\<lambda>p. \<lparr>PreviousOutPoint = p, ValueIn = 0, SignatureScript = []\<rparr>) ps,
      TxOut = [\<lparr>Value = v, outVersion = 0, PkScript = [118, 2, 1]\<rparr>]\<rparr>"

lemmas demo_defs = demo_wallet_def demo_tx_def demo_utxo_def demo_point_def demo_net_def
  demo_address_def

end
