(* ===== verification/WalletChain.thy ===== *)
theory WalletChain
  imports MemWallet
begin

text \<open>
  How the wallet follows the chain: the effect of connecting a block, against a ledger
  semantics that knows nothing of iteration orders, and the effect of disconnecting one.
\<close>

section \<open>Scanning an output\<close>

text \<open>The addresses of the wallet an output pays to, in the order of the scan.\<close>

definition matching :: "(u32 \<rightharpoonup> address) \<Rightarrow> bytes \<Rightarrow> u32 list \<Rightarrow> u32 list" where
  "matching A script ks =
     filter (\<lambda>k. case A k of None \<Rightarrow> False | Some a \<Rightarrow> sublist (Hash160 a) script) ks"

definition pays :: "(u32 \<rightharpoonup> address) \<Rightarrow> bytes \<Rightarrow> bool" where
  "pays A script \<longleftrightarrow> (\<exists>k \<in> dom A. sublist (Hash160 (the (A k))) script)"

lemma pays_iff: "pays A script \<longleftrightarrow> (\<exists>k a. A k = Some a \<and> sublist (Hash160 a) script)"
  unfolding pays_def by (metis domI domIff option.exhaust_sel option.sel)

lemma matching_simps [simp]:
  "matching A script [] = []"
  "matching A script (k # ks) =
     (if \<exists>a. A k = Some a \<and> sublist (Hash160 a) script then k # matching A script ks
      else matching A script ks)"
  by (auto simp: matching_def split: option.splits)

lemma matching_set: "set (matching A script ks) =
    {k \<in> set ks. \<exists>a. A k = Some a \<and> sublist (Hash160 a) script}"
  by (auto simp: matching_def split: option.splits)

lemma matching_Nil_iff: "is_order ks A \<Longrightarrow> matching A script ks = [] \<longleftrightarrow> \<not> pays A script"
proof -
  assume "is_order ks A"
  then have "set ks = dom A" by (rule is_orderD)
  moreover have "matching A script ks = [] \<longleftrightarrow>
      (\<forall>k \<in> set ks. \<forall>a. A k = Some a \<longrightarrow> \<not> sublist (Hash160 a) script)"
    by (simp add: set_empty [symmetric] matching_set del: set_empty) blast
  ultimately show ?thesis unfolding pays_iff by blast
qed

definition newUtxo :: "'k mem_wallet \<Rightarrow> bool \<Rightarrow> txout \<Rightarrow> u32 \<Rightarrow> utxo" where
  "newUtxo m isCoinbase output k =
     \<lparr>pkScript = PkScript output, val = Value output,
      maturityHeight = coinbaseMaturityHeight m isCoinbase, keyIndex = k, isLocked = False\<rparr>"

text \<open>The inner loop in closed form: the last match wins and every match is logged.\<close>

lemma scanAddrs_closed:
  "scanAddrs txHash cb i output ks (m, undo) =
     (let ms = matching (addrs m) (PkScript output) ks; op = OutPoint txHash (of_nat i) 0 in
      (m\<lparr>utxos := if ms = [] then utxos m
                  else (utxos m)(op \<mapsto> newUtxo m cb output (last ms))\<rparr>,
       undo\<lparr>utxosCreated := utxosCreated undo @ replicate (length ms) op\<rparr>))"
proof (induction ks arbitrary: m undo)
  case Nil
  then show ?case by simp
next
  case (Cons k ks)
  then show ?case
    by (cases "addrs m k")
       (auto simp: Let_def newUtxo_def coinbaseMaturityHeight_def)
qed

text \<open>One output, over any admissible order.\<close>

definition ownOutput :: "'k mem_wallet \<Rightarrow> bytes \<Rightarrow> nat \<Rightarrow> txout \<Rightarrow> outpoint set" where
  "ownOutput m txHash i output =
     (if pays (addrs m) (PkScript output) then {OutPoint txHash (of_nat i) 0} else {})"

section \<open>The ledger semantics of a block\<close>

text \<open>
  What the ledger says of an output the wallet owns: script, value and maturity. The ledger
  knows neither keys nor locks.
\<close>

type_synonym coin = "bytes \<times> int \<times> int"

definition coin_of :: "utxo \<Rightarrow> coin" where
  "coin_of u = (pkScript u, val u, maturityHeight u)"

definition coins :: "'k mem_wallet \<Rightarrow> outpoint \<rightharpoonup> coin" where
  "coins m = map_option coin_of \<circ> utxos m"

text \<open>The outputs of a transaction that pay to the addresses \<open>A\<close>, from index \<open>i\<close> on.\<close>

fun paidOutputs :: "(u32 \<rightharpoonup> address) \<Rightarrow> bytes \<Rightarrow> int \<Rightarrow> nat \<Rightarrow> txout list \<Rightarrow> (outpoint \<times> coin) list" where
  "paidOutputs A txHash mat i [] = []"
| "paidOutputs A txHash mat i (t # ts) =
     (if pays A (PkScript t) then [(OutPoint txHash (of_nat i) 0, PkScript t, Value t, mat)] else [])
     @ paidOutputs A txHash mat (Suc i) ts"

definition spends :: "msgtx \<Rightarrow> outpoint set" where
  "spends tx = PreviousOutPoint ` set (TxIn tx)"

definition txMaturity :: "wire_api \<Rightarrow> net_params \<Rightarrow> int \<Rightarrow> msgtx \<Rightarrow> int" where
  "txMaturity w p height tx =
     (if IsCoinBaseTx w tx False then i64 (height + uint (CoinbaseMaturity p)) else 0)"

text \<open>Connecting a transaction: add what it pays to us, take away what it spends.\<close>

definition ledgerTx :: "wire_api \<Rightarrow> (u32 \<rightharpoonup> address) \<Rightarrow> net_params \<Rightarrow> int \<Rightarrow> msgtx \<Rightarrow>
    (outpoint \<rightharpoonup> coin) \<Rightarrow> (outpoint \<rightharpoonup> coin)" where
  "ledgerTx w A p height tx C =
     (C ++ map_of (rev (paidOutputs A (TxHash w tx) (txMaturity w p height tx) 0 (TxOut tx))))
       |` (- spends tx)"

definition ledgerBlock :: "wire_api \<Rightarrow> (u32 \<rightharpoonup> address) \<Rightarrow> net_params \<Rightarrow> chain_update \<Rightarrow>
    (outpoint \<rightharpoonup> coin) \<Rightarrow> (outpoint \<rightharpoonup> coin)" where
  "ledgerBlock w A p b C = fold (ledgerTx w A p (blockHeight b)) (filteredTxns b) C"

text \<open>The orders of all inner loops of a block are orders of the address map.\<close>

definition scan_orders :: "'k mem_wallet \<Rightarrow> (nat \<Rightarrow> nat \<Rightarrow> u32 list) \<Rightarrow> bool" where
  "scan_orders m ord \<longleftrightarrow> (\<forall>n i. is_order (ord n i) (addrs m))"

section \<open>What the loops change\<close>

text \<open>The loops change the outputs of the wallet and the undo entry, nothing else.\<close>

definition only_utxos :: "'k mem_wallet \<Rightarrow> 'k mem_wallet \<Rightarrow> bool" where
  "only_utxos m m' \<longleftrightarrow> m' = m\<lparr>utxos := utxos m'\<rparr>"

lemma only_utxos_refl [simp, intro]: "only_utxos m m"
  by (simp add: only_utxos_def)

lemma only_utxos_upd [simp, intro]: "only_utxos m (m\<lparr>utxos := U\<rparr>)"
  by (simp add: only_utxos_def)

lemma only_utxos_trans [trans]: "only_utxos m m' \<Longrightarrow> only_utxos m' m'' \<Longrightarrow> only_utxos m m''"
  unfolding only_utxos_def by (metis mem_wallet.update_convs(7) mem_wallet.surjective)

lemma only_utxosD:
  assumes "only_utxos m m'"
  shows "addrs m' = addrs m" "net m' = net m" "currentHeight m' = currentHeight m"
    "reorgJournal m' = reorgJournal m" "chainUpdates m' = chainUpdates m"
    "hdRoot m' = hdRoot m" "hdIndex m' = hdIndex m"
proof -
  have "m' = m\<lparr>utxos := utxos m'\<rparr>" using assms by (simp add: only_utxos_def)
  then obtain U where "m' = m\<lparr>utxos := U\<rparr>" ..
  then show "addrs m' = addrs m" "net m' = net m" "currentHeight m' = currentHeight m"
    "reorgJournal m' = reorgJournal m" "chainUpdates m' = chainUpdates m"
    "hdRoot m' = hdRoot m" "hdIndex m' = hdIndex m" by simp_all
qed

lemma scanAddrs_only: "only_utxos m (fst (scanAddrs h cb i t ks (m, undo)))"
  by (simp add: scanAddrs_closed Let_def)

lemma evalOutputs_only: "only_utxos (fst mu) (fst (evalOutputs ord i ts h cb mu))"
proof (induction ts arbitrary: i mu)
  case Nil
  then show ?case by simp
next
  case (Cons t ts)
  have "only_utxos (fst mu) (fst (scanAddrs h cb i t (ord i) mu))"
    by (metis scanAddrs_only prod.collapse)
  also note Cons.IH
  finally show ?case by simp
qed

lemma evalInputs_only: "only_utxos m (fst (evalInputs ins (m, undo)))"
proof (induction ins arbitrary: m undo)
  case Nil
  then show ?case by simp
next
  case (Cons i ins)
  show ?case
  proof (cases "utxos m (PreviousOutPoint i)")
    case None
    with Cons show ?thesis by (simp add: Let_def)
  next
    case (Some u)
    let ?m = "m\<lparr>utxos := (utxos m)(PreviousOutPoint i := None)\<rparr>"
    have "only_utxos m ?m" ..
    also note Cons.IH [of ?m "undo\<lparr>utxosDestroyed := (utxosDestroyed undo)(PreviousOutPoint i \<mapsto> u)\<rparr>"]
    finally show ?thesis using Some by (simp add: Let_def)
  qed
qed

lemma processTxns_only: "only_utxos (fst mu) (fst (processTxns w ord n txs mu))"
proof (induction txs arbitrary: n mu)
  case Nil
  then show ?case by simp
next
  case (Cons tx txs)
  let ?mu1 = "evalOutputs (ord n) 0 (TxOut tx) (TxHash w tx) (IsCoinBaseTx w tx noTreasury) mu"
  have "only_utxos (fst mu) (fst ?mu1)" by (rule evalOutputs_only)
  also have "only_utxos (fst ?mu1) (fst (evalInputs (TxIn tx) ?mu1))"
    by (metis evalInputs_only prod.collapse)
  also note Cons.IH
  finally show ?case by (simp add: Let_def)
qed

section \<open>Outputs, inputs and transactions\<close>

fun paidPoints :: "(u32 \<rightharpoonup> address) \<Rightarrow> bytes \<Rightarrow> nat \<Rightarrow> txout list \<Rightarrow> outpoint set" where
  "paidPoints A txHash i [] = {}"
| "paidPoints A txHash i (t # ts) =
     (if pays A (PkScript t) then insert (OutPoint txHash (of_nat i) 0) else (\<lambda>S. S))
       (paidPoints A txHash (Suc i) ts)"

lemma paidOutputs_points: "fst ` set (paidOutputs A h mat i ts) = paidPoints A h i ts"
  by (induction ts arbitrary: i) (simp_all add: image_Un)

lemma coins_upd [simp]: "coins (m\<lparr>utxos := (utxos m)(op \<mapsto> u)\<rparr>) = (coins m)(op \<mapsto> coin_of u)"
  by (auto simp: coins_def)

lemma coins_only: "utxos m = utxos m' \<Longrightarrow> coins m = coins m'"
  by (simp add: coins_def)

lemma coin_of_newUtxo [simp]:
  "coin_of (newUtxo m cb t k) = (PkScript t, Value t, coinbaseMaturityHeight m cb)"
  by (simp add: coin_of_def newUtxo_def)

lemma scanAddrs_coins:
  assumes "is_order ks (addrs m)"
  shows "coins (fst (scanAddrs h cb i t ks (m, undo))) =
    coins m ++ map_of (paidOutputs (addrs m) h (coinbaseMaturityHeight m cb) i [t])"
  using matching_Nil_iff [OF assms, of "PkScript t"]
  by (auto simp: scanAddrs_closed Let_def)

lemma scanAddrs_undo:
  assumes "is_order ks (addrs m)" "scanAddrs h cb i t ks (m, undo) = (m', undo')"
  shows "utxosDestroyed undo' = utxosDestroyed undo"
    "set (utxosCreated undo') = set (utxosCreated undo) \<union> paidPoints (addrs m) h i [t]"
    "p \<notin> paidPoints (addrs m) h i [t] \<Longrightarrow> utxos m' p = utxos m p"
  using assms(2) matching_Nil_iff [OF assms(1), of "PkScript t"]
  by (auto simp: scanAddrs_closed Let_def)

lemma evalOutputs_coins:
  assumes "\<forall>i. is_order (ord i) (addrs m)"
  shows "coins (fst (evalOutputs ord i ts h cb (m, undo))) =
    coins m ++ map_of (rev (paidOutputs (addrs m) h (coinbaseMaturityHeight m cb) i ts))"
  using assms
proof (induction ts arbitrary: i m undo)
  case Nil
  then show ?case by simp
next
  case (Cons t ts)
  obtain m1 u1 where 1: "scanAddrs h cb i t (ord i) (m, undo) = (m1, u1)" by force
  have "only_utxos m m1" using scanAddrs_only [of m h cb i t "ord i" undo] 1 by simp
  note same = only_utxosD [OF this]
  have "coins m1 = coins m ++ map_of (paidOutputs (addrs m) h (coinbaseMaturityHeight m cb) i [t])"
    using scanAddrs_coins [of "ord i" m h cb i t undo] Cons.prems 1 by simp
  then show ?case
    using Cons.IH [of m1 "Suc i" u1] Cons.prems 1
    by (simp add: same coinbaseMaturityHeight_def)
qed

lemma evalOutputs_undo:
  assumes "\<forall>i. is_order (ord i) (addrs m)" "evalOutputs ord i ts h cb (m, undo) = (m', undo')"
  shows "utxosDestroyed undo' = utxosDestroyed undo"
    "set (utxosCreated undo') = set (utxosCreated undo) \<union> paidPoints (addrs m) h i ts"
    "p \<notin> paidPoints (addrs m) h i ts \<Longrightarrow> utxos m' p = utxos m p"
proof -
  have "utxosDestroyed undo' = utxosDestroyed undo \<and>
    set (utxosCreated undo') = set (utxosCreated undo) \<union> paidPoints (addrs m) h i ts \<and>
    (\<forall>p. p \<notin> paidPoints (addrs m) h i ts \<longrightarrow> utxos m' p = utxos m p)"
    using assms
  proof (induction ts arbitrary: i m undo)
    case Nil
    then show ?case by simp
  next
    case (Cons t ts)
    obtain m1 u1 where 1: "scanAddrs h cb i t (ord i) (m, undo) = (m1, u1)" by force
    have "only_utxos m m1" using scanAddrs_only [of m h cb i t "ord i" undo] 1 by simp
    note same = only_utxosD [OF this]
    have o: "is_order (ord i) (addrs m)" using Cons.prems by simp
    note s = scanAddrs_undo [OF o 1]
    show ?case
      using Cons.IH [of m1 "Suc i" u1] Cons.prems 1 s by (auto simp: same)
  qed
  then show "utxosDestroyed undo' = utxosDestroyed undo"
    "set (utxosCreated undo') = set (utxosCreated undo) \<union> paidPoints (addrs m) h i ts"
    "p \<notin> paidPoints (addrs m) h i ts \<Longrightarrow> utxos m' p = utxos m p" by blast+
qed

lemma evalOutputs_destroyed:
  "utxosDestroyed (snd (evalOutputs ord i ts h cb mu)) = utxosDestroyed (snd mu)"
proof (induction ts arbitrary: i mu)
  case Nil
  then show ?case by simp
next
  case (Cons t ts)
  then show ?case by (cases mu) (simp add: scanAddrs_closed Let_def)
qed

lemma evalInputs_closed:
  "evalInputs ins (m, undo) =
     (m\<lparr>utxos := utxos m |` (- (PreviousOutPoint ` set ins))\<rparr>,
      undo\<lparr>utxosDestroyed := utxosDestroyed undo ++ (utxos m |` (PreviousOutPoint ` set ins))\<rparr>)"
proof (induction ins arbitrary: m undo)
  case Nil
  then show ?case by simp
next
  case (Cons i ins)
  let ?p = "PreviousOutPoint i" and ?S = "PreviousOutPoint ` set ins"
  show ?case
  proof (cases "utxos m ?p")
    case None
    have "utxos m |` (- insert ?p ?S) = utxos m |` (- ?S)"
      "utxos m |` insert ?p ?S = utxos m |` ?S"
      using None by (auto simp: restrict_map_def)
    then show ?thesis by (simp add: Cons.IH None Let_def)
  next
    case (Some u)
    let ?m = "m\<lparr>utxos := (utxos m)(?p := None)\<rparr>"
    let ?u = "undo\<lparr>utxosDestroyed := (utxosDestroyed undo)(?p \<mapsto> u)\<rparr>"
    have U: "(utxos m)(?p := None) |` (- ?S) = utxos m |` (- insert ?p ?S)"
      by (auto simp: restrict_map_def)
    have D: "(utxosDestroyed undo)(?p \<mapsto> u) ++ ((utxos m)(?p := None) |` ?S) =
        utxosDestroyed undo ++ (utxos m |` insert ?p ?S)"
      using Some by (auto simp: restrict_map_def map_add_def split: option.splits)
    have "evalInputs (i # ins) (m, undo) = evalInputs ins (?m, ?u)"
      using Some by (simp add: Let_def)
    also have "\<dots> = (m\<lparr>utxos := (utxos m)(?p := None) |` (- ?S)\<rparr>,
        undo\<lparr>utxosDestroyed := (utxosDestroyed undo)(?p \<mapsto> u) ++ ((utxos m)(?p := None) |` ?S)\<rparr>)"
      by (subst Cons.IH) simp
    finally show ?thesis by (simp only: U D list.set image_insert)
  qed
qed

section \<open>Blocks\<close>

lemma ledgerTx_step:
  assumes "scan_orders m ord"
    and "evalInputs (TxIn tx) (evalOutputs (ord n) 0 (TxOut tx) (TxHash w tx)
           (IsCoinBaseTx w tx noTreasury) (m, undo)) = (m', undo')"
  shows "coins m' = ledgerTx w (addrs m) (net m) (currentHeight m) tx (coins m)"
proof -
  obtain m1 u1 where 1: "evalOutputs (ord n) 0 (TxOut tx) (TxHash w tx)
      (IsCoinBaseTx w tx noTreasury) (m, undo) = (m1, u1)" by force
  have "coins m1 = coins m ++ map_of (rev (paidOutputs (addrs m) (TxHash w tx)
      (txMaturity w (net m) (currentHeight m) tx) 0 (TxOut tx)))"
    using evalOutputs_coins [of "ord n" m 0 "TxOut tx" "TxHash w tx"
        "IsCoinBaseTx w tx noTreasury" undo] assms(1)
    unfolding 1
    by (simp add: scan_orders_def txMaturity_def coinbaseMaturityHeight_def noTreasury_def)
  moreover have "coins m' = coins m1 |` (- spends tx)"
    using assms(2) 1 by (auto simp: evalInputs_closed coins_def spends_def restrict_map_def)
  ultimately show ?thesis by (simp add: ledgerTx_def)
qed

lemma processTxns_coins:
  assumes "scan_orders m ord"
  shows "coins (fst (processTxns w ord n txs (m, undo))) =
    fold (ledgerTx w (addrs m) (net m) (currentHeight m)) txs (coins m)"
  using assms
proof (induction txs arbitrary: n m undo)
  case Nil
  then show ?case by simp
next
  case (Cons tx txs)
  let ?mu = "evalInputs (TxIn tx) (evalOutputs (ord n) 0 (TxOut tx) (TxHash w tx)
      (IsCoinBaseTx w tx noTreasury) (m, undo))"
  obtain m' u' where mu: "?mu = (m', u')" by force
  have "only_utxos m m'"
    using processTxns_only [of "(m, undo)" w ord n "[tx]"] mu by (simp add: Let_def)
  note same = only_utxosD [OF this]
  have "scan_orders m' ord" using Cons.prems by (simp add: scan_orders_def same)
  from Cons.IH [OF this, of "Suc n" u'] show ?case
    using ledgerTx_step [OF Cons.prems mu] by (simp add: Let_def mu same)
qed

lemma applyUpdate_coins:
  assumes "scan_orders m ord"
  shows "coins (applyUpdate w ord b m) = ledgerBlock w (addrs m) (net m) b (coins m)"
proof -
  let ?m1 = "m\<lparr>currentHeight := blockHeight b\<rparr>"
  have "scan_orders ?m1 ord" using assms by (simp add: scan_orders_def)
  from processTxns_coins [OF this, of w 0 "filteredTxns b" emptyUndo] show ?thesis
    by (simp add: applyUpdate_def ledgerBlock_def coins_def case_prod_beta Let_def)
qed

text \<open>What a block leaves alone, and the entry it writes to the journal.\<close>

lemma applyUpdate_frame:
  "addrs (applyUpdate w ord b m) = addrs m" "net (applyUpdate w ord b m) = net m"
  "hdRoot (applyUpdate w ord b m) = hdRoot m" "hdIndex (applyUpdate w ord b m) = hdIndex m"
  "chainUpdates (applyUpdate w ord b m) = chainUpdates m"
  "currentHeight (applyUpdate w ord b m) = blockHeight b"
  using only_utxosD [OF processTxns_only [of "(m\<lparr>currentHeight := blockHeight b\<rparr>, emptyUndo)"
      w ord 0 "filteredTxns b"]]
  by (simp_all add: applyUpdate_def case_prod_beta Let_def)

definition blockUndo :: "wire_api \<Rightarrow> (nat \<Rightarrow> nat \<Rightarrow> u32 list) \<Rightarrow> chain_update \<Rightarrow>
    'k mem_wallet \<Rightarrow> undo_entry" where
  "blockUndo w ord b m =
     snd (processTxns w ord 0 (filteredTxns b) (m\<lparr>currentHeight := blockHeight b\<rparr>, emptyUndo))"

lemma applyUpdate_eq:
  "applyUpdate w ord b m =
     m\<lparr>currentHeight := blockHeight b, utxos := utxos (applyUpdate w ord b m),
       reorgJournal := (reorgJournal m)(blockHeight b \<mapsto> blockUndo w ord b m)\<rparr>"
proof -
  obtain m2 u where mu: "processTxns w ord 0 (filteredTxns b)
      (m\<lparr>currentHeight := blockHeight b\<rparr>, emptyUndo) = (m2, u)" by force
  have "only_utxos (m\<lparr>currentHeight := blockHeight b\<rparr>) m2"
    using processTxns_only [of "(m\<lparr>currentHeight := blockHeight b\<rparr>, emptyUndo)" w ord 0] mu
    by (metis fst_conv)
  then obtain U where "m2 = m\<lparr>currentHeight := blockHeight b, utxos := U\<rparr>"
    unfolding only_utxos_def by metis
  then show ?thesis by (simp add: applyUpdate_def blockUndo_def mu)
qed

section \<open>Disconnecting a block\<close>

text \<open>
  The effect of a block on the pair of outputs and entry, relative to the outputs \<open>U0\<close> before
  the block. \<open>P\<close> is the set of outpoints the block has paid to us so far.
\<close>

definition restores :: "utxo option \<Rightarrow> utxo option \<Rightarrow> utxo option \<Rightarrow> bool" where
  "restores before after destroyed =
     (case destroyed of Some u \<Rightarrow> before = Some u \<and> after = None | None \<Rightarrow> after = before)"

definition undo_rel :: "(outpoint \<rightharpoonup> utxo) \<Rightarrow> outpoint set \<Rightarrow> (outpoint \<rightharpoonup> utxo) \<Rightarrow> undo_entry \<Rightarrow> bool" where
  "undo_rel U0 P U undo \<longleftrightarrow>
     set (utxosCreated undo) = P \<and> (\<forall>p. p \<notin> P \<longrightarrow> restores (U0 p) (U p) (utxosDestroyed undo p))"

lemma undo_relD:
  assumes "undo_rel U0 P U undo" "p \<notin> P"
  shows "(U |` (- P) ++ utxosDestroyed undo) p = U0 p"
proof -
  have "restores (U0 p) (U p) (utxosDestroyed undo p)" using assms by (simp add: undo_rel_def)
  with assms(2) show ?thesis
    by (auto simp: restores_def map_add_def restrict_map_def split: option.splits)
qed

text \<open>The outpoints a block pays to the addresses \<open>A\<close>.\<close>

definition blockPays :: "wire_api \<Rightarrow> (u32 \<rightharpoonup> address) \<Rightarrow> msgtx list \<Rightarrow> outpoint set" where
  "blockPays w A txs = (\<Union>tx \<in> set txs. paidPoints A (TxHash w tx) 0 (TxOut tx))"

lemma undo_rel_tx:
  assumes "scan_orders m ord" "undo_rel U0 P (utxos m) undo"
    and "evalInputs (TxIn tx) (evalOutputs (ord n) 0 (TxOut tx) (TxHash w tx) cb (m, undo)) = (m', undo')"
  shows "undo_rel U0 (P \<union> paidPoints (addrs m) (TxHash w tx) 0 (TxOut tx)) (utxos m') undo'"
proof -
  obtain m1 u1 where 1: "evalOutputs (ord n) 0 (TxOut tx) (TxHash w tx) cb (m, undo) = (m1, u1)"
    by force
  have "\<forall>i. is_order (ord n i) (addrs m)" using assms(1) by (simp add: scan_orders_def)
  note e = evalOutputs_undo [OF this 1]
  let ?Q = "paidPoints (addrs m) (TxHash w tx) 0 (TxOut tx)"
  have "undo_rel U0 (P \<union> ?Q) (utxos m1) u1"
    using assms(2) e by (simp add: undo_rel_def)
  moreover have "restores x None (case y of None \<Rightarrow> d | Some z \<Rightarrow> Some z)"
    if "restores x y d" for x y d
    using that by (auto simp: restores_def split: option.splits)
  ultimately show ?thesis
    using assms(3) unfolding 1
    by (auto simp: undo_rel_def evalInputs_closed restrict_map_def map_add_def)
qed

lemma undo_rel_txns:
  assumes "scan_orders m ord" "undo_rel U0 P (utxos m) undo"
    and "processTxns w ord n txs (m, undo) = (m', undo')"
  shows "undo_rel U0 (P \<union> blockPays w (addrs m) txs) (utxos m') undo'"
  using assms
proof (induction txs arbitrary: n m undo P)
  case Nil
  then show ?case by (simp add: blockPays_def)
next
  case (Cons tx txs)
  let ?mu = "evalInputs (TxIn tx) (evalOutputs (ord n) 0 (TxOut tx) (TxHash w tx)
      (IsCoinBaseTx w tx noTreasury) (m, undo))"
  obtain m1 u1 where mu: "?mu = (m1, u1)" by force
  have "only_utxos m m1"
    using processTxns_only [of "(m, undo)" w ord n "[tx]"] mu by (simp add: Let_def)
  note same = only_utxosD [OF this]
  have "scan_orders m1 ord" using Cons.prems(1) by (simp add: scan_orders_def same)
  moreover note undo_rel_tx [OF Cons.prems(1,2) mu]
  moreover have "processTxns w ord (Suc n) txs (m1, u1) = (m', undo')"
    using Cons.prems(3) by (simp add: Let_def mu)
  ultimately show ?case
    using Cons.IH by (fastforce simp: same blockPays_def Un_assoc)
qed

lemma undo_rel_block:
  assumes "scan_orders m ord"
  shows "undo_rel (utxos m) (blockPays w (addrs m) (filteredTxns b))
    (utxos (applyUpdate w ord b m)) (blockUndo w ord b m)"
proof -
  let ?m1 = "m\<lparr>currentHeight := blockHeight b\<rparr>"
  obtain m2 u where mu: "processTxns w ord 0 (filteredTxns b) (?m1, emptyUndo) = (m2, u)" by force
  have "scan_orders ?m1 ord" using assms by (simp add: scan_orders_def)
  moreover have "undo_rel (utxos m) {} (utxos ?m1) emptyUndo"
    by (simp add: undo_rel_def emptyUndo_def restores_def)
  ultimately have "undo_rel (utxos m) ({} \<union> blockPays w (addrs ?m1) (filteredTxns b)) (utxos m2) u"
    using mu by (rule undo_rel_txns)
  then show ?thesis by (simp add: applyUpdate_def blockUndo_def mu)
qed

end
