(* ===== verification/WalletReorg.thy ===== *)
theory WalletReorg
  imports WalletChain
begin

text \<open>
  Chain reorganisations: disconnecting the blocks just connected, in reverse order, restores
  the wallet's outputs and its journal, as the instance of the contract \<open>undo_log\<close> for
  \<open>memwallet.go\<close>; and the blocks for which it does not.
\<close>

section \<open>What a disconnected block leaves behind\<close>

lemma unwind_after_apply:
  assumes "scan_orders m ord" "is_order ds (utxosDestroyed (blockUndo w ord b m))"
  shows "unwindHeight ds (blockHeight b) (applyUpdate w ord b m) =
    Ok (m\<lparr>currentHeight := blockHeight b,
          utxos := utxos (applyUpdate w ord b m) |` (- blockPays w (addrs m) (filteredTxns b))
                   ++ utxosDestroyed (blockUndo w ord b m),
          reorgJournal := (reorgJournal m)(blockHeight b := None)\<rparr>)"
proof -
  let ?P = "blockPays w (addrs m) (filteredTxns b)"
  let ?U = "utxos (applyUpdate w ord b m)"
  let ?u = "blockUndo w ord b m"
  have "set (utxosCreated ?u) = ?P"
    using undo_rel_block [OF assms(1), of w b] by (simp add: undo_rel_def)
  then have "delete_all (utxosCreated ?u) ?U = ?U |` (- ?P)"
    by (auto simp: map_loops restrict_map_def)
  moreover note assign_all_order [OF assms(2)]
  ultimately show ?thesis
    by (subst applyUpdate_eq) (simp add: unwindHeight_def)
qed

text \<open>An output is moved to the undo entry only by a transaction that spends it.\<close>

lemma destroyed_mono:
  "utxosDestroyed (snd mu) p \<noteq> None \<Longrightarrow>
   utxosDestroyed (snd (processTxns w ord n txs mu)) p \<noteq> None"
proof (induction txs arbitrary: n mu)
  case Nil
  then show ?case by simp
next
  case (Cons tx txs)
  show ?case
    unfolding processTxns.simps Let_def
  proof (rule Cons.IH)
    let ?mu = "evalOutputs (ord n) 0 (TxOut tx) (TxHash w tx) (IsCoinBaseTx w tx noTreasury) mu"
    have "utxosDestroyed (snd ?mu) = utxosDestroyed (snd mu)"
      by (rule evalOutputs_destroyed)
    with Cons.prems show "utxosDestroyed (snd (evalInputs (TxIn tx) ?mu)) p \<noteq> None"
      by (cases ?mu) (auto simp: evalInputs_closed map_add_None)
  qed
qed

lemma destroyed_spent:
  "p \<notin> (\<Union>tx \<in> set txs. spends tx) \<Longrightarrow>
   utxosDestroyed (snd (processTxns w ord n txs mu)) p = utxosDestroyed (snd mu) p"
proof (induction txs arbitrary: n mu)
  case Nil
  then show ?case by simp
next
  case (Cons tx txs)
  let ?mu1 = "evalOutputs (ord n) 0 (TxOut tx) (TxHash w tx) (IsCoinBaseTx w tx noTreasury) mu"
  have "utxosDestroyed (snd (evalInputs (TxIn tx) ?mu1)) p = utxosDestroyed (snd ?mu1) p"
    using Cons.prems
    by (cases ?mu1) (auto simp: evalInputs_closed spends_def map_add_def split: option.splits)
  then show ?case
    using Cons by (simp add: Let_def evalOutputs_destroyed)
qed

section \<open>Blocks that can be undone\<close>

text \<open>
  A block is clean for the wallet when what it pays to the wallet is new to the wallet and is
  not spent within the block itself.
\<close>

definition clean_block :: "wire_api \<Rightarrow> 'k mem_wallet \<Rightarrow> chain_update \<Rightarrow> bool" where
  "clean_block w m b \<longleftrightarrow>
     (let P = blockPays w (addrs m) (filteredTxns b) in
      P \<inter> dom (utxos m) = {} \<and> (\<forall>tx \<in> set (filteredTxns b). spends tx \<inter> P = {}))"

lemma unwind_clean:
  assumes "scan_orders m ord" "clean_block w m b"
    and "is_order ds (utxosDestroyed (blockUndo w ord b m))"
  shows "unwindHeight ds (blockHeight b) (applyUpdate w ord b m) =
    Ok (m\<lparr>currentHeight := blockHeight b, reorgJournal := (reorgJournal m)(blockHeight b := None)\<rparr>)"
proof -
  let ?P = "blockPays w (addrs m) (filteredTxns b)"
  let ?D = "utxosDestroyed (blockUndo w ord b m)"
  let ?U = "utxos (applyUpdate w ord b m)"
  have "(?U |` (- ?P) ++ ?D) p = utxos m p" for p
  proof (cases "p \<in> ?P")
    case True
    have "?D p = None"
      using assms(2) True unfolding blockUndo_def
      by (subst destroyed_spent) (auto simp: clean_block_def Let_def emptyUndo_def)
    moreover have "utxos m p = None"
      using assms(2) True by (auto simp: clean_block_def Let_def)
    ultimately show ?thesis using True by (simp add: map_add_def)
  next
    case False
    from undo_relD [OF undo_rel_block [OF assms(1)] this] show ?thesis .
  qed
  then have "?U |` (- ?P) ++ ?D = utxos m" by (rule ext)
  with unwind_after_apply [OF assms(1,3)] show ?thesis
    by (simp add: mem_wallet.defs)
qed

section \<open>The contract of the journal\<close>

text \<open>
  A connected block with the orders the runtime chooses when it is connected and disconnected.
\<close>

record connection =
  scanOrd :: "nat \<Rightarrow> nat \<Rightarrow> u32 list"
  restoreOrd :: "outpoint list"
  connBlock :: chain_update

definition connect :: "wire_api \<Rightarrow> connection \<Rightarrow> 'k mem_wallet \<Rightarrow> 'k mem_wallet" where
  "connect w c m = applyUpdate w (scanOrd c) (connBlock c) m"

definition disconnect :: "connection \<Rightarrow> 'k mem_wallet \<Rightarrow> 'k mem_wallet res" where
  "disconnect c m = unwindHeight (restoreOrd c) (blockHeight (connBlock c)) m"

definition good_connection :: "wire_api \<Rightarrow> connection \<Rightarrow> 'k mem_wallet \<Rightarrow> bool" where
  "good_connection w c m \<longleftrightarrow>
     scan_orders m (scanOrd c) \<and> clean_block w m (connBlock c) \<and>
     is_order (restoreOrd c) (utxosDestroyed (blockUndo w (scanOrd c) (connBlock c) m)) \<and>
     reorgJournal m (blockHeight (connBlock c)) = None"

text \<open>Everything but the height.\<close>

definition sans_height :: "'k mem_wallet \<Rightarrow> 'k mem_wallet" where
  "sans_height m = m\<lparr>currentHeight := 0\<rparr>"

lemma sans_height_eq:
  "sans_height s = sans_height t \<Longrightarrow> s = t\<lparr>currentHeight := currentHeight s\<rparr>"
  by (cases s; cases t) (simp add: sans_height_def)

lemma disconnect_height:
  "map_res sans_height (disconnect c (t\<lparr>currentHeight := h\<rparr>)) = map_res sans_height (disconnect c t)"
  by (auto simp: disconnect_def unwindHeight_def sans_height_def split: option.splits)

interpretation journal: undo_log "connect w" disconnect "good_connection w" sans_height
  for w :: wire_api
proof unfold_locales
  fix c and m :: "'k mem_wallet"
  assume "good_connection w c m"
  then have "disconnect c (connect w c m) =
      Ok (m\<lparr>currentHeight := blockHeight (connBlock c), reorgJournal := reorgJournal m\<rparr>)"
    by (simp add: good_connection_def connect_def disconnect_def unwind_clean fun_upd_idem)
  then show "\<exists>t. disconnect c (connect w c m) = Ok t \<and> sans_height t = sans_height m"
    by (simp add: sans_height_def)
next
  fix c and s t :: "'k mem_wallet"
  assume "sans_height s = sans_height t"
  then show "map_res sans_height (disconnect c s) = map_res sans_height (disconnect c t)"
    using sans_height_eq [of s t] disconnect_height by metis
qed

section \<open>Properties\<close>

text \<open>
  C2: Following the chain. Whatever orders the runtime chooses for the loops over the address
  map, connecting a block changes the wallet's coins exactly as the ledger does: transaction by
  transaction the outputs that pay to an address of the wallet are added, coinbase outputs with
  their maturity height, and the outputs that are spent are taken away.
\<close>

theorem connect_block_ledger:
  assumes "scan_orders m ord"
  shows "coins (applyUpdate w ord b m) = ledgerBlock w (addrs m) (net m) b (coins m)
    \<and> currentHeight (applyUpdate w ord b m) = blockHeight b"
  using applyUpdate_coins [OF assms] by (simp add: applyUpdate_frame)

text \<open>
  C1: A reorganisation is undone. Connect any number of blocks and disconnect them again, the
  last one first: if every block is clean for the wallet and new to the journal, no call
  panics, and the wallet's outputs (with their locks), its journal and everything else are as
  before, but for the synced height.
\<close>

theorem reorg_restores_wallet:
  assumes "ok_seq (connect w) (good_connection w) cs m"
  shows "\<exists>m'. undo_seq disconnect (rev cs) (apply_seq (connect w) cs m) = Ok m'
    \<and> sans_height m' = sans_height m"
  using journal.undo_rev_apply [OF assms] .

lemma disconnect_height_same: "disconnect c m = Ok m' \<Longrightarrow> currentHeight m' = currentHeight m"
  by (auto simp: disconnect_def unwindHeight_def split: option.splits)

lemma undo_seq_height:
  "undo_seq disconnect cs m = Ok m' \<Longrightarrow> currentHeight m' = currentHeight m"
  by (induction cs arbitrary: m) (auto dest: disconnect_height_same split: res.splits)

lemma apply_seq_height:
  "cs \<noteq> [] \<Longrightarrow> currentHeight (apply_seq (connect w) cs m) = blockHeight (connBlock (last cs))"
proof (induction cs arbitrary: m)
  case Nil
  then show ?case by simp
next
  case (Cons c cs)
  then show ?case by (cases cs) (simp_all add: connect_def applyUpdate_frame)
qed

text \<open>
  Disconnecting blocks does not take the synced height back: after a reorganisation the
  wallet still reports, and judges maturity by, the height of the last block that was
  connected, although that block and its ancestors are gone.
\<close>

lemma reorg_keeps_height:
  assumes "cs \<noteq> []" "undo_seq disconnect ds (apply_seq (connect w) cs m) = Ok m'"
  shows "SyncedHeight m' = blockHeight (connBlock (last cs))"
  using undo_seq_height [OF assms(2)] apply_seq_height [OF assms(1), of w m]
  by (simp add: SyncedHeight_def)

lemma processTxns_append:
  "processTxns w ord n (xs @ ys) mu = processTxns w ord (n + length xs) ys (processTxns w ord n xs mu)"
  by (induction xs arbitrary: n mu) (simp_all add: Let_def)

text \<open>An outpoint is tracked while it is an output of the wallet or in the undo entry.\<close>

definition tracked :: "outpoint \<Rightarrow> 'k mem_wallet \<times> undo_entry \<Rightarrow> bool" where
  "tracked p mu \<longleftrightarrow> utxos (fst mu) p \<noteq> None \<or> utxosDestroyed (snd mu) p \<noteq> None"

lemma evalOutputs_dom:
  assumes "\<forall>i. is_order (ord i) (addrs (fst mu))"
  shows "dom (utxos (fst (evalOutputs ord i ts h cb mu))) =
    dom (utxos (fst mu)) \<union> paidPoints (addrs (fst mu)) h i ts"
proof -
  have "dom (coins (fst (evalOutputs ord i ts h cb mu))) =
      dom (coins (fst mu)) \<union> paidPoints (addrs (fst mu)) h i ts"
    using evalOutputs_coins [of ord "fst mu" i ts h cb "snd mu"] assms
    by (simp add: dom_map_of_conv_image_fst paidOutputs_points Un_commute)
  then show ?thesis by (simp add: coins_def dom_def)
qed

lemma tracked_evalInputs: "tracked p mu \<Longrightarrow> tracked p (evalInputs ins mu)"
  by (cases mu) (auto simp: tracked_def evalInputs_closed restrict_map_def map_add_def
      split: option.splits)

lemma tracked_tx:
  assumes "scan_orders (fst mu) ord"
  shows "tracked p mu \<or> p \<in> paidPoints (addrs (fst mu)) (TxHash w tx) 0 (TxOut tx) \<Longrightarrow>
    tracked p (processTxns w ord n [tx] mu)"
proof -
  let ?mu1 = "evalOutputs (ord n) 0 (TxOut tx) (TxHash w tx) (IsCoinBaseTx w tx noTreasury) mu"
  assume "tracked p mu \<or> p \<in> paidPoints (addrs (fst mu)) (TxHash w tx) 0 (TxOut tx)"
  moreover have "dom (utxos (fst ?mu1)) =
      dom (utxos (fst mu)) \<union> paidPoints (addrs (fst mu)) (TxHash w tx) 0 (TxOut tx)"
    by (rule evalOutputs_dom) (use assms in \<open>simp add: scan_orders_def\<close>)
  ultimately have "tracked p ?mu1"
    by (auto simp: tracked_def evalOutputs_destroyed dom_def)
  then show ?thesis by (simp add: Let_def tracked_evalInputs)
qed

lemma processTxns_addrs: "addrs (fst (processTxns w ord n txs mu)) = addrs (fst mu)"
  by (rule only_utxosD [OF processTxns_only])

lemma tracked_txns:
  "scan_orders (fst mu) ord \<Longrightarrow> tracked p mu \<Longrightarrow> tracked p (processTxns w ord n txs mu)"
proof (induction txs arbitrary: n mu)
  case Nil
  then show ?case by simp
next
  case (Cons tx txs)
  let ?mu = "processTxns w ord n [tx] mu"
  have "scan_orders (fst ?mu) ord"
    using Cons.prems(1) by (simp add: scan_orders_def processTxns_addrs del: processTxns.simps)
  moreover have "tracked p ?mu" using tracked_tx [OF Cons.prems(1)] Cons.prems(2) by blast
  ultimately have "tracked p (processTxns w ord (Suc n) txs ?mu)" by (rule Cons.IH)
  then show ?case by (simp add: Let_def)
qed

lemma spent_destroyed:
  assumes "tracked p mu" "p \<in> spends tx"
  shows "utxosDestroyed (snd (evalInputs (TxIn tx) mu)) p \<noteq> None"
  using assms
  by (cases mu) (auto simp: tracked_def spends_def evalInputs_closed map_add_def restrict_map_def
      split: option.splits)

lemma paid_then_spent_destroyed:
  assumes "scan_orders m ord" "filteredTxns b = pre @ tx # mid @ tx' # post"
    and "p \<in> paidPoints (addrs m) (TxHash w tx) 0 (TxOut tx)" "p \<in> spends tx'"
  shows "utxosDestroyed (blockUndo w ord b m) p \<noteq> None"
proof -
  let ?m1 = "(m\<lparr>currentHeight := blockHeight b\<rparr>, emptyUndo)"
  let ?mu1 = "processTxns w ord 0 pre ?m1"
  let ?n = "length pre"
  let ?mu2 = "processTxns w ord ?n [tx] ?mu1"
  let ?mu3 = "processTxns w ord (Suc ?n) mid ?mu2"
  let ?k = "Suc ?n + length mid"
  let ?mu4 = "evalOutputs (ord ?k) 0 (TxOut tx') (TxHash w tx') (IsCoinBaseTx w tx' noTreasury) ?mu3"
  note simps = scan_orders_def processTxns_addrs
  have o1: "scan_orders (fst ?mu1) ord" and o2: "scan_orders (fst ?mu2) ord"
    and o3: "scan_orders (fst ?mu3) ord"
    using assms(1) by (simp_all add: simps del: processTxns.simps)
  have "tracked p ?mu2"
    using tracked_tx [OF o1] assms(3) by (simp add: processTxns_addrs del: processTxns.simps)
  then have "tracked p ?mu3" by (rule tracked_txns [OF o2])
  moreover have "dom (utxos (fst ?mu3)) \<subseteq> dom (utxos (fst ?mu4))"
    by (subst evalOutputs_dom) (use o3 in \<open>auto simp: scan_orders_def\<close>)
  ultimately have "tracked p ?mu4"
    by (auto simp: tracked_def evalOutputs_destroyed dom_def)
  then have "utxosDestroyed (snd (evalInputs (TxIn tx') ?mu4)) p \<noteq> None"
    using assms(4) by (rule spent_destroyed)
  then have "utxosDestroyed (snd (processTxns w ord (Suc ?k) post (evalInputs (TxIn tx') ?mu4))) p \<noteq> None"
    by (rule destroyed_mono)
  moreover have "processTxns w ord 0 (filteredTxns b) ?m1 =
      processTxns w ord (Suc ?k) post (evalInputs (TxIn tx') ?mu4)"
    by (simp add: assms(2) processTxns_append Let_def add.assoc)
  ultimately show ?thesis by (simp add: blockUndo_def)
qed

text \<open>
  C29: A coin that is paid to the wallet and spent within one block comes back to life when the
  block is disconnected: it was not in the wallet before the block, and after the block is
  undone the wallet holds it, although the transaction that created it is gone.
\<close>

theorem unwind_resurrects_spent_coin:
  assumes "scan_orders m ord" "filteredTxns b = pre @ tx # mid @ tx' # post"
    and "p \<in> paidPoints (addrs m) (TxHash w tx) 0 (TxOut tx)" "p \<in> spends tx'"
    and "utxos m p = None"
    and "is_order ds (utxosDestroyed (blockUndo w ord b m))"
  shows "\<exists>m'. unwindHeight ds (blockHeight b) (applyUpdate w ord b m) = Ok m'
    \<and> utxos m' p \<noteq> utxos m p"
  using unwind_after_apply [OF assms(1,6)] paid_then_spent_destroyed [OF assms(1-4)] assms(5)
  by (auto simp: map_add_def split: option.splits)

text \<open>
  Disconnecting a block whose update the wallet has not applied, for instance because it
  is still waiting in the queue, panics: there is no undo entry to read.
\<close>

lemma unwind_unknown_block_panics:
  assumes "HeaderFromBytes w header = Inr hdr" "reorgJournal m (uint (hdrHeight hdr)) = None"
    and "IngestBlock w header txns m = Ok m'"
  shows "UnwindBlock w ds header m' = Panic NilDeref"
  using assms by (auto simp: IngestBlock_def UnwindBlock_def unwindHeight_def enqueueUpdate_def
      split: sum.splits)

section \<open>Witnesses\<close>

lemma demo_scan_orders: "scan_orders demo_wallet (\<lambda>_ _. [0])"
  by (simp add: scan_orders_def is_order_def demo_wallet_def)

definition demo_block :: chain_update where
  "demo_block = \<lparr>blockHeight = 101, filteredTxns = [demo_tx [demo_point 1] 7]\<rparr>"

definition demo_connection :: connection where
  "demo_connection =
     \<lparr>scanOrd = (\<lambda>_ _. [0]), restoreOrd = [demo_point 1], connBlock = demo_block\<rparr>"

lemma demo_good: "good_connection demo_wire demo_connection demo_wallet"
  by (simp add: good_connection_def demo_connection_def demo_scan_orders)
     (simp add: demo_block_def clean_block_def blockPays_def pays_def spends_def blockUndo_def
        is_order_def Let_def demo_defs demo_wire_def demo_tx_bytes_def emptyUndo_def noTreasury_def)

theorem connect_block_ledger_witness:
  "scan_orders demo_wallet (\<lambda>_ _. [0]) \<and>
   coins (applyUpdate demo_wire (\<lambda>_ _. [0]) demo_block demo_wallet) =
     ledgerBlock demo_wire (addrs demo_wallet) (net demo_wallet) demo_block (coins demo_wallet)"
  using connect_block_ledger [OF demo_scan_orders, of demo_wire demo_block] demo_scan_orders
  by blast

theorem reorg_restores_wallet_witness:
  "\<exists>m'. undo_seq disconnect [demo_connection]
          (apply_seq (connect demo_wire) [demo_connection] demo_wallet) = Ok m'
    \<and> sans_height m' = sans_height demo_wallet"
  using reorg_restores_wallet [of demo_wire "[demo_connection]" demo_wallet] demo_good by simp

definition demo_point0 :: outpoint where
  "demo_point0 = OutPoint [118, 2, 1, 0] 0 0"

definition demo_block2 :: chain_update where
  "demo_block2 = \<lparr>blockHeight = 101, filteredTxns = [demo_tx [] 7, demo_tx [demo_point0] 7]\<rparr>"

theorem unwind_resurrects_spent_coin_witness:
  "utxos demo_wallet demo_point0 = None \<and>
   (\<exists>m'. unwindHeight [demo_point0] 101 (applyUpdate demo_wire (\<lambda>_ _. [0]) demo_block2 demo_wallet) = Ok m'
     \<and> utxos m' demo_point0 \<noteq> None)"
proof -
  have b: "filteredTxns demo_block2 = [] @ demo_tx [] 7 # [] @ demo_tx [demo_point0] 7 # []"
    "blockHeight demo_block2 = 101"
    by (simp_all add: demo_block2_def)
  have p: "demo_point0 \<in> paidPoints (addrs demo_wallet) (TxHash demo_wire (demo_tx [] 7)) 0
      (TxOut (demo_tx [] 7))"
    by (simp add: demo_defs demo_wire_def demo_tx_bytes_def demo_point0_def pays_def)
  have s: "demo_point0 \<in> spends (demo_tx [demo_point0] 7)"
    by (simp add: spends_def demo_tx_def)
  have n: "utxos demo_wallet demo_point0 = None"
    by (simp add: demo_defs demo_point0_def)
  have d: "is_order [demo_point0] (utxosDestroyed (blockUndo demo_wire (\<lambda>_ _. [0]) demo_block2 demo_wallet))"
    by (simp add: demo_block2_def blockUndo_def is_order_def Let_def demo_defs demo_wire_def
        demo_tx_bytes_def emptyUndo_def noTreasury_def demo_point0_def)
  from unwind_resurrects_spent_coin [OF demo_scan_orders b(1) p s n d] n b(2) show ?thesis by simp
qed

end
