(* ===== verification/WalletSpend.thy ===== *)
theory WalletSpend
  imports MemWallet
begin

text \<open>
  Spending: coin selection against a reference selection, conservation of value, the locks that
  keep two transactions from spending one coin, and the balance.
\<close>

section \<open>Addresses\<close>

lemma newAddress_frame:
  assumes "newAddress K lf m = (r, m')"
  shows "utxos m' = utxos m" "currentHeight m' = currentHeight m" "hdRoot m' = hdRoot m"
    "reorgJournal m' = reorgJournal m" "chainUpdates m' = chainUpdates m" "net m' = net m"
    "quitClosed m' = quitClosed m" "wg m' = wg m" "rpc m' = rpc m"
  using assms by (auto simp: newAddress_def Let_def split: sum.splits option.splits)

lemma newAddress_notOk:
  assumes "newAddress K lf m = (r, m')" "\<not> is_ok r"
  shows "addrs m' = addrs m" "hdIndex m' = hdIndex m"
  using assms by (auto simp: newAddress_def Let_def split: sum.splits option.splits)

text \<open>The address of the wallet's key number \<open>k\<close>.\<close>

definition keyAddr :: "'k key_api \<Rightarrow> 'k \<Rightarrow> u32 \<Rightarrow> address ext" where
  "keyAddr K root k =
     (case Child K root k of Inl e \<Rightarrow> Inl e
      | Inr ck \<Rightarrow> (case SerializedPrivKey K ck of Inl e \<Rightarrow> Inl e | Inr priv \<Rightarrow> keyToAddr K priv))"

lemma newAddress_OkD:
  assumes "newAddress K lf m = (Ok addr, m')"
  shows "keyAddr K (hdRoot m) (hdIndex m) = Inr addr" "lf addr = None" "rpc m \<noteq> None"
    "m' = m\<lparr>addrs := (addrs m)(hdIndex m \<mapsto> addr), hdIndex := hdIndex m + 1,
            rpcLog := rpcLog m @ [LoadTxFilter addr]\<rparr>"
  using assms
  by (auto simp: newAddress_def keyAddr_def Let_def split: sum.splits option.splits)

section \<open>Coin selection against a reference\<close>

definition spendableAt :: "'k mem_wallet \<Rightarrow> outpoint \<Rightarrow> bool" where
  "spendableAt m op = (case utxos m op of None \<Rightarrow> False
     | Some u \<Rightarrow> maturityHeight u \<le> currentHeight m \<and> \<not> isLocked u)"

lemma spendableAt_iff:
  "spendableAt m op = (case utxos m op of None \<Rightarrow> False | Some u \<Rightarrow> isSpendable (currentHeight m) u)"
  by (simp add: spendableAt_def isSpendable_def isMature_def split: option.split)

definition valueAt :: "'k mem_wallet \<Rightarrow> outpoint \<Rightarrow> int" where
  "valueAt m op = (case utxos m op of None \<Rightarrow> 0 | Some u \<Rightarrow> val u)"

definition coinInput :: "'k mem_wallet \<Rightarrow> outpoint \<Rightarrow> txin" where
  "coinInput m op = \<lparr>PreviousOutPoint = op, ValueIn = valueAt m op, SignatureScript = []\<rparr>"

definition withInputs :: "'k mem_wallet \<Rightarrow> msgtx \<Rightarrow> outpoint list \<Rightarrow> msgtx" where
  "withInputs m tx cs = tx\<lparr>TxIn := TxIn tx @ map (coinInput m) cs\<rparr>"

definition selected :: "'k mem_wallet \<Rightarrow> outpoint list \<Rightarrow> int" where
  "selected m cs = i64 (sum_list (map (valueAt m) cs))"

definition feeFor :: "wire_api \<Rightarrow> int \<Rightarrow> 'k mem_wallet \<Rightarrow> msgtx \<Rightarrow> outpoint list \<Rightarrow> int" where
  "feeFor w feeRate m tx cs = requiredFee w (withInputs m tx cs) feeRate"

text \<open>The coins \<open>cs\<close> pay for the amount and for the fee of spending them.\<close>

definition enough :: "wire_api \<Rightarrow> int \<Rightarrow> int \<Rightarrow> 'k mem_wallet \<Rightarrow> msgtx \<Rightarrow> outpoint list \<Rightarrow> bool" where
  "enough w amt feeRate m tx cs \<longleftrightarrow> i64 (selected m cs - feeFor w feeRate m tx cs) \<ge> amt"

definition changeFor :: "wire_api \<Rightarrow> int \<Rightarrow> int \<Rightarrow> 'k mem_wallet \<Rightarrow> msgtx \<Rightarrow> outpoint list \<Rightarrow> int" where
  "changeFor w amt feeRate m tx cs =
     i64 (i64 (selected m cs - amt) - feeFor w feeRate m tx cs)"

text \<open>What happens once the coins \<open>cs\<close> are chosen.\<close>

definition finish :: "wire_api \<Rightarrow> 'k key_api \<Rightarrow> (address \<Rightarrow> goerr option) \<Rightarrow> int \<Rightarrow> int \<Rightarrow>
    'k mem_wallet \<Rightarrow> msgtx \<Rightarrow> outpoint list \<Rightarrow> msgtx res \<times> 'k mem_wallet" where
  "finish w K lf amt feeRate m tx cs =
     (let change = changeFor w amt feeRate m tx cs; tx' = withInputs m tx cs in
      if change > 0 then
        (case newAddress K lf m of
           (Ok addr, m') \<Rightarrow>
             (Ok (tx'\<lparr>TxOut := TxOut tx' @ [\<lparr>Value = change,
                 outVersion = fst (PaymentScript addr), PkScript = snd (PaymentScript addr)\<rparr>]\<rparr>), m')
         | (Err e, m') \<Rightarrow> (Err e, m') | (Panic p, m') \<Rightarrow> (Panic p, m') | (Blocked, m') \<Rightarrow> (Blocked, m'))
      else (Ok tx', m))"

text \<open>The reference: the shortest prefix of the spendable outputs that is enough.\<close>

fun firstEnough :: "('a list \<Rightarrow> bool) \<Rightarrow> 'a list \<Rightarrow> 'a list \<Rightarrow> 'a list option" where
  "firstEnough P taken [] = None"
| "firstEnough P taken (c # cs) =
     (if P (taken @ [c]) then Some (taken @ [c]) else firstEnough P (taken @ [c]) cs)"

lemma firstEnough_Some:
  "firstEnough P taken cs = Some sel \<Longrightarrow>
   \<exists>n < length cs. sel = taken @ take (Suc n) cs \<and> P sel
     \<and> (\<forall>k < n. \<not> P (taken @ take (Suc k) cs))"
proof (induction cs arbitrary: taken)
  case Nil
  then show ?case by simp
next
  case (Cons c cs)
  show ?case
  proof (cases "P (taken @ [c])")
    case True
    with Cons.prems show ?thesis by (intro exI [of _ 0]) simp
  next
    case False
    with Cons.prems have "firstEnough P (taken @ [c]) cs = Some sel" by simp
    from Cons.IH [OF this] obtain n where "n < length cs"
      "sel = (taken @ [c]) @ take (Suc n) cs" "P sel"
      "\<forall>k < n. \<not> P ((taken @ [c]) @ take (Suc k) cs)"
      by blast
    with False show ?thesis by (intro exI [of _ "Suc n"]) (simp add: All_less_Suc2)
  qed
qed

lemma firstEnough_None:
  "firstEnough P taken cs = None \<longleftrightarrow> (\<forall>n < length cs. \<not> P (taken @ take (Suc n) cs))"
  by (induction cs arbitrary: taken) (simp_all add: All_less_Suc2)

lemma fundLoop_reference:
  assumes "wire_ok w"
  shows "fundLoop w K lf amt feeRate ks (selected m taken) (withInputs m tx taken) m =
    (case firstEnough (enough w amt feeRate m tx) taken (filter (spendableAt m) ks) of
       None \<Rightarrow> (Err notEnoughFunds, m)
     | Some cs \<Rightarrow> finish w K lf amt feeRate m tx cs)"
proof (induction ks arbitrary: taken)
  case Nil
  then show ?case by simp
next
  case (Cons p ks)
  show ?case
  proof (cases "spendableAt m p")
    case False
    then show ?thesis using Cons by (simp add: spendableAt_iff split: option.splits)
  next
    case True
    then obtain u where u: "utxos m p = Some u" "isSpendable (currentHeight m) u"
      by (auto simp: spendableAt_iff split: option.splits)
    have sel: "i64 (selected m taken + val u) = selected m (taken @ [p])"
      using u by (simp add: selected_def valueAt_def i64_add_left i64_add_right add.commute)
    have tx: "AddTxIn w (withInputs m tx taken) (NewTxIn w p (val u) []) =
        withInputs m tx (taken @ [p])"
      using u by (simp add: wire_okD [OF assms] withInputs_def coinInput_def valueAt_def)
    show ?thesis
      using True u Cons.IH [of "taken @ [p]"]
      by (simp add: sel tx Let_def enough_def feeFor_def finish_def changeFor_def
          wire_okD(4) [OF assms] case_prod_beta not_le [symmetric] split: res.splits)
  qed
qed

lemma fundTx_reference:
  assumes "wire_ok w"
  shows "fundTx w K lf ks tx amt feeRate m =
    (case firstEnough (enough w amt feeRate m tx) [] (filter (spendableAt m) ks) of
       None \<Rightarrow> (Err notEnoughFunds, m)
     | Some cs \<Rightarrow> finish w K lf amt feeRate m tx cs)"
  using fundLoop_reference [OF assms, of K lf amt feeRate ks m "[]" tx]
  by (simp add: fundTx_def selected_def withInputs_def)

section \<open>The loops of CreateTransaction\<close>

definition unsigned :: "txin \<Rightarrow> txin" where
  "unsigned i = i\<lparr>SignatureScript := []\<rparr>"

lemma unsigned_simps [simp]:
  "PreviousOutPoint (unsigned i) = PreviousOutPoint i" "ValueIn (unsigned i) = ValueIn i"
  "unsigned (i\<lparr>SignatureScript := s\<rparr>) = unsigned i"
  "unsigned (coinInput m p) = coinInput m p"
  by (simp_all add: unsigned_def coinInput_def)

lemma tallyOutputs_closed:
  assumes "wire_ok w"
  shows "tallyOutputs w outs amt tx =
    (if outs = [] then amt else i64 (amt + sum_list (map Value outs)), tx\<lparr>TxOut := TxOut tx @ outs\<rparr>)"
proof (induction outs arbitrary: amt tx)
  case Nil
  then show ?case by simp
next
  case (Cons t outs)
  then show ?case
    by (auto simp: wire_okD [OF assms] i64_add_left add.assoc)
qed

lemma setLocked_closed [map_loops]:
  "setLocked b ps us =
     (\<lambda>p. if p \<in> set ps then map_option (\<lambda>u. u\<lparr>isLocked := b\<rparr>) (us p) else us p)"
proof (induction ps arbitrary: us)
  case Nil
  then show ?case by simp
next
  case (Cons q ps)
  have "map_option (\<lambda>u. u\<lparr>isLocked := b\<rparr>) (map_option (\<lambda>u. u\<lparr>isLocked := b\<rparr>) (us p)) =
      map_option (\<lambda>u. u\<lparr>isLocked := b\<rparr>) (us p)" for p
    by (cases "us p") simp_all
  then show ?case
    by (cases "us q") (auto simp: Cons.IH fun_eq_iff)
qed

text \<open>Signing keeps everything but the signature scripts of the inputs it visits.\<close>

lemma signInputs_Ok:
  assumes "signInputs K m i ins tx spent = Ok (tx', spent')"
  shows "spent' = spent @ map PreviousOutPoint ins" "TxOut tx' = TxOut tx"
    "msgVersion tx' = msgVersion tx" "map unsigned (TxIn tx') = map unsigned (TxIn tx)"
    "\<And>j. j < i \<Longrightarrow> TxIn tx' ! j = TxIn tx ! j"
    "\<And>n. n < length ins \<Longrightarrow> utxos m (PreviousOutPoint (ins ! n)) \<noteq> None"
  using assms
proof (induction K m i ins tx spent rule: signInputs.induct)
  case (1 K m i tx spent)
  { case 1 then show ?case by simp
  next case 2 then show ?case by simp
  next case 3 then show ?case by simp
  next case 4 then show ?case by simp
  next case 5 then show ?case by simp
  next case 6 then show ?case by simp }
next
  case (2 K m i a ins tx spent)
  { case 1 then show ?case
      using "2.IH"(1) by (simp add: Let_def split: option.splits sum.splits)
  next case 2 then show ?case
      using "2.IH"(2) by (simp add: Let_def split: option.splits sum.splits)
  next case 3 then show ?case
      using "2.IH"(3) by (simp add: Let_def split: option.splits sum.splits)
  next case 4 then show ?case
      using "2.IH"(4) by (simp add: Let_def map_update split: option.splits sum.splits)
        (metis list_update_id unsigned_simps(3) map_update)
  next case (5 j) then show ?case
      using "2.IH"(5) by (simp add: Let_def split: option.splits sum.splits)
  next case (6 n) then show ?case
      using "2.IH"(6) by (cases n) (auto simp add: Let_def split: option.splits sum.splits) }
qed

lemma requiredFee_in64 [simp]: "in64 (requiredFee w tx feeRate)"
  by (simp add: requiredFee_def Let_def)

section \<open>What a created transaction is made of\<close>

text \<open>The result of \<open>CreateTransaction\<close>, in terms of the coins chosen.\<close>

definition baseTx :: "wire_api \<Rightarrow> txout list \<Rightarrow> msgtx" where
  "baseTx w outputs = (NewMsgTx w)\<lparr>TxOut := outputs\<rparr>"

definition outputAmount :: "txout list \<Rightarrow> int" where
  "outputAmount outputs = (if outputs = [] then 0 else i64 (sum_list (map Value outputs)))"

lemma finish_Ok:
  assumes "finish w K lf amt feeRate m tx cs = (Ok tx', m')"
  shows "TxIn tx' = TxIn tx @ map (coinInput m) cs"
    "utxos m' = utxos m" "hdRoot m' = hdRoot m" "currentHeight m' = currentHeight m"
    "(changeFor w amt feeRate m tx cs \<le> 0 \<and> TxOut tx' = TxOut tx \<and> m' = m) \<or>
     (changeFor w amt feeRate m tx cs > 0 \<and> (\<exists>addr. newAddress K lf m = (Ok addr, m') \<and>
        TxOut tx' = TxOut tx @ [\<lparr>Value = changeFor w amt feeRate m tx cs,
          outVersion = fst (PaymentScript addr), PkScript = snd (PaymentScript addr)\<rparr>]))"
  using assms newAddress_frame
  by (auto simp: finish_def Let_def withInputs_def split: if_splits prod.splits res.splits)

lemma CreateTransaction_OkE:
  assumes "wire_ok w" "CreateTransaction w K lf ks outputs feeRate m = (Ok tx, m')"
  obtains cs tx1 m1 where
    "firstEnough (enough w (outputAmount outputs) feeRate m (baseTx w outputs)) []
       (filter (spendableAt m) ks) = Some cs"
    "finish w K lf (outputAmount outputs) feeRate m (baseTx w outputs) cs = (Ok tx1, m1)"
    "signInputs K m1 0 (TxIn tx1) tx1 [] = Ok (tx, cs)"
    "TxIn tx1 = map (coinInput m) cs"
    "m' = m1\<lparr>utxos := setLocked True cs (utxos m1)\<rparr>"
proof -
  have t: "tallyOutputs w outputs 0 (NewMsgTx w) = (outputAmount outputs, baseTx w outputs)"
    by (simp add: tallyOutputs_closed [OF assms(1)] outputAmount_def baseTx_def wire_okD [OF assms(1)])
  obtain tx1 m1 spent where
    f: "fundTx w K lf ks (baseTx w outputs) (outputAmount outputs) feeRate m = (Ok tx1, m1)" and
    s: "signInputs K m1 0 (TxIn tx1) tx1 [] = Ok (tx, spent)" and
    m': "m' = m1\<lparr>utxos := setLocked True spent (utxos m1)\<rparr>"
    using assms(2) by (auto simp: CreateTransaction_def t split: prod.splits res.splits)
  from f obtain cs where
    c: "firstEnough (enough w (outputAmount outputs) feeRate m (baseTx w outputs)) []
       (filter (spendableAt m) ks) = Some cs" and
    fin: "finish w K lf (outputAmount outputs) feeRate m (baseTx w outputs) cs = (Ok tx1, m1)"
    by (auto simp: fundTx_reference [OF assms(1)] split: option.splits)
  have ins: "TxIn tx1 = map (coinInput m) cs"
    using finish_Ok(1) [OF fin] by (simp add: baseTx_def wire_okD [OF assms(1)])
  have "spent = cs" using signInputs_Ok(1) [OF s] by (simp add: ins coinInput_def o_def)
  with c fin s ins m' that show thesis by blast
qed

text \<open>The inputs: coins of the wallet, each once, mature and unlocked.\<close>

definition inputPoints :: "msgtx \<Rightarrow> outpoint list" where
  "inputPoints tx = map PreviousOutPoint (TxIn tx)"

lemma inputPoints_unsigned:
  "map unsigned (TxIn tx) = map unsigned (TxIn tx1) \<Longrightarrow> inputPoints tx = inputPoints tx1"
  unfolding inputPoints_def
  by (metis (mono_tags, lifting) list.map_comp map_eq_conv o_def unsigned_simps(1))

lemma ValueIn_unsigned:
  "map unsigned (TxIn tx) = map unsigned (TxIn tx1) \<Longrightarrow>
   map ValueIn (TxIn tx) = map ValueIn (TxIn tx1)"
  by (metis (mono_tags, lifting) list.map_comp map_eq_conv o_def unsigned_simps(2))

lemma created_inputs:
  assumes "wire_ok w" "is_order ks (utxos m)"
    and "CreateTransaction w K lf ks outputs feeRate m = (Ok tx, m')"
  shows "inputPoints tx \<noteq> []" "distinct (inputPoints tx)"
    "\<forall>p \<in> set (inputPoints tx). spendableAt m p"
    "map ValueIn (TxIn tx) = map (valueAt m) (inputPoints tx)"
    "utxos m' = setLocked True (inputPoints tx) (utxos m)"
    "currentHeight m' = currentHeight m"
proof -
  from assms(1,3) obtain cs tx1 m1 where
    c: "firstEnough (enough w (outputAmount outputs) feeRate m (baseTx w outputs)) []
       (filter (spendableAt m) ks) = Some cs" and
    fin: "finish w K lf (outputAmount outputs) feeRate m (baseTx w outputs) cs = (Ok tx1, m1)" and
    s: "signInputs K m1 0 (TxIn tx1) tx1 [] = Ok (tx, cs)" and
    ins: "TxIn tx1 = map (coinInput m) cs" and
    m': "m' = m1\<lparr>utxos := setLocked True cs (utxos m1)\<rparr>"
    by (rule CreateTransaction_OkE)
  note u = signInputs_Ok(4) [OF s]
  have pts: "inputPoints tx = cs"
    using inputPoints_unsigned [OF u] by (simp add: inputPoints_def ins coinInput_def o_def)
  from firstEnough_Some [OF c] obtain n where n: "n < length (filter (spendableAt m) ks)"
    "cs = take (Suc n) (filter (spendableAt m) ks)" by auto
  show "inputPoints tx \<noteq> []" using n by (auto simp: pts)
  show "distinct (inputPoints tx)"
    using n is_orderD(1) [OF assms(2)] by (simp add: pts)
  show "\<forall>p \<in> set (inputPoints tx). spendableAt m p"
    using n set_take_subset [of "Suc n" "filter (spendableAt m) ks"] by (auto simp: pts)
  show "map ValueIn (TxIn tx) = map (valueAt m) (inputPoints tx)"
    using ValueIn_unsigned [OF u] by (simp add: pts ins coinInput_def o_def)
  show "utxos m' = setLocked True (inputPoints tx) (utxos m)"
    using finish_Ok(2) [OF fin] by (simp add: m' pts)
  show "currentHeight m' = currentHeight m"
    using finish_Ok(4) [OF fin] by (simp add: m')
qed

section \<open>Signatures\<close>

text \<open>
  Input number \<open>n\<close> carries the signature made with the key whose index the spent coin records,
  over a transaction that differs from the final one in signature scripts only.
\<close>

definition signedBy :: "'k key_api \<Rightarrow> 'k mem_wallet \<Rightarrow> msgtx \<Rightarrow> nat \<Rightarrow> bool" where
  "signedBy K m tx n \<longleftrightarrow>
     (\<exists>u k priv txi. utxos m (PreviousOutPoint (TxIn tx ! n)) = Some u \<and>
        Child K (hdRoot m) (keyIndex u) = Inr k \<and> SerializedPrivKey K k = Inr priv \<and>
        SignScript K txi n (pkScript u) priv = Inr (SignatureScript (TxIn tx ! n)) \<and>
        TxOut txi = TxOut tx \<and> map unsigned (TxIn txi) = map unsigned (TxIn tx))"

lemma signInputs_signed:
  assumes "signInputs K m i ins tx spent = Ok (tx', spent')"
    and "i + length ins \<le> length (TxIn tx)"
    and "map PreviousOutPoint (take (length ins) (drop i (TxIn tx))) = map PreviousOutPoint ins"
    and "i \<le> n" "n < i + length ins"
  shows "signedBy K m tx' n"
  using assms
proof (induction K m i ins tx spent rule: signInputs.induct)
  case (1 K m i tx spent)
  then show ?case by simp
next
  case (2 K m i a ins tx spent)
  from "2.prems"(1) obtain u k priv s where
    u: "utxos m (PreviousOutPoint a) = Some u" and k: "Child K (hdRoot m) (keyIndex u) = Inr k" and
    priv: "SerializedPrivKey K k = Inr priv" and
    s: "SignScript K tx i (pkScript u) priv = Inr s"
    by (auto simp: Let_def split: option.splits sum.splits)
  let ?tx = "tx\<lparr>TxIn := (TxIn tx)[i := (TxIn tx ! i)\<lparr>SignatureScript := s\<rparr>]\<rparr>"
  have rest: "signInputs K m (Suc i) ins ?tx (spent @ [PreviousOutPoint a]) = Ok (tx', spent')"
    using "2.prems"(1) by (simp add: Let_def u k priv s)
  have i: "i < length (TxIn tx)" using "2.prems"(2) by simp
  have pa: "PreviousOutPoint (TxIn tx ! i) = PreviousOutPoint a"
    using "2.prems"(3) i by (simp add: Cons_nth_drop_Suc [symmetric])
  have pre: "map PreviousOutPoint (take (length ins) (drop (Suc i) (TxIn tx))) = map PreviousOutPoint ins"
    using "2.prems"(3) i by (simp add: Cons_nth_drop_Suc [symmetric])
  note same = signInputs_Ok [OF rest]
  show ?case
  proof (cases "n = i")
    case True
    have "TxIn tx' ! i = TxIn ?tx ! i" using same(5) [of i] by simp
    then have at: "TxIn tx' ! n = (TxIn tx ! i)\<lparr>SignatureScript := s\<rparr>" using i True by simp
    have "map unsigned (TxIn tx) = map unsigned (TxIn ?tx)"
      by (simp add: map_update) (metis list_update_id map_update unsigned_simps(3))
    then have "map unsigned (TxIn tx) = map unsigned (TxIn tx')" using same(4) by simp
    moreover have "TxOut tx = TxOut tx'" using same(2) by simp
    ultimately show ?thesis
      unfolding signedBy_def using u k priv s at pa True
      by (intro exI [of _ u] exI [of _ k] exI [of _ priv] exI [of _ tx]) simp
  next
    case False
    show ?thesis
    proof (rule "2.IH" [OF refl u k priv s rest])
      show "Suc i + length ins \<le> length (TxIn ?tx)" using "2.prems"(2) by simp
      show "map PreviousOutPoint (take (length ins) (drop (Suc i) (TxIn ?tx))) =
          map PreviousOutPoint ins"
        using pre by simp
      show "Suc i \<le> n" "n < Suc i + length ins" using False "2.prems"(4,5) by simp_all
    qed
  qed
qed

section \<open>The balance\<close>

definition spendableValue :: "'k mem_wallet \<Rightarrow> outpoint \<Rightarrow> int" where
  "spendableValue m p = (if spendableAt m p then valueAt m p else 0)"

lemma balanceLoop_closed:
  "in64 b \<Longrightarrow> balanceLoop m ks b = i64 (b + sum_list (map (spendableValue m) ks))"
proof (induction ks arbitrary: b)
  case Nil
  then show ?case by simp
next
  case (Cons p ks)
  then show ?case
    by (auto simp: spendableValue_def spendableAt_iff valueAt_def i64_add_left add.assoc
        split: option.splits)
qed

lemma ConfirmedBalance_sum:
  assumes "is_order ks (utxos m)"
  shows "ConfirmedBalance ks m = i64 (\<Sum>p \<in> dom (utxos m). spendableValue m p)"
  by (simp add: ConfirmedBalance_def balanceLoop_closed in64_def sum_list_order [OF assms])

lemma dom_setLocked [simp]: "dom (setLocked b ps us) = dom us"
  by (auto simp: setLocked_closed split: if_splits)

lemma locked_value:
  assumes "utxos m' = setLocked True ps (utxos m)" "currentHeight m' = currentHeight m"
  shows "spendableValue m' p = (if p \<in> set ps then 0 else spendableValue m p)"
  using assms
  by (auto simp: spendableValue_def spendableAt_iff valueAt_def setLocked_closed isSpendable_def
      split: option.splits)

lemma locked_sum:
  assumes "utxos m' = setLocked True ps (utxos m)" "currentHeight m' = currentHeight m"
    and "distinct ps" "\<forall>p \<in> set ps. spendableAt m p" "finite (dom (utxos m))"
  shows "(\<Sum>p \<in> dom (utxos m'). spendableValue m' p) =
    (\<Sum>p \<in> dom (utxos m). spendableValue m p) - sum_list (map (valueAt m) ps)"
proof -
  have sub: "set ps \<subseteq> dom (utxos m)"
    using assms(4) by (auto simp: spendableAt_iff split: option.splits)
  have "(\<Sum>p \<in> dom (utxos m). spendableValue m p) =
      (\<Sum>p \<in> dom (utxos m) - set ps. spendableValue m p) + (\<Sum>p \<in> set ps. spendableValue m p)"
    using sum.subset_diff [OF sub assms(5)] .
  moreover have "(\<Sum>p \<in> set ps. spendableValue m p) = sum_list (map (valueAt m) ps)"
    using assms(3,4) by (simp add: sum_list_distinct_conv_sum_set spendableValue_def)
  moreover have "(\<Sum>p \<in> dom (utxos m'). spendableValue m' p) =
      (\<Sum>p \<in> dom (utxos m) - set ps. spendableValue m p)"
    unfolding assms(1) dom_setLocked
    by (rule sum.mono_neutral_cong_right) (use assms(5) in \<open>auto simp: locked_value [OF assms(1,2)]\<close>)
  ultimately show ?thesis by simp
qed

section \<open>Properties\<close>

lemma create_prefix:
  assumes "wire_ok w"
  shows "CreateTransaction w K lf ks outputs feeRate m = (Ok tx, m') \<Longrightarrow>
     \<exists>n < length (filter (spendableAt m) ks).
       inputPoints tx = take (Suc n) (filter (spendableAt m) ks)
       \<and> map unsigned (TxIn tx) = map (coinInput m) (inputPoints tx)
       \<and> enough w (outputAmount outputs) feeRate m (baseTx w outputs) (inputPoints tx)
       \<and> (\<forall>k < n. \<not> enough w (outputAmount outputs) feeRate m (baseTx w outputs)
                       (take (Suc k) (filter (spendableAt m) ks)))"
    and "(\<forall>n < length (filter (spendableAt m) ks).
         \<not> enough w (outputAmount outputs) feeRate m (baseTx w outputs)
              (take (Suc n) (filter (spendableAt m) ks))) \<Longrightarrow>
       CreateTransaction w K lf ks outputs feeRate m = (Err notEnoughFunds, m)"
proof -
  assume "CreateTransaction w K lf ks outputs feeRate m = (Ok tx, m')"
  with assms obtain cs tx1 m1 where
    c: "firstEnough (enough w (outputAmount outputs) feeRate m (baseTx w outputs)) []
       (filter (spendableAt m) ks) = Some cs" and
    s: "signInputs K m1 0 (TxIn tx1) tx1 [] = Ok (tx, cs)" and
    ins: "TxIn tx1 = map (coinInput m) cs"
    by (rule CreateTransaction_OkE)
  note u = signInputs_Ok(4) [OF s]
  have "inputPoints tx = cs"
    using inputPoints_unsigned [OF u] by (simp add: inputPoints_def ins coinInput_def o_def)
  moreover have "map unsigned (TxIn tx) = map (coinInput m) cs"
    using u by (simp add: ins o_def)
  ultimately show "\<exists>n < length (filter (spendableAt m) ks).
       inputPoints tx = take (Suc n) (filter (spendableAt m) ks)
       \<and> map unsigned (TxIn tx) = map (coinInput m) (inputPoints tx)
       \<and> enough w (outputAmount outputs) feeRate m (baseTx w outputs) (inputPoints tx)
       \<and> (\<forall>k < n. \<not> enough w (outputAmount outputs) feeRate m (baseTx w outputs)
                       (take (Suc k) (filter (spendableAt m) ks)))"
    using firstEnough_Some [OF c] by auto
next
  assume "\<forall>n < length (filter (spendableAt m) ks).
         \<not> enough w (outputAmount outputs) feeRate m (baseTx w outputs)
              (take (Suc n) (filter (spendableAt m) ks))"
  then have "firstEnough (enough w (outputAmount outputs) feeRate m (baseTx w outputs)) []
       (filter (spendableAt m) ks) = None"
    by (simp add: firstEnough_None)
  then show "CreateTransaction w K lf ks outputs feeRate m = (Err notEnoughFunds, m)"
    by (simp add: CreateTransaction_def tallyOutputs_closed [OF assms] fundTx_reference [OF assms]
        outputAmount_def baseTx_def wire_okD [OF assms] split: if_splits)
qed

text \<open>
  C8: Coin selection. A created transaction spends the shortest prefix, in the order in which
  the runtime presents the outputs, of the mature and unlocked outputs of the wallet that pays
  for the requested outputs and the fee, the fee being recomputed for every input added; no
  shorter prefix would do, and each input records its coin's value. If no prefix is enough, the
  result is the error "not enough funds" and the wallet is as before.
\<close>

theorem create_selects_shortest_prefix:
  assumes "wire_ok w"
  shows "(\<forall>tx m'. CreateTransaction w K lf ks outputs feeRate m = (Ok tx, m') \<longrightarrow>
     (\<exists>n < length (filter (spendableAt m) ks).
       inputPoints tx = take (Suc n) (filter (spendableAt m) ks)
       \<and> map unsigned (TxIn tx) = map (coinInput m) (inputPoints tx)
       \<and> enough w (outputAmount outputs) feeRate m (baseTx w outputs) (inputPoints tx)
       \<and> (\<forall>k < n. \<not> enough w (outputAmount outputs) feeRate m (baseTx w outputs)
                       (take (Suc k) (filter (spendableAt m) ks)))))
   \<and> ((\<forall>n < length (filter (spendableAt m) ks).
         \<not> enough w (outputAmount outputs) feeRate m (baseTx w outputs)
              (take (Suc n) (filter (spendableAt m) ks))) \<longrightarrow>
       CreateTransaction w K lf ks outputs feeRate m = (Err notEnoughFunds, m))"
  by (intro conjI allI impI) (rule create_prefix [OF assms], assumption)+

text \<open>The value that flows in and out of a transaction.\<close>

definition totalIn :: "msgtx \<Rightarrow> int" where
  "totalIn tx = sum_list (map ValueIn (TxIn tx))"

definition totalOut :: "msgtx \<Rightarrow> int" where
  "totalOut tx = sum_list (map Value (TxOut tx))"

text \<open>The transaction as it was when its fee was computed: not signed, and without change.\<close>

definition unsignedTx :: "nat \<Rightarrow> msgtx \<Rightarrow> msgtx" where
  "unsignedTx n tx = tx\<lparr>TxIn := map unsigned (TxIn tx), TxOut := take n (TxOut tx)\<rparr>"

lemma created_outputs:
  assumes "wire_ok w" "CreateTransaction w K lf ks outputs feeRate m = (Ok tx, m')"
  shows "feeFor w feeRate m (baseTx w outputs) (inputPoints tx) =
      requiredFee w (unsignedTx (length outputs) tx) feeRate"
    and "(changeFor w (outputAmount outputs) feeRate m (baseTx w outputs) (inputPoints tx) \<le> 0
        \<and> TxOut tx = outputs) \<or>
      (\<exists>out. TxOut tx = outputs @ [out] \<and> Value out > 0 \<and>
        Value out = changeFor w (outputAmount outputs) feeRate m (baseTx w outputs) (inputPoints tx))"
proof -
  from assms obtain cs tx1 m1 where
    fin: "finish w K lf (outputAmount outputs) feeRate m (baseTx w outputs) cs = (Ok tx1, m1)" and
    s: "signInputs K m1 0 (TxIn tx1) tx1 [] = Ok (tx, cs)" and
    ins: "TxIn tx1 = map (coinInput m) cs"
    by (rule CreateTransaction_OkE)
  note sig = signInputs_Ok [OF s]
  have pts: "inputPoints tx = cs"
    using inputPoints_unsigned [OF sig(4)] by (simp add: inputPoints_def ins coinInput_def o_def)
  have ver: "msgVersion tx1 = msgVersion (baseTx w outputs)"
    using fin by (auto simp: finish_def Let_def withInputs_def split: if_splits prod.splits res.splits)
  have "take (length outputs) (TxOut tx) = outputs"
    using finish_Ok(5) [OF fin] sig(2) by (auto simp: baseTx_def)
  then have "unsignedTx (length outputs) tx = withInputs m (baseTx w outputs) cs"
    using sig(3,4) ver ins
    by (simp add: unsignedTx_def withInputs_def baseTx_def wire_okD [OF assms(1)] o_def)
  then show "feeFor w feeRate m (baseTx w outputs) (inputPoints tx) =
      requiredFee w (unsignedTx (length outputs) tx) feeRate"
    by (simp add: feeFor_def pts)
  show "(changeFor w (outputAmount outputs) feeRate m (baseTx w outputs) (inputPoints tx) \<le> 0
        \<and> TxOut tx = outputs) \<or>
      (\<exists>out. TxOut tx = outputs @ [out] \<and> Value out > 0 \<and>
        Value out = changeFor w (outputAmount outputs) feeRate m (baseTx w outputs) (inputPoints tx))"
    using finish_Ok(5) [OF fin] sig(2) by (auto simp: pts baseTx_def)
qed

text \<open>The amounts a wallet handles stay far below the range of \<open>int64\<close>.\<close>

definition moneyRange :: "'k mem_wallet \<Rightarrow> bool" where
  "moneyRange m \<longleftrightarrow> finite (dom (utxos m)) \<and> (\<forall>p. 0 \<le> valueAt m p) \<and>
     (\<Sum>p \<in> dom (utxos m). valueAt m p) < 2 ^ 62"

lemma moneyRange_selected:
  assumes "moneyRange m" "distinct ps" "set ps \<subseteq> dom (utxos m)"
  shows "0 \<le> sum_list (map (valueAt m) ps)" "sum_list (map (valueAt m) ps) < 2 ^ 62"
proof -
  have "sum_list (map (valueAt m) ps) = (\<Sum>p \<in> set ps. valueAt m p)"
    using assms(2) by (simp add: sum_list_distinct_conv_sum_set)
  moreover have "(\<Sum>p \<in> set ps. valueAt m p) \<le> (\<Sum>p \<in> dom (utxos m). valueAt m p)"
    using assms by (intro sum_mono2) (auto simp: moneyRange_def)
  moreover have "0 \<le> (\<Sum>p \<in> set ps. valueAt m p)"
    using assms(1) by (intro sum_nonneg) (simp add: moneyRange_def)
  ultimately show "0 \<le> sum_list (map (valueAt m) ps)" "sum_list (map (valueAt m) ps) < 2 ^ 62"
    using assms(1) by (simp_all add: moneyRange_def)
qed

text \<open>
  C4: No value is lost. In a transaction created from coins, for outputs in the range of money
  and a fee that is not negative, the inputs pay exactly for the outputs and the fee, where the
  fee is the rate times the estimated size of the transaction before signing and without its
  change output; the requested outputs come first and at most one output, the change, follows.
\<close>

theorem create_conserves_value:
  assumes "wire_ok w" "is_order ks (utxos m)" "moneyRange m"
    and "CreateTransaction w K lf ks outputs feeRate m = (Ok tx, m')"
    and "0 \<le> sum_list (map Value outputs)" "sum_list (map Value outputs) < 2 ^ 62"
    and "0 \<le> requiredFee w (unsignedTx (length outputs) tx) feeRate"
  shows "totalIn tx = totalOut tx + requiredFee w (unsignedTx (length outputs) tx) feeRate
    \<and> (\<exists>change. TxOut tx = outputs @ change \<and> length change \<le> 1)"
proof -
  let ?fee = "requiredFee w (unsignedTx (length outputs) tx) feeRate"
  let ?amt = "sum_list (map Value outputs)"
  note ins = created_inputs [OF assms(1,2,4)]
  note out = created_outputs [OF assms(1,4)]
  have sub: "set (inputPoints tx) \<subseteq> dom (utxos m)"
    using ins(3) by (auto simp: spendableAt_iff split: option.splits)
  have tin: "totalIn tx = sum_list (map (valueAt m) (inputPoints tx))"
    by (simp add: totalIn_def ins(4))
  note money = moneyRange_selected [OF assms(3) ins(2) sub, folded tin]
  have amt: "outputAmount outputs = ?amt"
    using assms(5,6) by (simp add: outputAmount_def in64_def)
  have sel: "selected m (inputPoints tx) = totalIn tx"
    using money by (simp add: selected_def tin [symmetric] in64_def)
  have fee: "?fee < 2 ^ 63"
    using requiredFee_in64 [of w _ feeRate] by (simp add: in64_def)
  from create_prefix(1) [OF assms(1,4)]
  have "enough w (outputAmount outputs) feeRate m (baseTx w outputs) (inputPoints tx)" by blast
  then have e: "?amt \<le> totalIn tx - ?fee"
    using money fee assms(7) by (simp add: enough_def sel amt out(1) in64_def)
  have "changeFor w (outputAmount outputs) feeRate m (baseTx w outputs) (inputPoints tx) =
      totalIn tx - ?amt - ?fee"
    using money assms(5,6,7) e by (simp add: changeFor_def sel amt out(1) in64_def)
  with out(2) e show ?thesis by (auto simp: totalOut_def)
qed

text \<open>
  C3: No double spend. A created transaction spends at least one coin, no coin twice, and only
  coins that were mature and unlocked; afterwards exactly those coins are locked in addition
  (a lock is the only change to the wallet's outputs), so whatever transaction is created next
  shares no input with it.
\<close>

theorem create_never_double_spends:
  assumes "wire_ok w" "is_order ks (utxos m)"
    and "CreateTransaction w K lf ks outputs feeRate m = (Ok tx, m1)"
    and "is_order ks1 (utxos m1)"
    and "CreateTransaction w K lf1 ks1 outputs1 feeRate1 m1 = (Ok tx1, m2)"
  shows "inputPoints tx \<noteq> [] \<and> distinct (inputPoints tx)
    \<and> (\<forall>p \<in> set (inputPoints tx). spendableAt m p)
    \<and> utxos m1 = setLocked True (inputPoints tx) (utxos m)
    \<and> set (inputPoints tx) \<inter> set (inputPoints tx1) = {}"
proof -
  note a = created_inputs [OF assms(1-3)]
  note b = created_inputs [OF assms(1,4,5)]
  have "\<not> spendableAt m1 p" if "p \<in> set (inputPoints tx)" for p
    using that by (auto simp: spendableAt_iff a(5) setLocked_closed isSpendable_def
        split: option.splits)
  with a b(3) show ?thesis by blast
qed

text \<open>
  C11: A transaction that is created and then cancelled leaves no trace in the outputs:
  \<open>UnlockOutputs\<close> on its inputs restores them all, and with them the confirmed balance; in
  between the balance is smaller by exactly the value of the inputs (in 64-bit arithmetic).
\<close>

theorem cancel_restores_outputs:
  assumes "wire_ok w" "is_order ks (utxos m)"
    and "CreateTransaction w K lf ks outputs feeRate m = (Ok tx, m')"
  shows "utxos (UnlockOutputs (TxIn tx) m') = utxos m
    \<and> ConfirmedBalance ks m' = i64 (ConfirmedBalance ks m - totalIn tx)
    \<and> ConfirmedBalance ks (UnlockOutputs (TxIn tx) m') = ConfirmedBalance ks m"
proof -
  note ins = created_inputs [OF assms]
  have fin: "finite (dom (utxos m))" using is_orderD(2) [OF assms(2)] by (metis List.finite_set)
  have dom: "dom (utxos m') = dom (utxos m)" by (simp add: ins(5))
  have ord: "is_order ks (utxos m')" using assms(2) by (simp add: is_order_def dom)
  have "utxos (UnlockOutputs (TxIn tx) m') p = utxos m p" for p
    using ins(3) by (cases "utxos m p")
      (auto simp: UnlockOutputs_def inputPoints_def setLocked_closed ins(5) spendableAt_iff
        isSpendable_def option.map_comp o_def)
  then have unl: "utxos (UnlockOutputs (TxIn tx) m') = utxos m" by (rule ext)
  have "(\<Sum>p \<in> dom (utxos m'). spendableValue m' p) =
      (\<Sum>p \<in> dom (utxos m). spendableValue m p) - totalIn tx"
    using locked_sum [OF ins(5,6,2,3) fin] by (simp add: totalIn_def ins(4))
  then have bal: "ConfirmedBalance ks m' = i64 (ConfirmedBalance ks m - totalIn tx)"
    by (simp add: ConfirmedBalance_sum [OF ord] ConfirmedBalance_sum [OF assms(2)] i64_diff_left)
  have "spendableValue (UnlockOutputs (TxIn tx) m') = spendableValue m"
    using ins(6) unl
    by (auto simp: fun_eq_iff spendableValue_def spendableAt_iff valueAt_def UnlockOutputs_def
        split: option.splits)
  then have "ConfirmedBalance ks (UnlockOutputs (TxIn tx) m') = ConfirmedBalance ks m"
    using assms(2) by (simp add: ConfirmedBalance_sum unl)
  with unl bal show ?thesis by blast
qed

text \<open>
  C32: A transaction that is not created locks nothing: whenever \<open>CreateTransaction\<close> does not
  return a transaction, the wallet's outputs and their locks are as before.
\<close>

theorem failed_create_locks_nothing:
  assumes "wire_ok w" "CreateTransaction w K lf ks outputs feeRate m = (r, m')" "\<not> is_ok r"
  shows "utxos m' = utxos m \<and> currentHeight m' = currentHeight m \<and> reorgJournal m' = reorgJournal m"
proof -
  have "utxos m1 = utxos m \<and> currentHeight m1 = currentHeight m \<and> reorgJournal m1 = reorgJournal m"
    if "fundTx w K lf ks tx amt feeRate m = (q, m1)" for tx amt q m1
    using that newAddress_frame
    by (fastforce simp: fundTx_reference [OF assms(1)] finish_def Let_def
        split: option.splits if_splits prod.splits res.splits)
  with assms(2,3) show ?thesis
    by (fastforce simp: CreateTransaction_def split: prod.splits res.splits)
qed

text \<open>
  C30: Every input of a created transaction is signed with the private key of the child index
  that the spent coin records, for the script of that coin, over a transaction equal to the one
  returned but for signature scripts.
\<close>

theorem created_inputs_signed:
  assumes "wire_ok w" "is_order ks (utxos m)"
    and "CreateTransaction w K lf ks outputs feeRate m = (Ok tx, m')"
  shows "\<forall>n < length (TxIn tx). signedBy K m tx n"
proof -
  from assms(1,3) obtain cs tx1 m1 where
    fin: "finish w K lf (outputAmount outputs) feeRate m (baseTx w outputs) cs = (Ok tx1, m1)" and
    s: "signInputs K m1 0 (TxIn tx1) tx1 [] = Ok (tx, cs)"
    by (rule CreateTransaction_OkE)
  have "length (TxIn tx) = length (TxIn tx1)"
    using signInputs_Ok(4) [OF s] by (metis length_map)
  then have "signedBy K m1 tx n" if "n < length (TxIn tx)" for n
    using signInputs_signed [OF s] that by simp
  then show ?thesis
    using finish_Ok(2,3) [OF fin] by (simp add: signedBy_def)
qed

text \<open>
  The confirmed balance is the sum, in 64-bit arithmetic, of the mature and unlocked
  outputs; it does not depend on the order in which the runtime visits the map.
\<close>

lemma balance_order_independent:
  assumes "is_order ks (utxos m)" "is_order ks' (utxos m)"
  shows "ConfirmedBalance ks m = ConfirmedBalance ks' m
    \<and> ConfirmedBalance ks m = i64 (\<Sum>p \<in> dom (utxos m). spendableValue m p)"
  using assms by (simp add: ConfirmedBalance_sum)

corollary balance_canonical:
  assumes "is_order ks (utxos m)"
  shows "ConfirmedBalance ks m = ConfirmedBalance (canonicalOrder (utxos m)) m"
proof -
  have "finite (dom (utxos m))" using is_orderD [OF assms] by (metis List.finite_set)
  from balance_order_independent [OF assms canonicalOrder [OF this]] show ?thesis by blast
qed

section \<open>Witnesses\<close>

definition demo_order :: "outpoint list" where
  "demo_order = [demo_point 1, demo_point 2]"

lemma demo_order_ok [simp]: "is_order demo_order (utxos demo_wallet)"
  by (auto simp: is_order_def demo_order_def demo_defs)

definition demo_outputs :: "txout list" where
  "demo_outputs = [\<lparr>Value = 1000, outVersion = 0, PkScript = [118, 9]\<rparr>]"

abbreviation demo_create :: "u32 mem_wallet \<Rightarrow> msgtx res \<times> u32 mem_wallet" where
  "demo_create \<equiv> CreateTransaction demo_wire demo_keys (\<lambda>_. None) demo_order demo_outputs 1"

lemmas demo_eval = CreateTransaction_def demo_outputs_def demo_order_def demo_wire_def
  demo_keys_def demo_defs fundTx_def isSpendable_def isMature_def requiredFee_def spendSize_def
  newAddress_def keyToAddr_def in64_def Let_def

lemma demo_created:
  obtains tx m where "demo_create demo_wallet = (Ok tx, m)" "inputPoints tx = [demo_point 1]"
    "requiredFee demo_wire (unsignedTx (length demo_outputs) tx) 1 = 222"
    "length (TxIn tx) = 1" "is_ok (fst (demo_create m))"
  by (simp add: demo_eval inputPoints_def unsignedTx_def unsigned_def)

lemma demo_money: "moneyRange demo_wallet"
  by (simp add: moneyRange_def demo_defs valueAt_def)

lemma demo_outputs_range:
  "0 \<le> sum_list (map Value demo_outputs)" "sum_list (map Value demo_outputs) < 2 ^ 62"
  by (simp_all add: demo_outputs_def)

theorem create_selects_shortest_prefix_witness:
  "\<exists>tx m'. demo_create demo_wallet = (Ok tx, m') \<and> inputPoints tx = [demo_point 1]
     \<and> enough demo_wire (outputAmount demo_outputs) 1 demo_wallet (baseTx demo_wire demo_outputs)
          (inputPoints tx)"
proof -
  obtain tx m where c: "demo_create demo_wallet = (Ok tx, m)" "inputPoints tx = [demo_point 1]"
    using demo_created by blast
  from create_selects_shortest_prefix [OF demo_wire_ok, of demo_keys "\<lambda>_. None" demo_order
      demo_outputs 1 demo_wallet] c show ?thesis by blast
qed

theorem create_conserves_value_witness:
  "\<exists>tx m'. demo_create demo_wallet = (Ok tx, m') \<and> totalIn tx = totalOut tx + 222"
proof -
  obtain tx m where c: "demo_create demo_wallet = (Ok tx, m)"
    "requiredFee demo_wire (unsignedTx (length demo_outputs) tx) 1 = 222"
    using demo_created by blast
  from create_conserves_value [OF demo_wire_ok demo_order_ok demo_money c(1) demo_outputs_range] c
  show ?thesis by auto
qed

theorem create_never_double_spends_witness:
  "\<exists>tx m1 tx1 m2. demo_create demo_wallet = (Ok tx, m1) \<and> demo_create m1 = (Ok tx1, m2)
     \<and> set (inputPoints tx) \<inter> set (inputPoints tx1) = {}"
proof -
  obtain tx m where c: "demo_create demo_wallet = (Ok tx, m)" "is_ok (fst (demo_create m))"
    using demo_created by blast
  from c(2) obtain tx1 m2 where d: "demo_create m = (Ok tx1, m2)"
    by (cases "demo_create m") auto
  have "is_order demo_order (utxos m)"
    using demo_order_ok created_inputs(5) [OF demo_wire_ok demo_order_ok c(1)]
    by (simp add: is_order_def)
  from create_never_double_spends [OF demo_wire_ok demo_order_ok c(1) this d] c d
  show ?thesis by blast
qed

theorem cancel_restores_outputs_witness:
  "\<exists>tx m'. demo_create demo_wallet = (Ok tx, m')
     \<and> utxos (UnlockOutputs (TxIn tx) m') = utxos demo_wallet"
proof -
  obtain tx m where c: "demo_create demo_wallet = (Ok tx, m)" using demo_created by blast
  from cancel_restores_outputs [OF demo_wire_ok demo_order_ok c] c show ?thesis by blast
qed

theorem failed_create_locks_nothing_witness:
  "\<exists>r m'. CreateTransaction demo_wire demo_keys (\<lambda>_. Some (External 7)) demo_order demo_outputs 1
            demo_wallet = (r, m') \<and> r = Err (External 7) \<and> utxos m' = utxos demo_wallet"
proof -
  obtain m' where f: "CreateTransaction demo_wire demo_keys (\<lambda>_. Some (External 7)) demo_order
      demo_outputs 1 demo_wallet = (Err (External 7), m')"
    by (simp add: demo_eval)
  from failed_create_locks_nothing [OF demo_wire_ok f] f show ?thesis by simp
qed

theorem created_inputs_signed_witness:
  "\<exists>tx m'. demo_create demo_wallet = (Ok tx, m') \<and> signedBy demo_keys demo_wallet tx 0"
proof -
  obtain tx m where c: "demo_create demo_wallet = (Ok tx, m)" "length (TxIn tx) = 1"
    using demo_created by blast
  from created_inputs_signed [OF demo_wire_ok demo_order_ok c(1)] c show ?thesis by auto
qed

end
