(* ===== verification/WalletSystem.thy ===== *)
theory WalletSystem
  imports WalletReorg WalletSpend
begin

text \<open>
  The wallet at work: the callbacks of the RPC client, the callers of the wallet and the chain
  syncer as steps of one system, with the invariant that holds in every reachable state. Each
  step is what one goroutine does between taking and releasing a lock.
\<close>

section \<open>The invariant of the wallet\<close>

text \<open>
  Every address is the one derived from its index, and every output the wallet holds, or could
  get back from the journal, pays to the address of the key index it records.
\<close>

definition owns :: "(u32 \<rightharpoonup> address) \<Rightarrow> utxo \<Rightarrow> bool" where
  "owns A u \<longleftrightarrow> (\<exists>a. A (keyIndex u) = Some a \<and> sublist (Hash160 a) (pkScript u))"

definition owned :: "(u32 \<rightharpoonup> address) \<Rightarrow> (outpoint \<rightharpoonup> utxo) \<Rightarrow> bool" where
  "owned A us \<longleftrightarrow> finite (dom us) \<and> (\<forall>p u. us p = Some u \<longrightarrow> owns A u)"

definition wallet_inv :: "'k key_api \<Rightarrow> 'k mem_wallet \<Rightarrow> bool" where
  "wallet_inv K m \<longleftrightarrow>
     finite (dom (addrs m)) \<and>
     (\<forall>k a. addrs m k = Some a \<longrightarrow> keyAddr K (hdRoot m) k = Inr a) \<and>
     owned (addrs m) (utxos m) \<and>
     (\<forall>h e. reorgJournal m h = Some e \<longrightarrow> owned (addrs m) (utxosDestroyed e))"

lemma owned_empty [simp]: "owned A Map.empty"
  by (simp add: owned_def)

lemma owned_update: "owned A us \<Longrightarrow> owns A u \<Longrightarrow> owned A (us(p \<mapsto> u))"
  by (auto simp: owned_def)

lemma owned_restrict: "owned A us \<Longrightarrow> owned A (us |` S)"
  by (auto simp: owned_def restrict_map_def split: if_splits intro: rev_finite_subset)

lemma owned_add: "owned A us \<Longrightarrow> owned A vs \<Longrightarrow> owned A (us ++ vs)"
  by (auto simp: owned_def)

lemma owned_addrs: "owned A us \<Longrightarrow> A \<subseteq>\<^sub>m B \<Longrightarrow> owned B us"
  unfolding owned_def owns_def map_le_def by (metis domI)

lemma owned_setLocked:
  assumes "owned A us"
  shows "owned A (setLocked b ps us)"
proof -
  have "owns A (u\<lparr>isLocked := b\<rparr>) = owns A u" for u by (simp add: owns_def)
  with assms show ?thesis
    unfolding owned_def dom_setLocked by (auto simp: setLocked_closed split: if_splits)
qed

lemma newMemWallet_inv:
  assumes "newMemWallet K params hid = Ok (Some m)"
  shows "wallet_inv K m \<and> chainUpdates m = [] \<and> \<not> quitClosed m \<and> wg m = 0"
  using assms
  by (auto simp: newMemWallet_def wallet_inv_def keyAddr_def split: sum.splits if_splits)

subsection \<open>Preservation\<close>

lemma scanAddrs_owned:
  assumes "scanAddrs h cb i t ks (m, undo) = (m', undo')" "owned (addrs m) (utxos m)"
  shows "owned (addrs m) (utxos m')"
proof -
  let ?ms = "matching (addrs m) (PkScript t) ks"
  have "owns (addrs m) (newUtxo m cb t (last ?ms))" if "?ms \<noteq> []"
    using last_in_set [OF that] by (auto simp: matching_set owns_def newUtxo_def)
  with assms show ?thesis
    by (auto simp: scanAddrs_closed Let_def intro: owned_update split: if_splits)
qed

lemma evalOutputs_owned:
  assumes "owned (addrs (fst mu)) (utxos (fst mu))"
  shows "owned (addrs (fst mu)) (utxos (fst (evalOutputs ord i ts h cb mu)))"
  using assms
proof (induction ts arbitrary: i mu)
  case Nil
  then show ?case by simp
next
  case (Cons t ts)
  obtain m1 u1 where 1: "scanAddrs h cb i t (ord i) mu = (m1, u1)" by force
  have "addrs m1 = addrs (fst mu)"
    using only_utxosD(1) [OF scanAddrs_only [of "fst mu" h cb i t "ord i" "snd mu"]] 1 by simp
  moreover have "owned (addrs (fst mu)) (utxos m1)"
    using scanAddrs_owned [of h cb i t "ord i" "fst mu" "snd mu"] 1 Cons.prems by simp
  ultimately show ?case using Cons.IH [of "(m1, u1)" "Suc i"] by (simp add: 1)
qed

lemma processTxns_owned:
  assumes "owned (addrs (fst mu)) (utxos (fst mu))" "owned (addrs (fst mu)) (utxosDestroyed (snd mu))"
  shows "owned (addrs (fst mu)) (utxos (fst (processTxns w ord n txs mu)))
    \<and> owned (addrs (fst mu)) (utxosDestroyed (snd (processTxns w ord n txs mu)))"
  using assms
proof (induction txs arbitrary: n mu)
  case Nil
  then show ?case by simp
next
  case (Cons tx txs)
  let ?mu1 = "evalOutputs (ord n) 0 (TxOut tx) (TxHash w tx) (IsCoinBaseTx w tx noTreasury) mu"
  let ?mu2 = "evalInputs (TxIn tx) ?mu1"
  have "addrs (fst ?mu2) = addrs (fst mu)"
    using only_utxosD(1) [OF processTxns_only [of mu w ord n "[tx]"]] by (simp add: Let_def)
  moreover have "owned (addrs (fst mu)) (utxos (fst ?mu1))"
    by (rule evalOutputs_owned) (rule Cons.prems)
  moreover have "utxosDestroyed (snd ?mu1) = utxosDestroyed (snd mu)"
    by (rule evalOutputs_destroyed)
  ultimately show ?case
    using Cons.IH [of ?mu2 "Suc n"] Cons.prems(2)
    by (cases ?mu1) (simp add: Let_def evalInputs_closed owned_restrict owned_add)
qed

lemma applyUpdate_inv: "wallet_inv K m \<Longrightarrow> wallet_inv K (applyUpdate w ord b m)"
  using processTxns_owned [of "(m\<lparr>currentHeight := blockHeight b\<rparr>, emptyUndo)" w ord 0 "filteredTxns b"]
    applyUpdate_frame [of w ord b m]
  by (auto simp: wallet_inv_def applyUpdate_def emptyUndo_def case_prod_beta Let_def
      processTxns_addrs only_utxosD(4) [OF processTxns_only] split: if_splits)

lemma delete_all_restrict: "delete_all ks us = us |` (- set ks)"
  by (auto simp: map_loops restrict_map_def)

lemma assign_all_owned: "owned A us \<Longrightarrow> owned A d \<Longrightarrow> owned A (assign_all ks d us)"
  by (induction ks arbitrary: us) (auto split: option.splits intro: owned_update simp: owned_def [of A d])

lemma unwindHeight_inv:
  assumes "wallet_inv K m" "unwindHeight ds h m = Ok m'"
  shows "wallet_inv K m'"
  using assms
  using assign_all_owned owned_restrict
  by (auto simp: wallet_inv_def unwindHeight_def delete_all_restrict split: option.splits if_splits)

lemma newAddress_inv:
  assumes "wallet_inv K m" "newAddress K lf m = (r, m')"
  shows "wallet_inv K m'"
proof (cases "is_ok r")
  case True
  then obtain a where a: "newAddress K lf m = (Ok a, m')" using assms(2) by auto
  note new = newAddress_OkD [OF a]
  have "addrs m \<subseteq>\<^sub>m (addrs m)(hdIndex m \<mapsto> a)"
    using assms(1) new(1) by (auto simp: map_le_def wallet_inv_def)
  then show ?thesis
    using assms(1) new(1,4) owned_addrs
    by (auto simp: wallet_inv_def split: if_splits) blast+
next
  case False
  then show ?thesis
    using assms newAddress_notOk [OF assms(2)] newAddress_frame [OF assms(2)]
    by (simp add: wallet_inv_def)
qed

lemma finish_inv:
  assumes "wallet_inv K m" "finish w K lf amt feeRate m tx cs = (r, m')"
  shows "wallet_inv K m'"
  using assms newAddress_inv
  by (fastforce simp: finish_def Let_def split: if_splits prod.splits res.splits)

lemma CreateTransaction_inv:
  assumes "wire_ok w" "wallet_inv K m" "CreateTransaction w K lf ks outs feeRate m = (r, m')"
  shows "wallet_inv K m'"
proof -
  have fund: "wallet_inv K m1" if "fundTx w K lf ks tx amt feeRate m = (q, m1)" for tx amt q m1
    using that assms(2) finish_inv
    by (fastforce simp: fundTx_reference [OF assms(1)] split: option.splits)
  have lock: "wallet_inv K (m1\<lparr>utxos := setLocked True ps (utxos m1)\<rparr>)"
    if "wallet_inv K m1" for m1 :: "'a mem_wallet" and ps
    using that by (simp add: wallet_inv_def owned_setLocked)
  from assms(3) show ?thesis
    by (auto simp: CreateTransaction_def split: prod.splits res.splits dest!: fund intro: lock)
qed

lemma SendOutputs_create:
  assumes "SendOutputs w K lf sendRaw ks outs feeRate m = (r, m')"
  obtains q m1 us where "CreateTransaction w K lf ks outs feeRate m = (q, m1)" "m' = m1\<lparr>rpcLog := us\<rparr>"
proof -
  obtain q m1 where c: "CreateTransaction w K lf ks outs feeRate m = (q, m1)" by force
  have "\<exists>us. m' = m1\<lparr>rpcLog := us\<rparr>"
    using assms c by (auto simp: SendOutputs_def Let_def split: res.split_asm option.split_asm sum.split_asm
        intro: exI [of _ "rpcLog m1"])
  with c that show thesis by blast
qed

lemma SendOutputs_inv:
  assumes "wire_ok w" "wallet_inv K m" "SendOutputs w K lf sendRaw ks outs feeRate m = (r, m')"
  shows "wallet_inv K m'"
proof -
  from assms(3) obtain q m1 us where "CreateTransaction w K lf ks outs feeRate m = (q, m1)" "m' = m1\<lparr>rpcLog := us\<rparr>"
    by (rule SendOutputs_create)
  with CreateTransaction_inv [OF assms(1,2)] show ?thesis by (simp add: wallet_inv_def)
qed

lemma UnlockOutputs_inv: "wallet_inv K m \<Longrightarrow> wallet_inv K (UnlockOutputs ins m)"
  by (simp add: wallet_inv_def UnlockOutputs_def owned_setLocked)

section \<open>The queue of chain updates\<close>

interpretation updates: fifo enqueueUpdate popUpdate chainUpdates
  by unfold_locales (auto simp: enqueueUpdate_def popUpdate_def)

section \<open>The system\<close>

text \<open>
  The chain syncer is not running, waits in its \<open>select\<close>, holds an update it has taken from the
  queue but not applied, or has returned. \<open>signallers\<close> counts the goroutines that \<open>IngestBlock\<close>
  has launched and that still wait to send. \<open>ingested\<close> and \<open>processed\<close> record the history.
\<close>

datatype syncer_state = NotRunning | Waiting | Holding chain_update | Returned

record 'k wallet_sys =
  wal :: "'k mem_wallet"
  signallers :: nat
  syncer :: syncer_state
  panicked :: bool
  ingested :: "chain_update list"
  processed :: "chain_update list"

definition init_sys :: "'k mem_wallet \<Rightarrow> 'k wallet_sys" where
  "init_sys m = \<lparr>wal = m, signallers = 0, syncer = NotRunning, panicked = False,
                 ingested = [], processed = []\<rparr>"

definition syncTake :: "chain_update \<Rightarrow> 'k mem_wallet \<Rightarrow> 'k wallet_sys \<Rightarrow> 'k wallet_sys" where
  "syncTake u m s = s\<lparr>wal := m, signallers := signallers s - 1, syncer := Holding u\<rparr>"

definition syncApply :: "wire_api \<Rightarrow> (nat \<Rightarrow> nat \<Rightarrow> u32 list) \<Rightarrow> chain_update \<Rightarrow>
    'k wallet_sys \<Rightarrow> 'k wallet_sys" where
  "syncApply w ord u s =
     s\<lparr>wal := applyUpdate w ord u (wal s), syncer := Waiting, processed := processed s @ [u]\<rparr>"

definition syncReturn :: "'k wallet_sys \<Rightarrow> 'k wallet_sys" where
  "syncReturn s = s\<lparr>wal := (wal s)\<lparr>wg := wg (wal s) - 1\<rparr>, syncer := Returned\<rparr>"

text \<open>
  The iterations of the chain syncer: in the \<open>select\<close> a signal and the closed \<open>quit\<close> channel
  may both be ready, and the runtime picks either.
\<close>

inductive sync_step :: "wire_api \<Rightarrow> 'k wallet_sys \<Rightarrow> 'k wallet_sys \<Rightarrow> bool" for w where
  take: "syncer s = Waiting \<Longrightarrow> 0 < signallers s \<Longrightarrow> popUpdate (wal s) = Ok (u, m) \<Longrightarrow>
     sync_step w s (syncTake u m s)"
| take_panic: "syncer s = Waiting \<Longrightarrow> 0 < signallers s \<Longrightarrow> popUpdate (wal s) = Panic p \<Longrightarrow>
     sync_step w s (s\<lparr>panicked := True\<rparr>)"
| apply_update: "syncer s = Holding u \<Longrightarrow> scan_orders (wal s) ord \<Longrightarrow>
     sync_step w s (syncApply w ord u s)"
| syncer_quit: "syncer s = Waiting \<Longrightarrow> quitClosed (wal s) \<Longrightarrow> sync_step w s (syncReturn s)"

text \<open>The other goroutines: the callbacks, the callers of the wallet and the signallers.\<close>

inductive call_step :: "wire_api \<Rightarrow> 'k key_api \<Rightarrow> 'k wallet_sys \<Rightarrow> 'k wallet_sys \<Rightarrow> bool"
  for w K where
  set_client: "call_step w K s (s\<lparr>wal := SetRPCClient c (wal s)\<rparr>)"
| start: "syncer s = NotRunning \<Longrightarrow>
     call_step w K s (s\<lparr>wal := Start (wal s), syncer := Waiting\<rparr>)"
| ingest: "IngestBlock w header txns (wal s) = Ok m \<Longrightarrow>
     call_step w K s (s\<lparr>wal := m, signallers := signallers s + 1,
                        ingested := ingested s @ [last (chainUpdates m)]\<rparr>)"
| ingest_panic: "IngestBlock w header txns (wal s) = Panic p \<Longrightarrow>
     call_step w K s (s\<lparr>panicked := True\<rparr>)"
| unwind: "UnwindBlock w ds header (wal s) = Ok m \<Longrightarrow> call_step w K s (s\<lparr>wal := m\<rparr>)"
| unwind_panic: "UnwindBlock w ds header (wal s) = Panic p \<Longrightarrow>
     call_step w K s (s\<lparr>panicked := True\<rparr>)"
| new_address: "NewAddress K lf (wal s) = (r, m) \<Longrightarrow> call_step w K s (s\<lparr>wal := m\<rparr>)"
| create: "is_order ks (utxos (wal s)) \<Longrightarrow>
     CreateTransaction w K lf ks outs feeRate (wal s) = (r, m) \<Longrightarrow>
     call_step w K s (s\<lparr>wal := m\<rparr>)"
| send_outputs: "is_order ks (utxos (wal s)) \<Longrightarrow>
     SendOutputs w K lf sendRaw ks outs feeRate (wal s) = (r, m) \<Longrightarrow>
     call_step w K s (s\<lparr>wal := m\<rparr>)"
| unlock: "call_step w K s (s\<lparr>wal := UnlockOutputs ins (wal s)\<rparr>)"
| stop: "closeQuit (wal s) = Ok m \<Longrightarrow> call_step w K s (s\<lparr>wal := m\<rparr>)"
| stop_panic: "closeQuit (wal s) = Panic p \<Longrightarrow> call_step w K s (s\<lparr>panicked := True\<rparr>)"
| drop_signal: "quitClosed (wal s) \<Longrightarrow> 0 < signallers s \<Longrightarrow>
     call_step w K s (s\<lparr>signallers := signallers s - 1\<rparr>)"

inductive reachable :: "wire_api \<Rightarrow> 'k key_api \<Rightarrow> 'k wallet_sys \<Rightarrow> bool" for w K where
  init: "newMemWallet K params hid = Ok (Some m) \<Longrightarrow> reachable w K (init_sys m)"
| sync: "reachable w K s \<Longrightarrow> \<not> panicked s \<Longrightarrow> sync_step w s t \<Longrightarrow> reachable w K t"
| call: "reachable w K s \<Longrightarrow> \<not> panicked s \<Longrightarrow> call_step w K s t \<Longrightarrow> reachable w K t"

inductive_cases sync_stepE: "sync_step w s t"
inductive_cases call_stepE: "call_step w K s t"

section \<open>The invariant of the system\<close>

text \<open>The update the syncer holds, and the number of syncers that run.\<close>

fun held :: "syncer_state \<Rightarrow> chain_update list" where
  "held (Holding u) = [u]"
| "held _ = []"

fun running :: "syncer_state \<Rightarrow> nat" where
  "running Waiting = 1"
| "running (Holding _) = 1"
| "running _ = 0"

definition queue_inv :: "'k wallet_sys \<Rightarrow> bool" where
  "queue_inv s \<longleftrightarrow>
     signallers s \<le> length (chainUpdates (wal s)) \<and>
     ingested s = processed s @ held (syncer s) @ chainUpdates (wal s)"

definition sys_inv :: "'k key_api \<Rightarrow> 'k wallet_sys \<Rightarrow> bool" where
  "sys_inv K s \<longleftrightarrow> queue_inv s \<and> wallet_inv K (wal s) \<and> wg (wal s) = running (syncer s)"

lemma popUpdate_frame: "popUpdate m = Ok (u, m') \<Longrightarrow> m' = m\<lparr>chainUpdates := chainUpdates m'\<rparr>"
  by (auto simp: popUpdate_def split: list.splits)

lemma wallet_inv_queue [simp]: "wallet_inv K (m\<lparr>chainUpdates := us\<rparr>) = wallet_inv K m"
  by (simp add: wallet_inv_def)

lemma popUpdate_inv: "popUpdate m = Ok (u, m') \<Longrightarrow> wallet_inv K m' = wallet_inv K m \<and> wg m' = wg m"
  by (auto simp: popUpdate_def split: list.splits)

lemma IngestBlock_OkD:
  assumes "IngestBlock w header txns m = Ok m'"
  obtains u where "m' = enqueueUpdate u m"
  using assms by (auto simp: IngestBlock_def split: sum.splits)

lemma applyUpdate_wg: "wg (applyUpdate w ord b m) = wg m"
  by (subst applyUpdate_eq) simp

lemma sync_step_inv:
  assumes "sync_step w s t" "sys_inv K s"
  shows "sys_inv K t"
  using assms(1)
proof cases
  case (take u m)
  have "ingested s = processed s @ chainUpdates (wal s)"
    using assms(2) take(2) by (simp add: sys_inv_def queue_inv_def)
  from updates.deq_history [OF this take(4)] have "ingested s = processed s @ u # chainUpdates m" .
  moreover have "signallers s - 1 \<le> length (chainUpdates m)"
    using assms(2) take(4) by (intro updates.deq_permits) (simp_all add: sys_inv_def queue_inv_def)
  ultimately show ?thesis
    using assms(2) take popUpdate_inv [OF take(4), of K]
    by (simp add: sys_inv_def queue_inv_def syncTake_def)
next
  case (take_panic p)
  then show ?thesis using assms(2) by (simp add: sys_inv_def queue_inv_def)
next
  case (apply_update u ord)
  then show ?thesis
    using assms(2) by (simp add: sys_inv_def queue_inv_def syncApply_def applyUpdate_inv
        applyUpdate_frame applyUpdate_wg)
next
  case syncer_quit
  then show ?thesis
    using assms(2) by (simp add: sys_inv_def queue_inv_def syncReturn_def wallet_inv_def)
qed

lemma newAddress_queue:
  "newAddress K lf m = (r, m') \<Longrightarrow> chainUpdates m' = chainUpdates m \<and> wg m' = wg m"
  by (simp add: newAddress_frame)

lemma CreateTransaction_queue:
  assumes "wire_ok w" "CreateTransaction w K lf ks outs feeRate m = (r, m')"
  shows "chainUpdates m' = chainUpdates m \<and> wg m' = wg m"
proof -
  have fund: "chainUpdates m1 = chainUpdates m \<and> wg m1 = wg m"
    if "fundTx w K lf ks tx amt feeRate m = (q, m1)" for tx amt q m1
    using that newAddress_queue
    by (fastforce simp: fundTx_reference [OF assms(1)] finish_def Let_def
        split: option.splits if_splits prod.splits res.splits)
  from assms(2) show ?thesis
    by (auto simp: CreateTransaction_def split: prod.splits res.splits dest!: fund)
qed

lemma SendOutputs_queue:
  assumes "wire_ok w" "SendOutputs w K lf sendRaw ks outs feeRate m = (r, m')"
  shows "chainUpdates m' = chainUpdates m \<and> wg m' = wg m"
proof -
  from assms(2) obtain q m1 us where "CreateTransaction w K lf ks outs feeRate m = (q, m1)" "m' = m1\<lparr>rpcLog := us\<rparr>"
    by (rule SendOutputs_create)
  with CreateTransaction_queue [OF assms(1)] show ?thesis by simp
qed

lemma call_step_inv:
  assumes "wire_ok w" "call_step w K s t" "sys_inv K s"
  shows "sys_inv K t"
  using assms(2)
proof cases
  case (ingest header txns m)
  then obtain u where u: "m = enqueueUpdate u (wal s)" by (auto elim: IngestBlock_OkD)
  have "ingested s = (processed s @ held (syncer s)) @ chainUpdates (wal s)"
    using assms(3) by (simp add: sys_inv_def queue_inv_def)
  from updates.enq_history [OF this, of u]
  have "ingested s @ [u] = (processed s @ held (syncer s)) @ chainUpdates m" by (simp add: u)
  moreover have "Suc (signallers s) \<le> length (chainUpdates m)"
    using assms(3) unfolding u by (intro updates.enq_permits) (simp add: sys_inv_def queue_inv_def)
  ultimately show ?thesis
    using assms(3) ingest(1)
    by (simp add: sys_inv_def queue_inv_def u enqueueUpdate_def)
next
  case (unwind ds header m)
  then obtain h where h: "unwindHeight ds h (wal s) = Ok m"
    by (auto simp: UnwindBlock_def split: sum.splits)
  then have "chainUpdates m = chainUpdates (wal s)" "wg m = wg (wal s)"
    by (auto simp: unwindHeight_def split: option.splits)
  with assms(3) unwind(1) unwindHeight_inv [OF _ h] show ?thesis
    by (simp add: sys_inv_def queue_inv_def)
next
  case (new_address lf r m)
  then show ?thesis
    using assms(3) newAddress_inv newAddress_queue
    by (fastforce simp: sys_inv_def queue_inv_def NewAddress_def)
next
  case (create ks lf outs feeRate r m)
  then show ?thesis
    using assms(3) CreateTransaction_inv [OF assms(1) _ create(3)]
      CreateTransaction_queue [OF assms(1) create(3)]
    by (simp add: sys_inv_def queue_inv_def)
next
  case (send_outputs ks lf sendRaw outs feeRate r m)
  then show ?thesis
    using assms(3) SendOutputs_inv [OF assms(1) _ send_outputs(3)]
      SendOutputs_queue [OF assms(1) send_outputs(3)]
    by (simp add: sys_inv_def queue_inv_def)
next
  case (unlock ins)
  then show ?thesis
    using assms(3) UnlockOutputs_inv [of K "wal s" ins]
    by (simp add: sys_inv_def queue_inv_def UnlockOutputs_def)
qed (use assms(3) in \<open>auto simp: sys_inv_def queue_inv_def wallet_inv_def SetRPCClient_def
      Start_def closeQuit_def split: if_splits\<close>)

lemma reachable_inv:
  assumes "wire_ok w" "reachable w K s"
  shows "sys_inv K s"
  using assms(2)
proof (induction rule: reachable.induct)
  case (init params hid m)
  then show ?case
    using newMemWallet_inv by (fastforce simp: sys_inv_def queue_inv_def init_sys_def)
next
  case (sync s t)
  then show ?case by (blast intro: sync_step_inv)
next
  case (call s t)
  then show ?case by (blast intro: call_step_inv [OF assms(1)])
qed

section \<open>Properties\<close>

text \<open>
  C10: In every state the system can reach, whatever the interleaving: every address of the
  wallet is the one derived from its key index; every output the wallet holds, and every output
  it could get back from the journal, pays to the address of the key index recorded with it;
  and the wait group counts the chain syncer while it runs.
\<close>

theorem reachable_wallet_consistent:
  assumes "wire_ok w" "reachable w K s"
  shows "(\<forall>k a. addrs (wal s) k = Some a \<longrightarrow> keyAddr K (hdRoot (wal s)) k = Inr a)
    \<and> (\<forall>p u. utxos (wal s) p = Some u \<longrightarrow> owns (addrs (wal s)) u)
    \<and> (\<forall>h e p u. reorgJournal (wal s) h = Some e \<longrightarrow> utxosDestroyed e p = Some u \<longrightarrow>
         owns (addrs (wal s)) u)
    \<and> wg (wal s) = running (syncer s)"
  using reachable_inv [OF assms] unfolding sys_inv_def wallet_inv_def owned_def by blast

text \<open>
  C9: The chain syncer applies the updates in the order in which they were ingested, each once:
  in every reachable state the updates ingested are those applied, then the one it holds, then
  those in the queue. And it never reads from an empty queue: whenever a signal lets it in,
  there is an update to take.
\<close>

theorem updates_applied_in_order:
  assumes "wire_ok w" "reachable w K s"
  shows "ingested s = processed s @ held (syncer s) @ chainUpdates (wal s)
    \<and> (0 < signallers s \<longrightarrow> (\<exists>u m. popUpdate (wal s) = Ok (u, m)))"
  using reachable_inv [OF assms] updates.deq_permitted
  unfolding sys_inv_def queue_inv_def by blast

text \<open>
  The goroutines of the wallet itself: the chain syncer, and the signallers that give up once
  \<open>quit\<close> is closed.
\<close>

inductive own_step :: "wire_api \<Rightarrow> 'k wallet_sys \<Rightarrow> 'k wallet_sys \<Rightarrow> bool" for w where
  own_sync: "sync_step w s t \<Longrightarrow> own_step w s t"
| own_drop: "quitClosed (wal s) \<Longrightarrow> 0 < signallers s \<Longrightarrow>
     own_step w s (s\<lparr>signallers := signallers s - 1\<rparr>)"

fun syncerLeft :: "syncer_state \<Rightarrow> nat" where
  "syncerLeft Waiting = 1" | "syncerLeft (Holding u) = 2" | "syncerLeft _ = 0"

definition workLeft :: "'k wallet_sys \<Rightarrow> nat" where
  "workLeft s = 2 * signallers s + syncerLeft (syncer s)"

definition stopped_ok :: "wire_api \<Rightarrow> 'k key_api \<Rightarrow> 'k wallet_sys \<Rightarrow> bool" where
  "stopped_ok w K s \<longleftrightarrow> reachable w K s \<and> quitClosed (wal s) \<and> \<not> panicked s"

lemma applyUpdate_quit: "quitClosed (applyUpdate w ord b m) = quitClosed m"
  by (subst applyUpdate_eq) simp

lemma own_step_ok:
  assumes "wire_ok w" "stopped_ok w K s" "own_step w s t"
  shows "stopped_ok w K t \<and> workLeft t < workLeft s"
  using assms(3)
proof cases
  case own_sync
  have r: "reachable w K t"
    using assms(2) own_sync by (auto simp: stopped_ok_def intro: reachable.sync)
  from own_sync show ?thesis
  proof cases
    case (take u m)
    then show ?thesis
      using r assms(2) popUpdate_frame [OF take(4)]
      by (cases "signallers s") (auto simp: stopped_ok_def syncTake_def workLeft_def popUpdate_def split: list.split_asm)
  next
    case (take_panic p)
    have "reachable w K s" using assms(2) by (simp add: stopped_ok_def)
    from reachable_inv [OF assms(1) this] have "signallers s \<le> length (chainUpdates (wal s))"
      by (simp add: sys_inv_def queue_inv_def)
    from updates.deq_permitted [OF this take_panic(3)] take_panic(4) show ?thesis by simp
  next
    case (apply_update u ord)
    then show ?thesis
      using r assms(2) by (simp add: stopped_ok_def syncApply_def workLeft_def applyUpdate_quit)
  next
    case syncer_quit
    then show ?thesis using r assms(2) by (simp add: stopped_ok_def syncReturn_def workLeft_def)
  qed
next
  case own_drop
  then show ?thesis
    using assms(2) reachable.call [OF _ _ call_step.drop_signal] by (auto simp: stopped_ok_def workLeft_def)
qed

lemma own_steps_ok:
  assumes "wire_ok w" "stopped_ok w K s"
  shows "(own_step w ^^ k) s t \<Longrightarrow> stopped_ok w K t \<and> k + workLeft t \<le> workLeft s"
proof (induction k arbitrary: t)
  case (Suc k)
  then obtain r where r: "(own_step w ^^ k) s r" "own_step w r t" by auto
  with Suc.IH own_step_ok [OF assms(1) _ r(2), of K] show ?case by fastforce
qed (use assms(2) in simp)

lemma stopped_progress:
  assumes "wire_ok w" "stopped_ok w K t" "\<forall>u. \<not> own_step w t u"
  shows "wg (wal t) = 0 \<and> syncer t \<in> {NotRunning, Returned} \<and> signallers t = 0"
proof -
  have inv: "sys_inv K t" and quit: "quitClosed (wal t)"
    using assms(2) reachable_inv [OF assms(1)] by (auto simp: stopped_ok_def)
  have no: "\<not> sync_step w t u" for u using assms(3) own_sync by blast
  have "syncer t \<in> {NotRunning, Returned}"
  proof (cases "syncer t")
    case Waiting
    with no quit sync_step.syncer_quit show ?thesis by blast
  next
    case (Holding u)
    from inv obtain ks where "is_order ks (addrs (wal t))"
      unfolding sys_inv_def wallet_inv_def using is_order_exists by blast
    then have "scan_orders (wal t) (\<lambda>_ _. ks)" by (simp add: scan_orders_def)
    with Holding no sync_step.apply_update show ?thesis by blast
  qed simp_all
  moreover have "signallers t = 0" using assms(3) own_drop [OF quit] by blast
  ultimately show ?thesis using inv by (auto simp: sys_inv_def)
qed

text \<open>
  C28: Stopping the wallet completes. Once \<open>quit\<close> is closed, every run of the wallet's goroutines,
  whichever ready case the chain syncer's \<open>select\<close> picks and whichever signallers give up, has a
  bounded number of steps and never panics, and when none of them can go on, the chain syncer has
  returned, no signaller is left and the wait group is at zero, so that the wait in \<open>Stop\<close> ends.
\<close>

theorem stop_completes:
  assumes "wire_ok w" "reachable w K s" "quitClosed (wal s)" "\<not> panicked s"
    and "(own_step w ^^ k) s t"
  shows "k \<le> 2 * signallers s + 2 \<and> \<not> panicked t \<and>
    ((\<forall>u. \<not> own_step w t u) \<longrightarrow>
       wg (wal t) = 0 \<and> syncer t \<in> {NotRunning, Returned} \<and> signallers t = 0)"
proof -
  have "stopped_ok w K s" using assms(2-4) by (simp add: stopped_ok_def)
  from own_steps_ok [OF assms(1) this assms(5)]
  have ok: "stopped_ok w K t" and bound: "k + workLeft t \<le> workLeft s" by blast+
  have "syncerLeft (syncer s) \<le> 2" by (cases "syncer s") simp_all
  with bound have "k \<le> 2 * signallers s + 2" by (simp add: workLeft_def)
  moreover have "\<not> panicked t" using ok by (simp add: stopped_ok_def)
  ultimately show ?thesis using stopped_progress [OF assms(1) ok] by blast
qed

lemma own_run_ends:
  assumes "wire_ok w"
  shows "stopped_ok w K s \<Longrightarrow> \<exists>k t. (own_step w ^^ k) s t \<and> (\<forall>u. \<not> own_step w t u)"
proof (induction s rule: measure_induct_rule [of workLeft])
  case (less s)
  show ?case
  proof (cases "\<exists>r. own_step w s r")
    case True
    then obtain r where r: "own_step w s r" by blast
    with less own_step_ok [OF assms less.prems r] obtain k t where
      "(own_step w ^^ k) r t" "\<forall>u. \<not> own_step w t u" by blast
    with r show ?thesis by (intro exI [of _ "Suc k"]) (blast intro: relpowp_Suc_I2)
  next
    case False
    then show ?thesis by (intro exI [of _ 0]) auto
  qed
qed

lemma finish_total:
  assumes "rpc m \<noteq> None"
  shows "(\<exists>tx m'. finish w K lf amt feeRate m tx0 cs = (Ok tx, m')) \<or>
    (\<exists>e m'. finish w K lf amt feeRate m tx0 cs = (Err e, m'))"
proof -
  have "(\<exists>a m'. newAddress K lf m = (Ok a, m')) \<or> (\<exists>e m'. newAddress K lf m = (Err e, m'))"
    using assms by (auto simp: newAddress_def Let_def split: sum.splits option.splits)
  then show ?thesis by (auto simp: finish_def Let_def)
qed

text \<open>
  C31: With a client set, \<open>CreateTransaction\<close> always returns, and never panics: the result is a
  transaction or an error.
\<close>

theorem create_total:
  assumes "wire_ok w" "rpc m \<noteq> None"
  shows "\<exists>r m'. CreateTransaction w K lf ks outputs feeRate m = (r, m')
    \<and> ((\<exists>tx. r = Ok tx) \<or> (\<exists>e. r = Err e))"
proof -
  let ?fund = "fundTx w K lf ks (baseTx w outputs) (outputAmount outputs) feeRate m"
  have t: "tallyOutputs w outputs 0 (NewMsgTx w) = (outputAmount outputs, baseTx w outputs)"
    by (simp add: tallyOutputs_closed [OF assms(1)] outputAmount_def baseTx_def wire_okD [OF assms(1)])
  show ?thesis
  proof (cases "firstEnough (enough w (outputAmount outputs) feeRate m (baseTx w outputs)) []
      (filter (spendableAt m) ks)")
    case None
    then show ?thesis by (simp add: CreateTransaction_def t fundTx_reference [OF assms(1)])
  next
    case (Some cs)
    have present: "utxos m p \<noteq> None" if "p \<in> set cs" for p
      using firstEnough_Some [OF Some] that set_take_subset
      by (fastforce simp: spendableAt_def split: option.splits)
    have sign: "(\<exists>x. signInputs K m1 i ins tx sp = Ok x) \<or> (\<exists>e. signInputs K m1 i ins tx sp = Err e)"
      if "\<forall>j \<in> set ins. utxos m1 (PreviousOutPoint j) \<noteq> None" for m1 i ins tx sp
      using that
      by (induction ins arbitrary: i tx sp) (auto simp: Let_def split: option.splits sum.splits)
    have fund: "?fund = finish w K lf (outputAmount outputs) feeRate m (baseTx w outputs) cs"
      using Some by (simp add: fundTx_reference [OF assms(1)])
    consider tx1 m1 where "?fund = (Ok tx1, m1)" | e m1 where "?fund = (Err e, m1)"
      unfolding fund using finish_total [OF assms(2)] by meson
    then show ?thesis
    proof cases
      case (1 tx1 m1)
      note fin = finish_Ok [OF 1 [unfolded fund]]
      have "\<forall>j \<in> set (TxIn tx1). utxos m1 (PreviousOutPoint j) \<noteq> None"
        using fin(1,2) present by (auto simp: baseTx_def wire_okD [OF assms(1)] coinInput_def)
      from sign [OF this, of 0 tx1 "[]"] 1 show ?thesis by (auto simp: CreateTransaction_def t)
    next
      case (2 e m1)
      then show ?thesis by (simp add: CreateTransaction_def t)
    qed
  qed
qed

text \<open>
  A fresh address. \<open>NewAddress\<close> returns an address only after the node has accepted it in
  its transaction filter; it is the address of the next key index, and it is recorded under
  that index, which is then advanced. If the call fails, addresses and index are as before.
\<close>

lemma new_address_loaded_and_recorded:
  assumes "NewAddress K lf m = (r, m')"
  shows "(case r of
      Ok addr \<Rightarrow> lf addr = None \<and> keyAddr K (hdRoot m) (hdIndex m) = Inr addr
        \<and> addrs m' = (addrs m)(hdIndex m \<mapsto> addr) \<and> hdIndex m' = hdIndex m + 1
        \<and> rpcLog m' = rpcLog m @ [LoadTxFilter addr] \<and> utxos m' = utxos m
    | _ \<Rightarrow> addrs m' = addrs m \<and> hdIndex m' = hdIndex m \<and> utxos m' = utxos m)"
  using assms newAddress_OkD [of K lf m _ m'] newAddress_notOk [of K lf m r m']
    newAddress_frame [of K lf m r m']
  by (cases r) (auto simp: NewAddress_def)

end
