(* ===== verification/WalletInit.thy ===== *)
theory WalletInit
  imports WalletSystem
begin

text \<open>
  The construction of the wallet: the seed of its key chain and the result when the master key
  cannot be made; and the witnesses for the properties of \<open>WalletSystem\<close>, over a run of the
  system that starts with a constructed wallet.
\<close>

section \<open>The seed\<close>

definition bytesBE :: "u32 \<Rightarrow> bytes" where
  "bytesBE v = [ucast (drop_bit 24 v), ucast (drop_bit 16 v), ucast (drop_bit 8 v), ucast v]"

lemma harnessHDSeed_closed: "harnessHDSeed v = bytesBE v @ drop 4 hdSeed @ [0, 0, 0, 0]"
  by (simp add: harnessHDSeed_def copy_into_def putUint32BE_def bytesBE_def hdSeed_def Let_def
      numeral_eq_Suc)

lemma byte_bits:
  fixes a b :: u32
  assumes "(ucast (drop_bit k a) :: byte) = ucast (drop_bit k b)" "k \<le> n" "n < k + 8"
  shows "bit a n = bit b n"
proof -
  have "bit (ucast (drop_bit k a) :: byte) (n - k) = bit (ucast (drop_bit k b) :: byte) (n - k)"
    by (simp add: assms(1))
  moreover have "n - k < 8" using assms(2,3) by simp
  ultimately show ?thesis using assms(2) by (simp add: bit_ucast_iff bit_drop_bit_eq)
qed

lemma bytesBE_inject: "bytesBE a = bytesBE b \<Longrightarrow> a = b"
proof (rule bit_word_eqI)
  fix n
  assume eq: "bytesBE a = bytesBE b" and "n < LENGTH(32)"
  then consider "24 \<le> n" "n < 24 + 8" | "16 \<le> n" "n < 16 + 8" | "8 \<le> n" "n < 8 + 8"
    | "0 \<le> n" "n < 0 + 8"
    by fastforce
  then show "bit a n = bit b n"
    using eq byte_bits [of 24 a b n] byte_bits [of 16 a b n] byte_bits [of 8 a b n]
      byte_bits [of 0 a b n]
    by cases (simp_all add: bytesBE_def)
qed

text \<open>
  The seed of a harness' wallet is deterministic, 36 bytes long, and different for
  different harness ids; the id is written over the first four bytes of the fixed seed and the
  last four bytes stay zero, so that the seed is never the fixed seed followed by the id.
\<close>

lemma harness_seed:
  "length (harnessHDSeed a) = 36 \<and> (harnessHDSeed a = harnessHDSeed b \<longleftrightarrow> a = b)
    \<and> harnessHDSeed a = bytesBE a @ drop 4 hdSeed @ [0, 0, 0, 0]
    \<and> harnessHDSeed a \<noteq> hdSeed @ bytesBE a"
proof -
  have "harnessHDSeed a = harnessHDSeed b \<Longrightarrow> a = b"
    by (rule bytesBE_inject) (simp add: harnessHDSeed_closed bytesBE_def)
  moreover have "harnessHDSeed a \<noteq> hdSeed @ bytesBE a"
  proof
    assume eq: "harnessHDSeed a = hdSeed @ bytesBE a"
    have "harnessHDSeed a ! 3 = ucast a" "last (harnessHDSeed a) = 0"
      by (simp_all add: harnessHDSeed_closed bytesBE_def)
    moreover have "(hdSeed @ bytesBE a) ! 3 = 0xdb" "last (hdSeed @ bytesBE a) = ucast a"
      by (simp_all add: hdSeed_def bytesBE_def)
    ultimately show False using eq by simp
  qed
  ultimately show ?thesis by (auto simp: harnessHDSeed_closed bytesBE_def hdSeed_def)
qed

text \<open>
  A new wallet that is returned owns exactly its coinbase address, the address of key 0,
  holds no coins and is at height 0. If the master key cannot be made, the wallet is nil
  although the error is nil too; failures of the later steps are reported as errors.
\<close>

lemma new_wallet_result:
  "(case newMemWallet K params hid of
      Ok None \<Rightarrow> (\<exists>e. NewMaster K (harnessHDSeed hid) = Inl e)
    | Ok (Some m) \<Rightarrow> NewMaster K (harnessHDSeed hid) = Inr (hdRoot m)
        \<and> (\<exists>a. keyAddr K (hdRoot m) 0 = Inr a \<and> coinbaseAddr m = Some a \<and> addrs m = [0 \<mapsto> a])
        \<and> utxos m = Map.empty \<and> hdIndex m = 1 \<and> SyncedHeight m = 0 \<and> ConfirmedBalance [] m = 0
    | Err e \<Rightarrow> (\<exists>root. NewMaster K (harnessHDSeed hid) = Inr root \<and> keyAddr K root 0 = Inl e)
    | _ \<Rightarrow> False)"
  by (auto simp: newMemWallet_def keyAddr_def SyncedHeight_def ConfirmedBalance_def
      split: sum.splits)

section \<open>Witnesses\<close>

text \<open>A run: construct, start, ingest a block, let the syncer take it, close \<open>quit\<close>.\<close>

lemma demo_run:
  obtains s u where "reachable demo_wire demo_keys s" "\<not> panicked s" "quitClosed (wal s)"
    "syncer s = Holding u" "ingested s = [u]" "blockHeight u = 101"
    "addrs (wal s) 0 = Some (demo_address [2, 1])"
proof -
  note defs = newMemWallet_def keyToAddr_def demo_keys_def Let_def
  obtain m0 where m0: "newMemWallet demo_keys demo_net 7 = Ok (Some m0)"
    and f0: "chainUpdates m0 = []" "quitClosed m0 = False" "addrs m0 0 = Some (demo_address [2, 1])"
    by (simp add: defs)
  let ?s0 = "init_sys m0"
  have r0: "reachable demo_wire demo_keys ?s0" using m0 by (rule reachable.init)
  let ?s1 = "?s0\<lparr>wal := Start (wal ?s0), syncer := Waiting\<rparr>"
  have r1: "reachable demo_wire demo_keys ?s1"
    by (rule reachable.call [OF r0 _ call_step.start]) (simp_all add: init_sys_def)
  let ?u = "\<lparr>blockHeight = 101, filteredTxns = []\<rparr>"
  let ?m2 = "enqueueUpdate ?u (wal ?s1)"
  have i: "IngestBlock demo_wire [101] [] (wal ?s1) = Ok ?m2"
    by (simp add: IngestBlock_def demo_wire_def)
  let ?s2 = "?s1\<lparr>wal := ?m2, signallers := signallers ?s1 + 1,
      ingested := ingested ?s1 @ [last (chainUpdates ?m2)]\<rparr>"
  have r2: "reachable demo_wire demo_keys ?s2"
    by (rule reachable.call [OF r1 _ call_step.ingest [OF i]]) (simp add: init_sys_def)
  obtain m3 where p: "popUpdate (wal ?s2) = Ok (?u, m3)"
    and f3: "quitClosed m3 = False" "addrs m3 0 = Some (demo_address [2, 1])"
    by (simp add: popUpdate_def enqueueUpdate_def init_sys_def f0 Start_def)
  let ?s3 = "syncTake ?u m3 ?s2"
  have r3: "reachable demo_wire demo_keys ?s3"
    by (rule reachable.sync [OF r2 _ sync_step.take [OF _ _ p]]) (simp_all add: init_sys_def)
  let ?s4 = "?s3\<lparr>wal := m3\<lparr>quitClosed := True\<rparr>\<rparr>"
  have c: "closeQuit (wal ?s3) = Ok (m3\<lparr>quitClosed := True\<rparr>)"
    by (simp add: closeQuit_def syncTake_def f3)
  have r4: "reachable demo_wire demo_keys ?s4"
    by (rule reachable.call [OF r3 _ call_step.stop [OF c]]) (simp add: init_sys_def syncTake_def)
  show thesis
    by (rule that [of ?s4 ?u, OF r4])
       (simp_all add: syncTake_def init_sys_def enqueueUpdate_def f0 f3 Start_def)
qed

theorem reachable_wallet_consistent_witness:
  "\<exists>s. reachable demo_wire demo_keys s \<and> keyAddr demo_keys (hdRoot (wal s)) 0 = Inr (demo_address [2, 1])
     \<and> wg (wal s) = 1"
proof -
  obtain s u where s: "reachable demo_wire demo_keys s" "syncer s = Holding u"
    "addrs (wal s) 0 = Some (demo_address [2, 1])"
    using demo_run by metis
  from reachable_wallet_consistent [OF demo_wire_ok s(1)] s show ?thesis by auto
qed

theorem updates_applied_in_order_witness:
  "\<exists>s u. reachable demo_wire demo_keys s \<and> blockHeight u = 101 \<and>
     ingested s = [u] \<and> [u] = processed s @ held (syncer s) @ chainUpdates (wal s)"
proof -
  obtain s u where s: "reachable demo_wire demo_keys s" "ingested s = [u]" "blockHeight u = 101"
    using demo_run by metis
  from updates_applied_in_order [OF demo_wire_ok s(1)] s show ?thesis by metis
qed

theorem stop_completes_witness:
  "\<exists>s u k t. reachable demo_wire demo_keys s \<and> syncer s = Holding u \<and>
     (own_step demo_wire ^^ k) s t \<and> wg (wal t) = 0 \<and> \<not> panicked t"
proof -
  obtain s u where s: "reachable demo_wire demo_keys s" "\<not> panicked s" "quitClosed (wal s)"
    "syncer s = Holding u"
    using demo_run by metis
  then have "stopped_ok demo_wire demo_keys s" by (simp add: stopped_ok_def)
  then obtain k t where t: "(own_step demo_wire ^^ k) s t" "\<forall>u. \<not> own_step demo_wire t u"
    using own_run_ends [OF demo_wire_ok] by blast
  from stop_completes [OF demo_wire_ok s(1,3,2) t(1)] t s show ?thesis by blast
qed

theorem create_total_witness:
  "\<exists>r m'. CreateTransaction demo_wire demo_keys (\<lambda>_. None) demo_order [] 1 demo_wallet = (r, m')
    \<and> (is_ok r \<or> (\<exists>e. r = Err e))"
proof -
  have "rpc demo_wallet \<noteq> None" by (simp add: demo_wallet_def)
  from create_total [OF demo_wire_ok this, of demo_keys "\<lambda>_. None" demo_order "[]" 1]
  show ?thesis by auto
qed

end
