(* ===== verification/VotingWallet.thy ===== *)
theory VotingWallet
  imports MemWallet "HOL-Library.Signed_Division"
begin

text \<open>
  The voting wallet of \<open>votingwallet.go\<close>: its state, the purchase of tickets when a block is
  connected, the votes when tickets win, and the generation of blocks.

  The node is part of the world \<open>'s\<close>; \<open>vote_api\<close> holds the functions of \<open>stake\<close>, \<open>txscript\<close>,
  \<open>standalone\<close> and \<open>stdaddr\<close> and the RPC calls of the wallet's own client.
\<close>

section \<open>The functions of other packages\<close>

record 's vote_api =
  Hash160Of :: "bytes \<Rightarrow> bytes"
  NewAddressPubKeyHash :: "bytes \<Rightarrow> net_params \<Rightarrow> address ext"
  RewardCommitmentScript :: "address \<Rightarrow> int \<Rightarrow> int \<Rightarrow> int \<Rightarrow> u16 \<times> bytes"
  GenerateSSGenVotes :: "u16 \<Rightarrow> bytes ext"
  GenerateSSGenBlockRef :: "bytes \<Rightarrow> u32 \<Rightarrow> bytes ext"
  CalcStakeVoteSubsidy :: "net_params \<Rightarrow> int \<Rightarrow> int"
  OpReturnScript :: "bytes \<Rightarrow> bytes ext"
  CheckSSGen :: "msgtx \<Rightarrow> goerr option"
  SendRawTransactionAsync :: "msgtx \<Rightarrow> 's \<Rightarrow> bytes ext \<times> 's"
  DialClient :: "nat \<Rightarrow> 's \<Rightarrow> unit ext \<times> 's"
  NotifyBlocksCall :: "'s \<Rightarrow> unit ext \<times> 's"
  NotifyWinningTicketsCall :: "'s \<Rightarrow> unit ext \<times> 's"
  GetBestBlock :: "'s \<Rightarrow> int ext \<times> 's"
  MempoolTickets :: "'s \<Rightarrow> bytes list ext \<times> 's"
  MempoolVotes :: "'s \<Rightarrow> bytes list ext \<times> 's"
  ClientGenerate :: "u32 \<Rightarrow> 's \<Rightarrow> bytes list ext \<times> 's"

section \<open>Constants and state\<close>

definition feeRate :: int where
  "feeRate = 10000"

definition hardcodedPrivateKey :: bytes where
  "hardcodedPrivateKey =
     [0x79, 0xa6, 0x1a, 0xdb, 0xc6, 0xe5, 0xa2, 0xe1,
      0x39, 0xd2, 0x71, 0x3a, 0x54, 0x6e, 0xc7, 0xc8,
      0x75, 0x63, 0x2e, 0x75, 0xf1, 0xdf, 0x9c, 0x3f,
      0xa6, 0x01, 0x00, 0x00, 0x00, 0x00, 0x00, 0x00]"

definition nullPay2SSTXChange :: bytes where
  "nullPay2SSTXChange =
     [0xbd, 0xa9, 0x14, 0x00, 0x00, 0x00, 0x00, 0x00,
      0x00, 0x00, 0x00, 0x00, 0x00, 0x00, 0x00, 0x00,
      0x00, 0x00, 0x00, 0x00, 0x00, 0x00, 0x00, 0x87]"

text \<open>\<open>wire.OutPoint{Index: math.MaxUint32}\<close>\<close>

definition stakebaseOutPoint :: outpoint where
  "stakebaseOutPoint = OutPoint (replicate 32 0) (- 1) 0"

definition commitAmountMultiplier :: int where
  "commitAmountMultiplier = 4"

text \<open>The constants \<open>TxTreeRegular\<close>, \<open>TxTreeStake\<close>, \<open>NullValueIn\<close> and the versions of \<open>wire\<close>.\<close>

definition treeRegular :: byte where
  "treeRegular = 0"

definition treeStake :: byte where
  "treeStake = 1"

definition nullValueIn :: int where
  "nullValueIn = - 1"

definition txVersion :: u16 where
  "txVersion = 1"

definition txVersionTreasury :: u16 where
  "txVersionTreasury = 3"

record ticketInfo =
  ticketPrice :: int

record utxoInfo =
  outpoint :: outpoint
  amount :: int

record winningTicketsNtfn =
  ntfnBlockHash :: bytes
  ntfnBlockHeight :: int
  winningTickets :: "bytes list"

record blockConnectedNtfn =
  blockHeader :: bytes
  transactions :: "bytes list"

text \<open>
  \<open>reported\<close> are the errors handed to the error reporter, in order, and \<open>errorReporter\<close> says
  whether there is one. A treasury vote is the hash of a tspend and the vote for it. \<open>'m\<close> is the
  type of the miner function.
\<close>

record 'm voting_wallet =
  activeNet :: net_params
  privateKey :: bytes
  vwAddress :: address
  p2sstxVer :: u16
  p2sstx :: bytes
  commitScriptVer :: u16
  commitScript :: bytes
  p2pkh :: bytes
  p2pkhVer :: u16
  voteScriptVer :: u16
  voteScript :: bytes
  voteRetScriptVer :: u16
  voteRetScript :: bytes
  errorReporter :: bool
  reported :: "goerr list"
  vwMiner :: "'m option"
  vwUtxos :: "utxoInfo list"
  tickets :: "bytes \<rightharpoonup> ticketInfo"
  maturingVotes :: "int \<rightharpoonup> utxoInfo list"
  tspendVotes :: "(bytes \<times> byte) list"
  limitNbVotes :: int

section \<open>Parameters of the schedule\<close>

definition ticketPurchaseStartHeight :: "net_params \<Rightarrow> int" where
  "ticketPurchaseStartHeight params = i64 (i64 (StakeValidationHeight params - uint (TicketMaturity params)) - 2)"

text \<open>The arithmetic is in \<open>uint16\<close>, the type of the three parameters.\<close>

definition requiredTicketCount :: "net_params \<Rightarrow> int" where
  "requiredTicketCount params =
     uint ((CoinbaseMaturity params + TicketMaturity params + 2) * TicketsPerBlock params)"

section \<open>Construction\<close>

text \<open>
  The retries of \<open>NewVotingWallet\<close>: \<open>DialClient i\<close> is attempt \<open>i\<close> with the pause after it if it
  fails.
\<close>

fun dialLoop :: "'s vote_api \<Rightarrow> nat \<Rightarrow> nat \<Rightarrow> 's \<Rightarrow> unit option \<times> 's" where
  "dialLoop api 0 i s = (None, s)"
| "dialLoop api (Suc n) i s =
     (case DialClient api i s of
        (Inl err, s) \<Rightarrow> dialLoop api n (Suc i) s
      | (Inr c, s) \<Rightarrow> (Some c, s))"

definition newWalletState :: "'k key_api \<Rightarrow> 's vote_api \<Rightarrow> net_params \<Rightarrow> 'm voting_wallet ext" where
  "newWalletState K api params =
     (let serPub = PubKeyCompressed K (PrivKeyFromBytes K hardcodedPrivateKey);
          h160 = Hash160Of api serPub in
      case NewAddressPubKeyHash api h160 params of
        Inl err \<Rightarrow> Inl (Wrap ''unable to generate address for pubkey'' err)
      | Inr addr \<Rightarrow>
          (let commitAmount = i64 (MinimumStakeDiff params * commitAmountMultiplier);
               commit = RewardCommitmentScript api addr commitAmount 0 16777216 in
           case GenerateSSGenVotes api 1 of
             Inl err \<Rightarrow> Inl (Wrap ''unable to prepare vote script'' err)
           | Inr script \<Rightarrow>
               Inr \<lparr>activeNet = params, privateKey = hardcodedPrivateKey, vwAddress = addr,
                 p2sstxVer = fst (VotingRightsScript addr), p2sstx = snd (VotingRightsScript addr),
                 commitScriptVer = fst commit, commitScript = snd commit,
                 p2pkh = snd (PaymentScript addr), p2pkhVer = fst (PaymentScript addr),
                 voteScriptVer = 0, voteScript = script,
                 voteRetScriptVer = fst (PayVoteCommitmentScript addr),
                 voteRetScript = snd (PayVoteCommitmentScript addr),
                 errorReporter = False, reported = [], vwMiner = None, vwUtxos = [],
                 tickets = Map.empty, maturingVotes = Map.empty, tspendVotes = [],
                 limitNbVotes = uint (TicketsPerBlock params)\<rparr>))"

definition NewVotingWallet :: "'k key_api \<Rightarrow> 's vote_api \<Rightarrow> net_params \<Rightarrow> 's \<Rightarrow>
    'm voting_wallet ext \<times> 's" where
  "NewVotingWallet K api params s =
     (case newWalletState K api params of
        Inl err \<Rightarrow> (Inl err, s)
      | Inr w \<Rightarrow>
          (case dialLoop api 20 0 s of
             (None, s) \<Rightarrow> (Inl (Msg ''unable to connect to miner node''), s)
           | (Some _, s) \<Rightarrow>
               (case NotifyBlocksCall api s of
                  (Inl err, s) \<Rightarrow> (Inl (Wrap ''unable to subscribe to block notifications'' err), s)
                | (Inr _, s) \<Rightarrow>
                    (case NotifyWinningTicketsCall api s of
                       (Inl err, s) \<Rightarrow>
                         (Inl (Wrap ''unable to subscribe to winning tickets notification'' err), s)
                     | (Inr _, s) \<Rightarrow> (Inr w, s)))))"

text \<open>
  \<open>Start\<close> funds the wallet through the in-memory wallet \<open>m\<close> of the harness. The goroutine it
  launches is \<open>handleNotifications\<close> below.
\<close>

definition fundingValue :: "'m voting_wallet \<Rightarrow> int" where
  "fundingValue vw = i64 (MinimumStakeDiff (activeNet vw) * commitAmountMultiplier)"

definition fundingUtxos :: "bytes \<Rightarrow> int \<Rightarrow> int \<Rightarrow> utxoInfo list" where
  "fundingUtxos txid value nbOutputs =
     map (\<lambda>i. \<lparr>outpoint = OutPoint txid (of_nat i) treeRegular, amount = value\<rparr>) [0..<nat nbOutputs]"

definition startVoting :: "wire_api \<Rightarrow> 'k key_api \<Rightarrow> (address \<Rightarrow> goerr option) \<Rightarrow>
    (msgtx \<Rightarrow> bytes ext) \<Rightarrow> outpoint list \<Rightarrow> 'k mem_wallet \<Rightarrow> 'm voting_wallet \<Rightarrow>
    'm voting_wallet res \<times> 'k mem_wallet" where
  "startVoting w K lf sendRaw ks m vw =
     (let value = fundingValue vw;
          nbOutputs = requiredTicketCount (activeNet vw);
          outputs = map (\<lambda>i. NewTxOut w value (p2pkh vw)) [0..<nat nbOutputs] in
      case SendOutputs w K lf sendRaw ks outputs feeRate m of
        (Err err, m) \<Rightarrow> (Err (Wrap ''unable to fund voting wallet'' err), m)
      | (Ok txid, m) \<Rightarrow> (Ok (vw\<lparr>vwUtxos := fundingUtxos txid value nbOutputs\<rparr>), m)
      | (Panic p, m) \<Rightarrow> (Panic p, m)
      | (Blocked, m) \<Rightarrow> (Blocked, m))"

section \<open>Setters\<close>

definition SetErrorReporting :: "bool \<Rightarrow> 'm voting_wallet \<Rightarrow> 'm voting_wallet" where
  "SetErrorReporting f vw = vw\<lparr>errorReporter := f\<rparr>"

definition SetMiner :: "'m option \<Rightarrow> 'm voting_wallet \<Rightarrow> 'm voting_wallet" where
  "SetMiner f vw = vw\<lparr>vwMiner := f\<rparr>"

definition VoteForTSpends :: "(bytes \<times> byte) list \<Rightarrow> 'm voting_wallet \<Rightarrow> 'm voting_wallet" where
  "VoteForTSpends votes vw = vw\<lparr>tspendVotes := votes\<rparr>"

definition LimitNbVotes :: "int \<Rightarrow> 'm voting_wallet \<Rightarrow> goerr option \<times> 'm voting_wallet" where
  "LimitNbVotes newLimit vw =
     (if newLimit < 0 then (Some (Msg ''cannot use negative number of votes''), vw)
      else if newLimit > limitNbVotes vw then (Some (Msg ''cannot increase number of votes''), vw)
      else (None, vw\<lparr>limitNbVotes := newLimit\<rparr>))"

definition logError :: "goerr \<Rightarrow> 'm voting_wallet \<Rightarrow> 'm voting_wallet" where
  "logError err vw = (if errorReporter vw then vw\<lparr>reported := reported vw @ [err]\<rparr> else vw)"

section \<open>Buying tickets\<close>

text \<open>The zero value of \<open>wire.MsgTx\<close>, and \<open>newTxOut\<close>.\<close>

definition zeroTx :: msgtx where
  "zeroTx = \<lparr>msgVersion = 0, TxIn = [], TxOut = []\<rparr>"

definition newTxOut :: "int \<Rightarrow> u16 \<Rightarrow> bytes \<Rightarrow> txout" where
  "newTxOut amt pkScriptVer script = \<lparr>Value = amt, outVersion = pkScriptVer, PkScript = script\<rparr>"

definition setSigScript :: "nat \<Rightarrow> bytes \<Rightarrow> msgtx \<Rightarrow> msgtx" where
  "setSigScript i sig tx = tx\<lparr>TxIn := (TxIn tx)[i := (TxIn tx ! i)\<lparr>SignatureScript := sig\<rparr>]\<rparr>"

definition ticketTx :: "wire_api \<Rightarrow> 'm voting_wallet \<Rightarrow> int \<Rightarrow> utxoInfo \<Rightarrow> msgtx" where
  "ticketTx w vw price u =
     (let commitAmount = i64 (MinimumStakeDiff (activeNet vw) * commitAmountMultiplier);
          changeAmount = i64 (amount u - commitAmount);
          t = zeroTx\<lparr>msgVersion := txVersion\<rparr>;
          t = AddTxIn w t (NewTxIn w (outpoint u) nullValueIn []);
          t = AddTxOut w t (newTxOut price (p2sstxVer vw) (p2sstx vw));
          t = AddTxOut w t (newTxOut 0 (commitScriptVer vw) (commitScript vw))
      in AddTxOut w t (NewTxOut w changeAmount nullPay2SSTXChange))"

definition signTicket :: "'k key_api \<Rightarrow> 'm voting_wallet \<Rightarrow> utxoInfo \<Rightarrow> msgtx \<Rightarrow> msgtx ext" where
  "signTicket K vw u t =
     (let prevScript = (if opTree (outpoint u) = treeStake then voteRetScript vw else p2pkh vw) in
      case SignScript K t 0 prevScript (privateKey vw) of
        Inl err \<Rightarrow> Inl (Wrap ''failed to sign ticket tx'' err)
      | Inr sig \<Rightarrow> Inr (setSigScript 0 sig t))"

fun buildTickets :: "wire_api \<Rightarrow> 'k key_api \<Rightarrow> 'm voting_wallet \<Rightarrow> int \<Rightarrow> utxoInfo list \<Rightarrow>
    msgtx list ext" where
  "buildTickets w K vw price [] = Inr []"
| "buildTickets w K vw price (u # us) =
     (case signTicket K vw u (ticketTx w vw price u) of
        Inl err \<Rightarrow> Inl err
      | Inr t \<Rightarrow> map_sum id ((#) t) (buildTickets w K vw price us))"

text \<open>All transactions are sent before the first answer is looked at.\<close>

fun sendAll :: "'s vote_api \<Rightarrow> msgtx list \<Rightarrow> 's \<Rightarrow> bytes ext list \<times> 's" where
  "sendAll api [] s = ([], s)"
| "sendAll api (tx # txs) s =
     (case SendRawTransactionAsync api tx s of
        (q, s) \<Rightarrow> (case sendAll api txs s of (qs, s) \<Rightarrow> (q # qs, s)))"

text \<open>The flag says that the loop has run to its end.\<close>

fun receiveTickets :: "int \<Rightarrow> bytes ext list \<Rightarrow> 'm voting_wallet \<Rightarrow> bool \<times> 'm voting_wallet" where
  "receiveTickets price [] vw = (True, vw)"
| "receiveTickets price (q # qs) vw =
     (case q of
        Inl err \<Rightarrow> (False, logError (Wrap ''unable to send ticket tx'' err) vw)
      | Inr h \<Rightarrow> receiveTickets price qs (vw\<lparr>tickets := (tickets vw)(h \<mapsto> \<lparr>ticketPrice = price\<rparr>)\<rparr>))"

definition releaseMaturing :: "int \<Rightarrow> 'm voting_wallet \<Rightarrow> 'm voting_wallet" where
  "releaseMaturing height vw =
     (case maturingVotes vw height of
        None \<Rightarrow> vw
      | Some us \<Rightarrow> vw\<lparr>vwUtxos := vwUtxos vw @ us,
                     maturingVotes := (maturingVotes vw)(height := None)\<rparr>)"

definition handleBlockConnectedNtfn :: "wire_api \<Rightarrow> 'k key_api \<Rightarrow> 's vote_api \<Rightarrow>
    blockConnectedNtfn \<Rightarrow> 'm voting_wallet \<Rightarrow> 's \<Rightarrow> 'm voting_wallet \<times> 's" where
  "handleBlockConnectedNtfn w K api ntfn vw s =
     (case HeaderFromBytes w (blockHeader ntfn) of
        Inl err \<Rightarrow> (logError err vw, s)
      | Inr hdr \<Rightarrow>
     (let height = uint (hdrHeight hdr);
          nbTickets = unat (TicketsPerBlock (activeNet vw)) in
      if height < ticketPurchaseStartHeight (activeNet vw) then (vw, s)
      else if length (vwUtxos vw) < nbTickets then
        (logError (Msg ''number of available utxos less than number of tickets to purchase'') vw, s)
      else
     (let price = i64 (SBits hdr + SBits hdr sdiv 6);
          keep = length (vwUtxos vw) - nbTickets;
          us = drop keep (vwUtxos vw);
          vw = vw\<lparr>vwUtxos := take keep (vwUtxos vw)\<rparr> in
      case buildTickets w K vw price us of
        Inl err \<Rightarrow> (logError err vw, s)
      | Inr txs \<Rightarrow>
          (case sendAll api txs s of
             (qs, s) \<Rightarrow>
               (case receiveTickets price qs vw of
                  (False, vw) \<Rightarrow> (vw, s)
                | (True, vw) \<Rightarrow> (releaseMaturing height vw, s))))))"

section \<open>Voting\<close>

definition tspendData :: "(bytes \<times> byte) list \<Rightarrow> bytes" where
  "tspendData votes = [84, 86] @ concat (map (\<lambda>(hash, vote). hash @ [vote]) votes)"

text \<open>The vote before the tspend output.\<close>

definition voteBase :: "wire_api \<Rightarrow> 'm voting_wallet \<Rightarrow> bytes \<Rightarrow> int \<Rightarrow> bytes \<Rightarrow> ticketInfo \<Rightarrow> msgtx" where
  "voteBase w vw blockRefScript stakebaseValue wt ticket =
     (let voteRetValue = i64 (ticketPrice ticket + stakebaseValue);
          v = zeroTx\<lparr>msgVersion := txVersion\<rparr>;
          v = AddTxIn w v (NewTxIn w stakebaseOutPoint stakebaseValue (StakeBaseSigScript (activeNet vw)));
          v = AddTxIn w v (NewTxIn w (OutPoint wt 0 treeStake) nullValueIn []);
          v = AddTxOut w v (NewTxOut w 0 blockRefScript);
          v = AddTxOut w v (newTxOut 0 (voteScriptVer vw) (voteScript vw))
      in AddTxOut w v (newTxOut voteRetValue (voteRetScriptVer vw) (voteRetScript vw)))"

definition addTSpends :: "wire_api \<Rightarrow> 's vote_api \<Rightarrow> 'm voting_wallet \<Rightarrow> msgtx \<Rightarrow> msgtx ext" where
  "addTSpends w api vw v =
     (if tspendVotes vw = [] then Inr v
      else case OpReturnScript api (tspendData (tspendVotes vw)) of
        Inl err \<Rightarrow> Inl (Wrap ''unable to construct vote script'' err)
      | Inr script \<Rightarrow> Inr ((AddTxOut w v (NewTxOut w 0 script))\<lparr>msgVersion := txVersionTreasury\<rparr>))"

definition finishVote :: "wire_api \<Rightarrow> 'k key_api \<Rightarrow> 's vote_api \<Rightarrow> 'm voting_wallet \<Rightarrow> msgtx \<Rightarrow>
    msgtx ext" where
  "finishVote w K api vw v =
     (case addTSpends w api vw v of
        Inl err \<Rightarrow> Inl err
      | Inr v \<Rightarrow>
          (case SignScript K v 1 (p2sstx vw) (privateKey vw) of
             Inl err \<Rightarrow> Inl (Wrap ''failed to sign ticket tx'' err)
           | Inr sig \<Rightarrow>
               (let v = setSigScript 1 sig v in
                case CheckSSGen api v of
                  Some err \<Rightarrow> Inl (Wrap ''transaction is not a valid vote'' err)
                | None \<Rightarrow> Inr v)))"

text \<open>
  The loop over the winning tickets; \<open>votes\<close> are those made so far, the first \<open>nbVotes\<close> elements
  of the slice of length \<open>limitNbVotes\<close>.
\<close>

fun voteLoop :: "wire_api \<Rightarrow> 'k key_api \<Rightarrow> 's vote_api \<Rightarrow> 'm voting_wallet \<Rightarrow> bytes \<Rightarrow> int \<Rightarrow>
    bytes list \<Rightarrow> msgtx list \<Rightarrow> msgtx list res" where
  "voteLoop w K api vw blockRef stakebaseValue [] votes = Ok votes"
| "voteLoop w K api vw blockRef stakebaseValue (wt # wts) votes =
     (case tickets vw wt of
        None \<Rightarrow> voteLoop w K api vw blockRef stakebaseValue wts votes
      | Some ticket \<Rightarrow>
          (if int (length votes) \<ge> limitNbVotes vw then Panic IndexOutOfRange
           else
             (case finishVote w K api vw (voteBase w vw blockRef stakebaseValue wt ticket) of
                Inl err \<Rightarrow> Err err
              | Inr v \<Rightarrow>
                  (let votes = votes @ [v] in
                   if int (length votes) \<ge> limitNbVotes vw then Ok votes
                   else voteLoop w K api vw blockRef stakebaseValue wts votes))))"

fun receiveVotes :: "bytes ext list \<Rightarrow> msgtx list \<Rightarrow> utxoInfo list ext" where
  "receiveVotes (q # qs) (v # vs) =
     (case q of
        Inl err \<Rightarrow> Inl (Wrap ''unable to send vote tx'' err)
      | Inr h \<Rightarrow>
          map_sum id ((#) \<lparr>outpoint = OutPoint h 2 treeStake, amount = Value (TxOut v ! 2)\<rparr>)
            (receiveVotes qs vs))"
| "receiveVotes _ _ = Inr []"

definition handleWinningTicketsNtfn :: "wire_api \<Rightarrow> 'k key_api \<Rightarrow> 's vote_api \<Rightarrow>
    winningTicketsNtfn \<Rightarrow> 'm voting_wallet \<Rightarrow> 's \<Rightarrow> 'm voting_wallet res \<times> 's" where
  "handleWinningTicketsNtfn w K api ntfn vw s =
     (case GenerateSSGenBlockRef api (ntfnBlockHash ntfn) (word_of_int (ntfnBlockHeight ntfn)) of
        Inl err \<Rightarrow> (Ok (logError (Wrap ''unable to generate ssgen block ref'' err) vw), s)
      | Inr blockRef \<Rightarrow>
     (let stakebaseValue = CalcStakeVoteSubsidy api (activeNet vw) (ntfnBlockHeight ntfn) in
      case voteLoop w K api vw blockRef stakebaseValue (winningTickets ntfn) [] of
        Err err \<Rightarrow> (Ok (logError err vw), s)
      | Panic p \<Rightarrow> (Panic p, s)
      | Blocked \<Rightarrow> (Blocked, s)
      | Ok votes \<Rightarrow>
          (case sendAll api votes s of
             (qs, s) \<Rightarrow>
               (case receiveVotes qs votes of
                  Inl err \<Rightarrow> (Ok (logError err vw), s)
                | Inr newUtxos \<Rightarrow>
                    (let maturingHeight = i64 (ntfnBlockHeight ntfn + uint (CoinbaseMaturity (activeNet vw)))
                     in (Ok (vw\<lparr>maturingVotes := (maturingVotes vw)(maturingHeight \<mapsto> newUtxos)\<rparr>), s))))))"

section \<open>Notifications\<close>

text \<open>
  The two channels of the wallet hold twenty notifications each; a callback blocks (\<open>None\<close>) while
  its channel is full. \<open>handleNotifications\<close> takes from either channel or stops when the context is
  done.
\<close>

definition bufferLen :: nat where
  "bufferLen = 20"

record ('m, 's) voting_system =
  votingWallet :: "'m voting_wallet"
  vwWorld :: 's
  blockConnectedNtfnChan :: "blockConnectedNtfn list"
  winningTicketsNtfnChan :: "winningTicketsNtfn list"
  handling :: bool

definition onBlockConnected :: "bytes \<Rightarrow> bytes list \<Rightarrow> ('m, 's) voting_system \<Rightarrow>
    ('m, 's) voting_system option" where
  "onBlockConnected hdr txs y =
     (if length (blockConnectedNtfnChan y) < bufferLen then
        Some (y\<lparr>blockConnectedNtfnChan :=
          blockConnectedNtfnChan y @ [\<lparr>blockHeader = hdr, transactions = txs\<rparr>]\<rparr>)
      else None)"

definition onWinningTickets :: "bytes \<Rightarrow> int \<Rightarrow> bytes list \<Rightarrow> ('m, 's) voting_system \<Rightarrow>
    ('m, 's) voting_system option" where
  "onWinningTickets blockHash height winning y =
     (if length (winningTicketsNtfnChan y) < bufferLen then
        Some (y\<lparr>winningTicketsNtfnChan := winningTicketsNtfnChan y @
          [\<lparr>ntfnBlockHash = blockHash, ntfnBlockHeight = height, winningTickets = winning\<rparr>]\<rparr>)
      else None)"

inductive handleNotifications :: "wire_api \<Rightarrow> 'k key_api \<Rightarrow> 's vote_api \<Rightarrow>
    ('m, 's) voting_system \<Rightarrow> ('m, 's) voting_system res \<Rightarrow> bool"
  for w K api where
  ctx_done: "handling y \<Longrightarrow> handleNotifications w K api y (Ok (y\<lparr>handling := False\<rparr>))"
| block_ntfn: "handling y \<Longrightarrow> blockConnectedNtfnChan y = n # ns \<Longrightarrow>
    handleBlockConnectedNtfn w K api n (votingWallet y) (vwWorld y) = (v, s) \<Longrightarrow>
    handleNotifications w K api y (Ok (y\<lparr>votingWallet := v, vwWorld := s, blockConnectedNtfnChan := ns\<rparr>))"
| winning_ntfn: "handling y \<Longrightarrow> winningTicketsNtfnChan y = n # ns \<Longrightarrow>
    handleWinningTicketsNtfn w K api n (votingWallet y) (vwWorld y) = (q, s) \<Longrightarrow>
    handleNotifications w K api y
      (map_res (\<lambda>v. y\<lparr>votingWallet := v, vwWorld := s, winningTicketsNtfnChan := ns\<rparr>) q)"

section \<open>Generating blocks\<close>

text \<open>\<open>pool, _ := GetRawMempool\<close>: on an error the slice is nil.\<close>

fun poolSize :: "bytes list ext \<Rightarrow> nat" where
  "poolSize (Inl err) = 0"
| "poolSize (Inr pool) = length pool"

text \<open>
  The wait after a block; the first argument of the loop is the number of looks at the mempool
  before the five seconds are over or the context is done.
\<close>

definition checkReqs :: "'s vote_api \<Rightarrow> int \<Rightarrow> bool \<Rightarrow> bool \<Rightarrow> 's \<Rightarrow> unit option \<times> 's" where
  "checkReqs api nbVotes needsTickets needsVotes s =
     (case MempoolTickets api s of
        (mempoolTickets, s) \<Rightarrow>
          (case MempoolVotes api s of
             (mempoolVotes, s) \<Rightarrow>
               (if (\<not> needsTickets \<or> int (poolSize mempoolTickets) \<ge> nbVotes) \<and>
                   (\<not> needsVotes \<or> int (poolSize mempoolVotes) \<ge> nbVotes)
                then Some () else None, s)))"

fun reqLoop :: "'s vote_api \<Rightarrow> int \<Rightarrow> bool \<Rightarrow> bool \<Rightarrow> nat \<Rightarrow> nat \<Rightarrow> 's \<Rightarrow> unit option \<times> 's" where
  "reqLoop api nbVotes needsTickets needsVotes 0 i s = (None, s)"
| "reqLoop api nbVotes needsTickets needsVotes (Suc n) i s =
     (case checkReqs api nbVotes needsTickets needsVotes s of
        (Some r, s) \<Rightarrow> (Some r, s)
      | (None, s) \<Rightarrow> reqLoop api nbVotes needsTickets needsVotes n (Suc i) s)"

definition notGot :: "int \<Rightarrow> int \<Rightarrow> nat \<Rightarrow> nat \<Rightarrow> string" where
  "notGot nbVotes nbTickets gotVotes gotTickets =
     (let v = (if int gotVotes \<noteq> nbVotes then [''votes''] else []);
          t = (if int gotTickets \<noteq> nbTickets then [''tickets''] else [])
      in (case v @ t of [a, b] \<Rightarrow> a @ '','' @ b | xs \<Rightarrow> concat xs))"

text \<open>\<open>stopping\<close> says whether the wait is ended by the context rather than the timeout.\<close>

definition waitReqs :: "'s vote_api \<Rightarrow> int \<Rightarrow> int \<Rightarrow> bool \<Rightarrow> bool \<Rightarrow> nat \<Rightarrow> bool \<Rightarrow> 's \<Rightarrow>
    unit ext \<times> 's" where
  "waitReqs api nbVotes nbTickets needsTickets needsVotes polls stopping s =
     (if \<not> needsVotes \<and> \<not> needsTickets then (Inr (), s)
      else case reqLoop api nbVotes needsTickets needsVotes polls 0 s of
        (Some _, s) \<Rightarrow> (Inr (), s)
      | (None, s) \<Rightarrow>
          (if stopping then (Inl (Msg ''wallet is stopping''), s)
           else
             (case MempoolTickets api s of
                (mempoolTickets, s) \<Rightarrow>
                  (case MempoolVotes api s of
                     (mempoolVotes, s) \<Rightarrow>
                       (Inl (Msg (''timeout waiting for '' @
                          notGot nbVotes nbTickets (poolSize mempoolVotes) (poolSize mempoolTickets))), s)))))"

type_synonym 's miner = "u32 \<Rightarrow> 's \<Rightarrow> bytes list ext \<times> 's"

fun genLoop :: "'s vote_api \<Rightarrow> 's miner \<Rightarrow> 's miner voting_wallet \<Rightarrow> (nat \<Rightarrow> nat \<times> bool) \<Rightarrow> int \<Rightarrow>
    nat \<Rightarrow> nat \<Rightarrow> bytes list \<Rightarrow> 's \<Rightarrow> bytes list res \<times> 's" where
  "genLoop api miner vw sched startHeight 0 i hashes s = (Ok hashes, s)"
| "genLoop api miner vw sched startHeight (Suc n) i hashes s =
     (let genHeight = i64 (i64 (startHeight + int i) + 1) in
      case miner 1 s of
        (Inl err, s) \<Rightarrow> (Err (Wrap ''unable to generate block'' err), s)
      | (Inr [], s) \<Rightarrow> (Panic IndexOutOfRange, s)
      | (Inr (h # _), s) \<Rightarrow>
          (let needsVotes = genHeight \<ge> i64 (StakeValidationHeight (activeNet vw) - 1);
               needsTickets = genHeight \<ge> ticketPurchaseStartHeight (activeNet vw) in
           case waitReqs api (limitNbVotes vw) (uint (TicketsPerBlock (activeNet vw)))
               needsTickets needsVotes (fst (sched i)) (snd (sched i)) s of
             (Inl err, s) \<Rightarrow> (Err err, s)
           | (Inr _, s) \<Rightarrow> genLoop api miner vw sched startHeight n (Suc i) (hashes @ [h]) s))"

definition GenerateBlocks :: "'s vote_api \<Rightarrow> 's miner voting_wallet \<Rightarrow> (nat \<Rightarrow> nat \<times> bool) \<Rightarrow> u32 \<Rightarrow>
    's \<Rightarrow> bytes list res \<times> 's" where
  "GenerateBlocks api vw sched nb s =
     (case GetBestBlock api s of
        (Inl err, s) \<Rightarrow> (Err err, s)
      | (Inr startHeight, s) \<Rightarrow>
          (let miner = (case vwMiner vw of None \<Rightarrow> ClientGenerate api | Some f \<Rightarrow> f)
           in genLoop api miner vw sched startHeight (unat nb) 0 [] s))"

end
