(* ===== verification/VotingRun.thy ===== *)
theory VotingRun
  imports VotingWallet
begin

text \<open>
  What the voting wallet keeps up: its supply of outputs over any number of blocks, the shape of
  its tickets and votes, and what happens on the error paths.
\<close>

section \<open>Tickets and votes that are made\<close>

text \<open>
  The services the wallet relies on when nothing fails: signing and script building succeed, a
  transaction with the inputs and outputs of a vote passes the vote check, and the node accepts
  what it is sent.
\<close>

definition voteShaped :: "msgtx \<Rightarrow> bool" where
  "voteShaped tx \<longleftrightarrow> length (TxIn tx) = 2 \<and> PreviousOutPoint (TxIn tx ! 0) = stakebaseOutPoint \<and>
     opIndex (PreviousOutPoint (TxIn tx ! 1)) = 0 \<and> opTree (PreviousOutPoint (TxIn tx ! 1)) = treeStake \<and>
     length (TxOut tx) \<in> {3, 4} \<and> Value (TxOut tx ! 0) = 0 \<and> Value (TxOut tx ! 1) = 0"

definition services_ok :: "wire_api \<Rightarrow> 'k key_api \<Rightarrow> 's vote_api \<Rightarrow> bool" where
  "services_ok w K api \<longleftrightarrow>
     wire_ok w \<and>
     (\<forall>tx i script key. \<exists>sig. SignScript K tx i script key = Inr sig) \<and>
     (\<forall>h n. \<exists>r. GenerateSSGenBlockRef api h n = Inr r) \<and>
     (\<forall>d. \<exists>r. OpReturnScript api d = Inr r) \<and>
     (\<forall>tx. voteShaped tx \<longrightarrow> CheckSSGen api tx = None) \<and>
     (\<forall>tx s. \<exists>h t. SendRawTransactionAsync api tx s = (Inr h, t))"

lemma services_okD:
  assumes "services_ok w K api"
  shows "wire_ok w" "\<exists>sig. SignScript K tx i script key = Inr sig"
    "\<exists>r. GenerateSSGenBlockRef api h n = Inr r" "\<exists>r. OpReturnScript api d = Inr r"
    "voteShaped tx \<Longrightarrow> CheckSSGen api tx = None"
    "\<exists>h t. SendRawTransactionAsync api tx s = (Inr h, t)"
  using assms by (simp_all add: services_ok_def)

lemma map_sum_Inr: "map_sum id f q = Inr y \<longleftrightarrow> (\<exists>x. q = Inr x \<and> y = f x)"
  by (cases q) auto

lemma sendAll_length: "sendAll api txs s = (qs, t) \<Longrightarrow> length qs = length txs"
  by (induction txs arbitrary: s qs) (auto split: prod.split_asm)

lemma sendAll_ok:
  assumes "services_ok w K api"
  shows "sendAll api txs s = (qs, t) \<Longrightarrow> \<forall>q \<in> set qs. \<exists>h. q = Inr h"
proof (induction txs arbitrary: s qs)
  case (Cons tx txs)
  from services_okD(6) [OF assms, of tx s] Cons show ?case by (auto split: prod.split_asm)
qed simp

lemma buildTickets_length: "buildTickets w K vw price us = Inr txs \<Longrightarrow> length txs = length us"
  by (induction us arbitrary: txs) (auto simp: map_sum_Inr split: sum.split_asm)

lemma buildTickets_ok:
  assumes "services_ok w K api"
  shows "\<exists>txs. buildTickets w K vw price us = Inr txs"
proof (induction us)
  case (Cons u us)
  from services_okD(2) [OF assms] obtain sig where
    "SignScript K (ticketTx w vw price u) 0
      (if opTree (outpoint u) = treeStake then voteRetScript vw else p2pkh vw) (privateKey vw) = Inr sig"
    by blast
  with Cons show ?case by (auto simp: signTicket_def Let_def)
qed simp

lemma receiveTickets_ok:
  "\<forall>q \<in> set qs. \<exists>h. q = Inr h \<Longrightarrow>
   \<exists>tk. receiveTickets price qs vw = (True, vw\<lparr>tickets := tk\<rparr>)"
proof (induction qs arbitrary: vw)
  case Nil
  then show ?case by (intro exI [of _ "tickets vw"]) simp
next
  case (Cons q qs)
  from Cons.prems obtain h where h: "q = Inr h" by auto
  from Cons.prems Cons.IH [of "vw\<lparr>tickets := (tickets vw)(h \<mapsto> \<lparr>ticketPrice = price\<rparr>)\<rparr>"] h
  show ?case by auto
qed

lemma receiveVotes_ok:
  "\<forall>q \<in> set qs. \<exists>h. q = Inr h \<Longrightarrow> length qs = length vs \<Longrightarrow>
   \<exists>us. receiveVotes qs vs = Inr us \<and> length us = length vs"
proof (induction qs vs rule: list_induct2')
  case (4 q qs v vs)
  then show ?case by fastforce
qed auto

lemma voteBase_shape:
  assumes "wire_ok w"
  shows "TxIn (voteBase w vw br sub wt ticket) =
      [\<lparr>PreviousOutPoint = stakebaseOutPoint, ValueIn = sub, SignatureScript = StakeBaseSigScript (activeNet vw)\<rparr>,
       \<lparr>PreviousOutPoint = OutPoint wt 0 treeStake, ValueIn = nullValueIn, SignatureScript = []\<rparr>]"
    "TxOut (voteBase w vw br sub wt ticket) =
      [\<lparr>Value = 0, outVersion = 0, PkScript = br\<rparr>,
       \<lparr>Value = 0, outVersion = voteScriptVer vw, PkScript = voteScript vw\<rparr>,
       \<lparr>Value = i64 (ticketPrice ticket + sub), outVersion = voteRetScriptVer vw, PkScript = voteRetScript vw\<rparr>]"
  by (simp_all add: voteBase_def Let_def wire_okD [OF assms] zeroTx_def newTxOut_def)

lemma finishVote_ok:
  assumes "services_ok w K api"
  shows "\<exists>v. finishVote w K api vw (voteBase w vw br sub wt ticket) = Inr v"
proof -
  note W = services_okD(1) [OF assms]
  let ?b = "voteBase w vw br sub wt ticket"
  obtain v where v: "addTSpends w api vw ?b = Inr v" "voteShaped v"
    using services_okD(4) [OF assms, of "tspendData (tspendVotes vw)"]
    by (cases "tspendVotes vw = []")
      (auto simp: addTSpends_def voteShaped_def voteBase_shape [OF W] wire_okD [OF W])
  obtain sig where s: "SignScript K v 1 (p2sstx vw) (privateKey vw) = Inr sig"
    using services_okD(2) [OF assms] by blast
  have "CheckSSGen api (setSigScript 1 sig v) = None"
    using v(2) by (intro services_okD(5) [OF assms]) (simp add: voteShaped_def setSigScript_def)
  with v s show ?thesis by (simp add: finishVote_def)
qed

text \<open>The winning tickets that belong to the wallet.\<close>

definition ownWinners :: "'m voting_wallet \<Rightarrow> bytes list \<Rightarrow> bytes list" where
  "ownWinners vw wts = filter (\<lambda>wt. tickets vw wt \<noteq> None) wts"

lemma voteLoop_ok:
  assumes "services_ok w K api" "limitNbVotes vw = int n"
  shows "length votes < n \<Longrightarrow> n \<le> length votes + length (ownWinners vw wts) \<Longrightarrow>
    \<exists>vs. voteLoop w K api vw br sub wts votes = Ok vs \<and> length vs = n"
proof (induction wts arbitrary: votes)
  case Nil
  then show ?case by (simp add: ownWinners_def)
next
  case (Cons wt wts)
  show ?case
  proof (cases "tickets vw wt")
    case None
    with Cons show ?thesis by (simp add: ownWinners_def)
  next
    case (Some ticket)
    obtain v where v: "finishVote w K api vw (voteBase w vw br sub wt ticket) = Inr v"
      using finishVote_ok [OF assms(1)] by blast
    with Some Cons assms(2) Cons.IH [of "votes @ [v]"] show ?thesis
      by (auto simp: ownWinners_def Let_def)
  qed
qed

section \<open>The supply of outputs\<close>

text \<open>
  \<open>purchaseDelay\<close> is the number of blocks from the first purchase of tickets to the one at which
  the first votes mature.
\<close>

definition purchaseDelay :: "net_params \<Rightarrow> nat" where
  "purchaseDelay params = unat (TicketMaturity params) + unat (CoinbaseMaturity params) + 1"

text \<open>The parameters for which the 16-bit product does not wrap around and heights are 32-bit.\<close>

definition params_ok :: "net_params \<Rightarrow> bool" where
  "params_ok params \<longleftrightarrow>
     (purchaseDelay params + 1) * unat (TicketsPerBlock params) < 65536 \<and>
     0 < TicketsPerBlock params \<and> 0 \<le> StakeValidationHeight params \<and> StakeValidationHeight params < 2 ^ 32"

text \<open>
  A wallet in operation, after \<open>b\<close> blocks from the start of the purchases and \<open>v\<close> heights with
  winning tickets. The notifications of each kind arrive in the order of the heights, and the two
  kinds interleave in any way in which the winning tickets of a height have been handled before
  the block at which their votes mature. At every height enough of the wallet's tickets win.
\<close>

inductive operating :: "wire_api \<Rightarrow> 'k key_api \<Rightarrow> 's vote_api \<Rightarrow> net_params \<Rightarrow>
    nat \<Rightarrow> nat \<Rightarrow> 'm voting_wallet \<Rightarrow> 's \<Rightarrow> bool"
  for w K api params where
  funded: "activeNet vw = params \<Longrightarrow> limitNbVotes vw = uint (TicketsPerBlock params) \<Longrightarrow>
    int (length (vwUtxos vw)) = requiredTicketCount params \<Longrightarrow> maturingVotes vw = Map.empty \<Longrightarrow>
    reported vw = [] \<Longrightarrow> operating w K api params 0 0 vw s"
| block_connected: "operating w K api params b v vw s \<Longrightarrow>
    HeaderFromBytes w (blockHeader ntfn) = Inr hdr \<Longrightarrow>
    uint (hdrHeight hdr) = ticketPurchaseStartHeight params + int b \<Longrightarrow>
    b < purchaseDelay params + v \<Longrightarrow>
    handleBlockConnectedNtfn w K api ntfn vw s = (vw', s') \<Longrightarrow>
    operating w K api params (Suc b) v vw' s'"
| tickets_won: "operating w K api params b v vw s \<Longrightarrow>
    ntfnBlockHeight ntfn = StakeValidationHeight params - 1 + int v \<Longrightarrow>
    ntfnBlockHeight ntfn < 2 ^ 32 \<Longrightarrow>
    unat (TicketsPerBlock params) \<le> length (ownWinners vw (winningTickets ntfn)) \<Longrightarrow>
    handleWinningTicketsNtfn w K api ntfn vw s = (Ok vw', s') \<Longrightarrow>
    operating w K api params b (Suc v) vw' s'"

definition stock :: "net_params \<Rightarrow> nat \<Rightarrow> nat" where
  "stock params b = unat (TicketsPerBlock params) *
     (if b \<le> purchaseDelay params then purchaseDelay params + 1 - b else 1)"

definition supplied :: "net_params \<Rightarrow> nat \<Rightarrow> nat \<Rightarrow> 'm voting_wallet \<Rightarrow> bool" where
  "supplied params b v vw \<longleftrightarrow>
     activeNet vw = params \<and> limitNbVotes vw = uint (TicketsPerBlock params) \<and> reported vw = [] \<and>
     length (vwUtxos vw) = stock params b \<and> b \<le> purchaseDelay params + v \<and>
     (\<forall>h. maturingVotes vw h \<noteq> None \<longrightarrow>
        ticketPurchaseStartHeight params + int (purchaseDelay params) \<le> h) \<and>
     (\<forall>j < v. b \<le> purchaseDelay params + j \<longrightarrow>
        (\<exists>us. maturingVotes vw (ticketPurchaseStartHeight params + int (purchaseDelay params + j)) = Some us
          \<and> length us = unat (TicketsPerBlock params)))"

lemma stock_Suc:
  "stock params b = unat (TicketsPerBlock params) + (if b < purchaseDelay params then stock params (Suc b) else 0)"
proof (cases "b < purchaseDelay params")
  case True
  then have "purchaseDelay params + 1 - b = Suc (purchaseDelay params + 1 - Suc b)" by simp
  with True show ?thesis by (simp add: stock_def)
next
  case False
  then show ?thesis by (auto simp: stock_def)
qed

lemma start_height:
  assumes "params_ok params"
  shows "ticketPurchaseStartHeight params = StakeValidationHeight params - uint (TicketMaturity params) - 2"
proof -
  have "in64 (StakeValidationHeight params - t)" "in64 (StakeValidationHeight params - t - 2)"
    if "0 \<le> t" "t < 65536" for t
    using assms that by (simp_all add: params_ok_def in64_def)
  from this [of "uint (TicketMaturity params)"] show ?thesis
    by (simp add: ticketPurchaseStartHeight_def)
qed

lemma required_stock:
  assumes "params_ok params"
  shows "requiredTicketCount params = int (stock params 0)"
proof -
  let ?n = "unat (CoinbaseMaturity params) + unat (TicketMaturity params) + 2"
  have prod: "?n * unat (TicketsPerBlock params) < 65536"
    using assms by (simp add: params_ok_def purchaseDelay_def algebra_simps)
  have w: "(CoinbaseMaturity params + TicketMaturity params + 2) * TicketsPerBlock params
      = of_nat (?n * unat (TicketsPerBlock params))"
    by (simp add: algebra_simps)
  have "unat (of_nat (?n * unat (TicketsPerBlock params)) :: u16) = ?n * unat (TicketsPerBlock params)"
    using prod by (simp only: unat_of_nat take_bit_eq_mod) simp
  then show ?thesis
    unfolding requiredTicketCount_def w
    by (simp add: uint_nat stock_def purchaseDelay_def algebra_simps del: of_nat_mult of_nat_add)
qed

lemma supplied_start:
  assumes "params_ok params" "activeNet vw = params" "limitNbVotes vw = uint (TicketsPerBlock params)"
    "int (length (vwUtxos vw)) = requiredTicketCount params" "maturingVotes vw = Map.empty" "reported vw = []"
  shows "supplied params 0 0 vw"
  using assms required_stock [OF assms(1)] by (simp add: supplied_def)

lemma handle_block_ok:
  assumes "services_ok w K api" "HeaderFromBytes w (blockHeader ntfn) = Inr hdr"
    "ticketPurchaseStartHeight (activeNet vw) \<le> uint (hdrHeight hdr)"
    "unat (TicketsPerBlock (activeNet vw)) \<le> length (vwUtxos vw)"
  shows "\<exists>tk t. handleBlockConnectedNtfn w K api ntfn vw s =
    (releaseMaturing (uint (hdrHeight hdr)) (vw\<lparr>vwUtxos :=
        take (length (vwUtxos vw) - unat (TicketsPerBlock (activeNet vw))) (vwUtxos vw), tickets := tk\<rparr>), t)"
proof -
  let ?keep = "length (vwUtxos vw) - unat (TicketsPerBlock (activeNet vw))"
  let ?vw = "vw\<lparr>vwUtxos := take ?keep (vwUtxos vw)\<rparr>"
  obtain txs where txs: "buildTickets w K ?vw (i64 (SBits hdr + SBits hdr sdiv 6))
      (drop ?keep (vwUtxos vw)) = Inr txs"
    using buildTickets_ok [OF assms(1)] by blast
  obtain qs t where qs: "sendAll api txs s = (qs, t)" by force
  from receiveTickets_ok [OF sendAll_ok [OF assms(1) qs]] obtain tk where
    tk: "receiveTickets (i64 (SBits hdr + SBits hdr sdiv 6)) qs ?vw = (True, ?vw\<lparr>tickets := tk\<rparr>)"
    by blast
  show ?thesis
    using assms(2-4) txs qs tk by (simp add: handleBlockConnectedNtfn_def Let_def) blast
qed

lemma handle_winning_ok:
  assumes "services_ok w K api" "limitNbVotes vw = int n" "0 < n"
    "n \<le> length (ownWinners vw (winningTickets ntfn))"
  shows "\<exists>us t. length us = n \<and> handleWinningTicketsNtfn w K api ntfn vw s =
    (Ok (vw\<lparr>maturingVotes := (maturingVotes vw)(i64 (ntfnBlockHeight ntfn
        + uint (CoinbaseMaturity (activeNet vw))) \<mapsto> us)\<rparr>), t)"
proof -
  obtain br where br: "GenerateSSGenBlockRef api (ntfnBlockHash ntfn)
      (word_of_int (ntfnBlockHeight ntfn)) = Inr br"
    using services_okD(3) [OF assms(1)] by blast
  obtain vs where vs: "voteLoop w K api vw br (CalcStakeVoteSubsidy api (activeNet vw) (ntfnBlockHeight ntfn))
      (winningTickets ntfn) [] = Ok vs" "length vs = n"
    using voteLoop_ok [OF assms(1,2), of "[]" "winningTickets ntfn"] assms(3,4) by fastforce
  obtain qs t where qs: "sendAll api vs s = (qs, t)" by force
  obtain us where "receiveVotes qs vs = Inr us" "length us = n"
    using receiveVotes_ok [OF sendAll_ok [OF assms(1) qs]] sendAll_length [OF qs] vs(2) by metis
  with br vs(1) qs show ?thesis
    by (intro exI [of _ us] exI [of _ t]) (simp add: handleWinningTicketsNtfn_def Let_def)
qed

lemma supplied_block:
  assumes "services_ok w K api" "params_ok params" "supplied params b v vw"
    "HeaderFromBytes w (blockHeader ntfn) = Inr hdr"
    "uint (hdrHeight hdr) = ticketPurchaseStartHeight params + int b"
    "b < purchaseDelay params + v"
  shows "supplied params (Suc b) v (fst (handleBlockConnectedNtfn w K api ntfn vw s))"
proof -
  let ?T = "unat (TicketsPerBlock params)" and ?D = "purchaseDelay params"
  let ?h = "ticketPurchaseStartHeight params"
  note sup = assms(3) [unfolded supplied_def]
  have len: "length (vwUtxos vw) = ?T + (if b < ?D then stock params (Suc b) else 0)"
    using sup stock_Suc [of params b] by simp
  obtain tk t where h: "handleBlockConnectedNtfn w K api ntfn vw s =
    (releaseMaturing (?h + int b) (vw\<lparr>vwUtxos := take (length (vwUtxos vw) - ?T) (vwUtxos vw),
        tickets := tk\<rparr>), t)"
    using handle_block_ok [OF assms(1,4), of vw s] sup assms(5) len by fastforce
  show ?thesis
  proof (cases "b < ?D")
    case True
    have "maturingVotes vw (?h + int b) = None"
    proof (rule ccontr)
      assume "maturingVotes vw (?h + int b) \<noteq> None"
      with sup have "?h + int ?D \<le> ?h + int b" by blast
      with True show False by simp
    qed
    with True len sup assms(6) show ?thesis
      by (simp add: h releaseMaturing_def supplied_def)
  next
    case False
    define j where "j = b - ?D"
    have j: "b = ?D + j" "j < v" using False assms(6) by (simp_all add: j_def)
    have "\<forall>j < v. b \<le> ?D + j \<longrightarrow> (\<exists>us. maturingVotes vw (?h + int (?D + j)) = Some us \<and> length us = ?T)"
      using sup by blast
    with j obtain us where us: "maturingVotes vw (?h + int b) = Some us" "length us = ?T" by blast
    have "stock params (Suc b) = ?T" using False by (simp add: stock_def)
    with us False len sup assms(6) show ?thesis
      by (auto simp: h releaseMaturing_def supplied_def)
  qed
qed

lemma supplied_winning:
  assumes "services_ok w K api" "params_ok params" "supplied params b v vw"
    "ntfnBlockHeight ntfn = StakeValidationHeight params - 1 + int v" "ntfnBlockHeight ntfn < 2 ^ 32"
    "unat (TicketsPerBlock params) \<le> length (ownWinners vw (winningTickets ntfn))"
  shows "\<exists>vw' t. handleWinningTicketsNtfn w K api ntfn vw s = (Ok vw', t) \<and> supplied params b (Suc v) vw'"
proof -
  let ?T = "unat (TicketsPerBlock params)" and ?D = "purchaseDelay params"
  let ?h = "ticketPurchaseStartHeight params"
  note sup = assms(3) [unfolded supplied_def]
  have T: "0 < ?T" using assms(2) by (simp add: params_ok_def word_less_nat_alt)
  have "in64 (ntfnBlockHeight ntfn + c)" if "0 \<le> c" "c < 65536" for c
    using assms(2,4,5) that by (simp add: in64_def params_ok_def)
  then have "i64 (ntfnBlockHeight ntfn + uint (CoinbaseMaturity params))
      = ntfnBlockHeight ntfn + uint (CoinbaseMaturity params)"
    by simp
  also have "\<dots> = ?h + int (?D + v)"
    using assms(4) start_height [OF assms(2)] by (simp add: purchaseDelay_def)
  finally have mat: "i64 (ntfnBlockHeight ntfn + uint (CoinbaseMaturity params)) = ?h + int (?D + v)" .
  have params: "activeNet vw = params" using sup by blast
  have "limitNbVotes vw = uint (TicketsPerBlock params)" using sup by blast
  then have lim: "limitNbVotes vw = int ?T" by (simp only: uint_nat)
  obtain us t where us: "length us = ?T" "handleWinningTicketsNtfn w K api ntfn vw s =
      (Ok (vw\<lparr>maturingVotes := (maturingVotes vw)(?h + int (?D + v) \<mapsto> us)\<rparr>), t)"
    using handle_winning_ok [OF assms(1) lim T assms(6), of s, unfolded params mat] by blast
  have "supplied params b (Suc v)
      (vw\<lparr>maturingVotes := (maturingVotes vw)(?h + int (?D + v) \<mapsto> us)\<rparr>)"
    using sup us(1) by (auto simp: supplied_def less_Suc_eq simp del: of_nat_add)
  with us(2) show ?thesis by blast
qed

lemma operating_supplied:
  assumes "operating w K api params b v vw s" "services_ok w K api" "params_ok params"
  shows "supplied params b v vw"
  using assms
proof (induction rule: operating.induct)
  case (funded vw s)
  then show ?case by (intro supplied_start)
next
  case (block_connected b v vw s ntfn hdr vw' s')
  from supplied_block [OF block_connected(7,8) _ block_connected(2,3,4), of vw s] block_connected
  show ?case by simp
next
  case (tickets_won b v vw s ntfn vw' s')
  from supplied_winning [OF tickets_won(7,8) _ tickets_won(2,3,4), of b s] tickets_won
  show ?case by auto
qed

section \<open>The shape of tickets and votes\<close>

text \<open>A ticket \<open>t\<close> bought at \<open>price\<close> with the output \<open>u\<close>.\<close>

definition ticket_for :: "'k key_api \<Rightarrow> 'm voting_wallet \<Rightarrow> int \<Rightarrow> utxoInfo \<Rightarrow> msgtx \<Rightarrow> bool" where
  "ticket_for K vw price u t \<longleftrightarrow>
     (\<exists>i unsigned. TxIn t = [i] \<and> PreviousOutPoint i = outpoint u \<and>
        SignScript K unsigned 0
          (if opTree (outpoint u) = treeStake then voteRetScript vw else p2pkh vw) (privateKey vw)
          = Inr (SignatureScript i) \<and> TxOut unsigned = TxOut t) \<and>
     map Value (TxOut t) = [price, 0, i64 (amount u - fundingValue vw)] \<and>
     map PkScript (TxOut t) = [p2sstx vw, commitScript vw, nullPay2SSTXChange]"

lemma buildTickets_shape:
  assumes "wire_ok w"
  shows "buildTickets w K vw price us = Inr txs \<Longrightarrow> list_all2 (ticket_for K vw price) us txs"
proof (induction us arbitrary: txs)
  case (Cons u us)
  let ?t = "ticketTx w vw price u"
  from Cons.prems obtain t txs' where t: "signTicket K vw u ?t = Inr t"
    "buildTickets w K vw price us = Inr txs'" "txs = t # txs'"
    by (auto simp: map_sum_Inr split: sum.split_asm)
  then obtain sig where sig: "SignScript K ?t 0
      (if opTree (outpoint u) = treeStake then voteRetScript vw else p2pkh vw) (privateKey vw) = Inr sig"
    "t = setSigScript 0 sig ?t"
    by (auto simp: signTicket_def Let_def split: sum.split_asm)
  have shape: "TxIn ?t = [\<lparr>PreviousOutPoint = outpoint u, ValueIn = nullValueIn, SignatureScript = []\<rparr>]"
    "map Value (TxOut ?t) = [price, 0, i64 (amount u - fundingValue vw)]"
    "map PkScript (TxOut ?t) = [p2sstx vw, commitScript vw, nullPay2SSTXChange]"
    by (simp_all add: ticketTx_def Let_def wire_okD [OF assms] zeroTx_def newTxOut_def fundingValue_def)
  have "ticket_for K vw price u t"
    unfolding ticket_for_def sig(2) using shape sig(1)
    by (intro conjI exI [of _ "(TxIn ?t ! 0)\<lparr>SignatureScript := sig\<rparr>"] exI [of _ ?t])
      (simp_all add: setSigScript_def)
  with Cons.IH t(2,3) show ?case by simp
qed simp

text \<open>A vote \<open>v\<close> of the ticket \<open>wt\<close>.\<close>

definition vote_for :: "'m voting_wallet \<Rightarrow> bytes \<Rightarrow> int \<Rightarrow> bytes \<Rightarrow> msgtx \<Rightarrow> bool" where
  "vote_for vw blockRef sub wt v \<longleftrightarrow>
     (\<exists>ticket script rest. tickets vw wt = Some ticket \<and>
        map PreviousOutPoint (TxIn v) = [stakebaseOutPoint, OutPoint wt 0 treeStake] \<and>
        TxOut v = [\<lparr>Value = 0, outVersion = 0, PkScript = blockRef\<rparr>, script,
          \<lparr>Value = i64 (ticketPrice ticket + sub), outVersion = voteRetScriptVer vw,
           PkScript = voteRetScript vw\<rparr>] @ rest \<and>
        length rest = (if tspendVotes vw = [] then 0 else 1))"

lemma finishVote_shape:
  assumes "wire_ok w" "finishVote w K api vw (voteBase w vw br sub wt ticket) = Inr v"
    "tickets vw wt = Some ticket"
  shows "vote_for vw br sub wt v"
proof -
  let ?b = "voteBase w vw br sub wt ticket"
  from assms(2) obtain u sig where u: "addTSpends w api vw ?b = Inr u" "v = setSigScript 1 sig u"
    by (auto simp: finishVote_def Let_def split: sum.split_asm option.split_asm)
  have "TxIn u = TxIn ?b \<and> (\<exists>rest. TxOut u = TxOut ?b @ rest
      \<and> length rest = (if tspendVotes vw = [] then 0 else 1))"
    using u(1) by (auto simp: addTSpends_def wire_okD [OF assms(1)] split: if_splits sum.split_asm)
  then obtain rest where r: "TxIn u = TxIn ?b" "TxOut u = TxOut ?b @ rest"
    "length rest = (if tspendVotes vw = [] then 0 else 1)"
    by blast
  with assms(3) u(2) show ?thesis
    by (simp add: vote_for_def setSigScript_def voteBase_shape [OF assms(1)])
qed

lemma voteLoop_shape:
  assumes "wire_ok w"
  shows "voteLoop w K api vw br sub wts votes = Ok vs \<Longrightarrow> int (length votes) < limitNbVotes vw \<Longrightarrow>
    \<exists>new. vs = votes @ new \<and>
      list_all2 (vote_for vw br sub) (take (nat (limitNbVotes vw) - length votes) (ownWinners vw wts)) new"
proof (induction wts arbitrary: votes)
  case Nil
  then show ?case by (simp add: ownWinners_def)
next
  case (Cons wt wts)
  show ?case
  proof (cases "tickets vw wt")
    case None
    with Cons show ?thesis by (simp add: ownWinners_def)
  next
    case (Some ticket)
    from Cons.prems Some obtain v where
      v: "finishVote w K api vw (voteBase w vw br sub wt ticket) = Inr v"
      and rest: "if int (length (votes @ [v])) \<ge> limitNbVotes vw then vs = votes @ [v]
        else voteLoop w K api vw br sub wts (votes @ [v]) = Ok vs"
      by (auto simp: Let_def split: sum.split_asm if_splits)
    note vf = finishVote_shape [OF assms v Some]
    obtain k where k: "nat (limitNbVotes vw) - length votes = Suc k"
      using Cons.prems(2) by (cases "nat (limitNbVotes vw) - length votes") auto
    have own: "ownWinners vw (wt # wts) = wt # ownWinners vw wts"
      using Some by (simp add: ownWinners_def)
    show ?thesis
    proof (cases "int (length (votes @ [v])) \<ge> limitNbVotes vw")
      case True
      with k have "k = 0" by simp
      with True rest vf own k show ?thesis by simp
    next
      case False
      with rest Cons.IH [of "votes @ [v]"] obtain new where
        "vs = (votes @ [v]) @ new"
        "list_all2 (vote_for vw br sub) (take (nat (limitNbVotes vw) - length (votes @ [v])) (ownWinners vw wts)) new"
        by auto
      moreover have "nat (limitNbVotes vw) - length (votes @ [v]) = k" using k by simp
      ultimately show ?thesis using vf own k by (intro exI [of _ "v # new"]) simp
    qed
  qed
qed

text \<open>The output of a vote that returns to the wallet, in the transaction that was accepted as \<open>h\<close>.\<close>

definition voteReturn :: "bytes \<Rightarrow> msgtx \<Rightarrow> utxoInfo" where
  "voteReturn h v = \<lparr>outpoint = OutPoint h 2 treeStake, amount = Value (TxOut v ! 2)\<rparr>"

lemma receiveVotes_shape:
  "receiveVotes qs vs = Inr us \<Longrightarrow> length qs = length vs \<Longrightarrow>
   \<exists>hs. qs = map Inr hs \<and> us = map2 voteReturn hs vs"
proof (induction qs vs arbitrary: us rule: list_induct2')
  case (4 q qs v vs)
  then obtain h us' where q: "q = Inr h" "receiveVotes qs vs = Inr us'" "us = voteReturn h v # us'"
    by (auto simp: map_sum_Inr voteReturn_def split: sum.split_asm)
  with 4 obtain hs where "qs = map Inr hs" "us' = map2 voteReturn hs vs" by auto
  with q show ?case by (intro exI [of _ "h # hs"]) simp
qed auto

lemma logError_state [simp]:
  "maturingVotes (logError e vw) = maturingVotes vw" "vwUtxos (logError e vw) = vwUtxos vw"
  by (simp_all add: logError_def)

lemma receiveTickets_state:
  "receiveTickets price qs vw = (c, vw') \<Longrightarrow>
   maturingVotes vw' = maturingVotes vw \<and> vwUtxos vw' = vwUtxos vw \<and> (c \<longrightarrow> reported vw' = reported vw)"
  by (induction qs arbitrary: vw) (auto split: sum.split_asm)

section \<open>Properties\<close>

text \<open>
  The voting wallet never runs out of outputs. Funded with the required number of outputs, and
  as long as the services it uses succeed and enough of its tickets win, it holds after any number
  of blocks and winning tickets, however the two kinds of notifications interleave, enough
  outputs for the next purchase: one purchase less per block until the first votes mature, and
  exactly one purchase from then on. No error is ever reported, and the next winning tickets are
  handled without a panic.
\<close>

lemma voting_never_runs_out:
  assumes "services_ok w K api" "params_ok params" "operating w K api params b v vw s"
  shows "length (vwUtxos vw) = unat (TicketsPerBlock params) *
      (if b \<le> purchaseDelay params then purchaseDelay params + 1 - b else 1)
    \<and> unat (TicketsPerBlock params) \<le> length (vwUtxos vw) \<and> reported vw = []
    \<and> (\<forall>ntfn. ntfnBlockHeight ntfn = StakeValidationHeight params - 1 + int v \<and>
         ntfnBlockHeight ntfn < 2 ^ 32 \<and>
         unat (TicketsPerBlock params) \<le> length (ownWinners vw (winningTickets ntfn)) \<longrightarrow>
         (\<exists>vw' t. handleWinningTicketsNtfn w K api ntfn vw s = (Ok vw', t)))"
proof -
  note sup = operating_supplied [OF assms(3,1,2)]
  have "length (vwUtxos vw) = stock params b" "reported vw = []"
    using sup by (simp_all add: supplied_def)
  moreover have "unat (TicketsPerBlock params) \<le> stock params b"
    using stock_Suc [of params b] by simp
  moreover have "\<forall>ntfn. ntfnBlockHeight ntfn = StakeValidationHeight params - 1 + int v \<and>
      ntfnBlockHeight ntfn < 2 ^ 32 \<and>
      unat (TicketsPerBlock params) \<le> length (ownWinners vw (winningTickets ntfn)) \<longrightarrow>
      (\<exists>vw' t. handleWinningTicketsNtfn w K api ntfn vw s = (Ok vw', t))"
    using supplied_winning [OF assms(1,2) sup] by blast
  ultimately show ?thesis unfolding stock_def by simp
qed

text \<open>
  C20: Each ticket spends the output chosen for it, signed for the script that output has (the
  vote return script for an output of the stake tree), and its values add up to the value of the
  output less the difference between the commitment amount and the ticket price.
\<close>

theorem tickets_spend_outputs:
  assumes "wire_ok w" "buildTickets w K vw price us = Inr txs"
    and "\<forall>u \<in> set us. in64 (amount u - fundingValue vw)"
  shows "list_all2 (\<lambda>u t. ticket_for K vw price u t
    \<and> sum_list (map Value (TxOut t)) = amount u - (fundingValue vw - price)) us txs"
  using buildTickets_shape [OF assms(1,2)] assms(3)
  by (auto simp: list_all2_conv_all_nth ticket_for_def)

text \<open>
  C19: The votes made for a notification are those of the first winning tickets that belong to the
  wallet, as many as the limit allows: each spends its ticket and returns the ticket price plus
  the subsidy to the wallet, and commits to the block of the notification. They are sent in this
  order, and the third output of each vote, in the transaction with the hash the node answered
  and with its value, is recorded under the height at which it matures.
\<close>

theorem votes_spend_winning_tickets:
  assumes "wire_ok w" "0 < limitNbVotes vw" "handleWinningTicketsNtfn w K api ntfn vw s = (Ok vw', t)"
    and "maturingVotes vw' \<noteq> maturingVotes vw"
  shows "\<exists>blockRef votes hashes.
    GenerateSSGenBlockRef api (ntfnBlockHash ntfn) (word_of_int (ntfnBlockHeight ntfn)) = Inr blockRef \<and>
    list_all2 (vote_for vw blockRef (CalcStakeVoteSubsidy api (activeNet vw) (ntfnBlockHeight ntfn)))
      (take (nat (limitNbVotes vw)) (ownWinners vw (winningTickets ntfn))) votes \<and>
    sendAll api votes s = (map Inr hashes, t) \<and> length hashes = length votes \<and>
    vw' = vw\<lparr>maturingVotes := (maturingVotes vw)
      (i64 (ntfnBlockHeight ntfn + uint (CoinbaseMaturity (activeNet vw))) \<mapsto>
        map2 (\<lambda>h v. \<lparr>outpoint = OutPoint h 2 treeStake, amount = Value (TxOut v ! 2)\<rparr>) hashes votes)\<rparr>"
proof -
  from assms(3,4) obtain br votes qs us where
    br: "GenerateSSGenBlockRef api (ntfnBlockHash ntfn) (word_of_int (ntfnBlockHeight ntfn)) = Inr br"
    and votes: "voteLoop w K api vw br (CalcStakeVoteSubsidy api (activeNet vw) (ntfnBlockHeight ntfn))
      (winningTickets ntfn) [] = Ok votes"
    and us: "sendAll api votes s = (qs, t)" "receiveVotes qs votes = Inr us"
    and vw': "vw' = vw\<lparr>maturingVotes := (maturingVotes vw)
      (i64 (ntfnBlockHeight ntfn + uint (CoinbaseMaturity (activeNet vw))) \<mapsto> us)\<rparr>"
    by (auto simp: handleWinningTicketsNtfn_def Let_def
        split: sum.split_asm res.split_asm prod.split_asm)
  from voteLoop_shape [OF assms(1) votes] assms(2)
  have "list_all2 (vote_for vw br (CalcStakeVoteSubsidy api (activeNet vw) (ntfnBlockHeight ntfn)))
      (take (nat (limitNbVotes vw)) (ownWinners vw (winningTickets ntfn))) votes"
    by simp
  moreover obtain hs where "qs = map Inr hs" "us = map2 voteReturn hs votes"
    using receiveVotes_shape [OF us(2) sendAll_length [OF us(1)]] by blast
  moreover have "length hs = length votes"
    using sendAll_length [OF us(1)] calculation(2) by simp
  ultimately show ?thesis
    using br us(1) vw' unfolding voteReturn_def by blast
qed

text \<open>
  C37: With a limit of zero votes, which \<open>LimitNbVotes\<close> accepts, the wallet panics as soon as one of
  its tickets wins: the vote is written into an empty slice before the limit is checked.
\<close>

theorem limit_zero_panics:
  assumes "LimitNbVotes 0 vw = (None, vw')" "ownWinners vw' (winningTickets ntfn) \<noteq> []"
    and "GenerateSSGenBlockRef api (ntfnBlockHash ntfn) (word_of_int (ntfnBlockHeight ntfn)) = Inr br"
  shows "handleWinningTicketsNtfn w K api ntfn vw' s = (Panic IndexOutOfRange, s)"
proof -
  have lim: "limitNbVotes vw' = 0" using assms(1) by (auto simp: LimitNbVotes_def split: if_splits)
  have "voteLoop w K api vw' br sub wts [] = Panic IndexOutOfRange" if "ownWinners vw' wts \<noteq> []" for sub wts
    using that by (induction wts) (auto simp: lim ownWinners_def split: option.split)
  with assms show ?thesis by (simp add: handleWinningTicketsNtfn_def)
qed

text \<open>
  C36: An error after the outputs for the tickets have been chosen costs the wallet these outputs,
  and the votes that mature at this height are not released: nothing is put back.
\<close>

theorem failed_purchase_loses_outputs:
  assumes "HeaderFromBytes w (blockHeader ntfn) = Inr hdr"
    and "ticketPurchaseStartHeight (activeNet vw) \<le> uint (hdrHeight hdr)"
    and "unat (TicketsPerBlock (activeNet vw)) \<le> length (vwUtxos vw)"
    and "handleBlockConnectedNtfn w K api ntfn vw s = (vw', t)" "reported vw' \<noteq> reported vw"
  shows "vwUtxos vw' = take (length (vwUtxos vw) - unat (TicketsPerBlock (activeNet vw))) (vwUtxos vw)
    \<and> maturingVotes vw' = maturingVotes vw"
proof -
  let ?keep = "length (vwUtxos vw) - unat (TicketsPerBlock (activeNet vw))"
  let ?vw = "vw\<lparr>vwUtxos := take ?keep (vwUtxos vw)\<rparr>"
  let ?price = "i64 (SBits hdr + SBits hdr sdiv 6)"
  show ?thesis
  proof (cases "buildTickets w K ?vw ?price (drop ?keep (vwUtxos vw))")
    case (Inl err)
    with assms(1-4) show ?thesis by (auto simp: handleBlockConnectedNtfn_def Let_def)
  next
    case (Inr txs)
    obtain qs u where qs: "sendAll api txs s = (qs, u)" by force
    obtain c vw1 where r: "receiveTickets ?price qs ?vw = (c, vw1)" by force
    note st = receiveTickets_state [OF r]
    have vw': "vw' = (if c then releaseMaturing (uint (hdrHeight hdr)) vw1 else vw1)"
      using assms(1-4) Inr qs r by (auto simp: handleBlockConnectedNtfn_def Let_def split: bool.split_asm)
    have "\<not> c"
    proof
      assume c
      with st vw' have "reported vw' = reported vw"
        by (auto simp: releaseMaturing_def split: option.split)
      with assms(5) show False ..
    qed
    with vw' st show ?thesis by simp
  qed
qed

end
