(* ===== verification/VotingFunding.thy ===== *)
theory VotingFunding
  imports VotingRun WalletSpend
begin

text \<open>
  The voting wallet and its surroundings: its funding by the in-memory wallet of the harness, the
  generation of blocks, the retries of its connection; and the witnesses for the properties of
  \<open>VotingRun\<close>.
\<close>

section \<open>Retries\<close>

definition dialAttempt :: "'s vote_api \<Rightarrow> nat \<Rightarrow> 's \<Rightarrow> unit option \<times> 's" where
  "dialAttempt api i s =
     (case DialClient api i s of (Inl err, s) \<Rightarrow> (None, s) | (Inr c, s) \<Rightarrow> (Some c, s))"

interpretation dial: retry "dialLoop api" "dialAttempt api"
  by unfold_locales (auto simp: dialAttempt_def split: prod.splits sum.splits)

interpretation reqs: retry "reqLoop api nbVotes needsTickets needsVotes"
    "\<lambda>i. checkReqs api nbVotes needsTickets needsVotes"
  by unfold_locales (auto split: prod.splits option.splits)

section \<open>Waiting for votes and tickets\<close>

text \<open>
  A look at the mempool asks for the tickets and then for the votes in it. \<open>looked\<close> is the state of
  the world after a look, \<open>sawTickets\<close> and \<open>sawVotes\<close> are what it has found.
\<close>

definition looked :: "'s vote_api \<Rightarrow> 's \<Rightarrow> 's" where
  "looked api s = snd (MempoolVotes api (snd (MempoolTickets api s)))"

definition sawTickets :: "'s vote_api \<Rightarrow> 's \<Rightarrow> int" where
  "sawTickets api s = int (poolSize (fst (MempoolTickets api s)))"

definition sawVotes :: "'s vote_api \<Rightarrow> 's \<Rightarrow> int" where
  "sawVotes api s = int (poolSize (fst (MempoolVotes api (snd (MempoolTickets api s)))))"

definition needsVotesAt :: "'m voting_wallet \<Rightarrow> int \<Rightarrow> bool" where
  "needsVotesAt vw h \<longleftrightarrow> h \<ge> i64 (StakeValidationHeight (activeNet vw) - 1)"

definition needsTicketsAt :: "'m voting_wallet \<Rightarrow> int \<Rightarrow> bool" where
  "needsTicketsAt vw h \<longleftrightarrow> h \<ge> ticketPurchaseStartHeight (activeNet vw)"

text \<open>A look in the state \<open>s\<close> finds what the block at height \<open>h\<close> needs.\<close>

definition sawEnough :: "'s vote_api \<Rightarrow> 'm voting_wallet \<Rightarrow> int \<Rightarrow> 's \<Rightarrow> bool" where
  "sawEnough api vw h s \<longleftrightarrow>
     (needsTicketsAt vw h \<longrightarrow> limitNbVotes vw \<le> sawTickets api s) \<and>
     (needsVotesAt vw h \<longrightarrow> limitNbVotes vw \<le> sawVotes api s)"

text \<open>
  The wait after the block at height \<open>h\<close> has been mined, from the state \<open>s\<close> to \<open>t\<close>: there is none if
  nothing is needed; otherwise the first of the at most \<open>n\<close> looks that finds enough ends it.
\<close>

definition waitedFor :: "'s vote_api \<Rightarrow> 'm voting_wallet \<Rightarrow> int \<Rightarrow> nat \<Rightarrow> 's \<Rightarrow> 's \<Rightarrow> bool" where
  "waitedFor api vw h n s t \<longleftrightarrow>
     (if needsTicketsAt vw h \<or> needsVotesAt vw h then
        \<exists>k < n. sawEnough api vw h ((looked api ^^ k) s) \<and>
          (\<forall>j < k. \<not> sawEnough api vw h ((looked api ^^ j) s)) \<and> t = (looked api ^^ Suc k) s
      else t = s)"

text \<open>
  Blocks that are mined one by one with a wait after each: from the state \<open>s\<close>, with \<open>i\<close> blocks
  already mined above the height \<open>start\<close>, the blocks \<open>hashes\<close> are mined, and \<open>t\<close> is the state after
  the last wait. \<open>looks i\<close> bounds the looks after block \<open>i\<close>.
\<close>

inductive mined_waiting :: "'s vote_api \<Rightarrow> 's miner \<Rightarrow> 's miner voting_wallet \<Rightarrow> (nat \<Rightarrow> nat) \<Rightarrow> int \<Rightarrow>
    nat \<Rightarrow> 's \<Rightarrow> bytes list \<Rightarrow> 's \<Rightarrow> bool"
  for api miner vw looks start where
  no_block: "mined_waiting api miner vw looks start i s [] s"
| one_block: "miner 1 s = (Inr (h # others), u) \<Longrightarrow>
    waitedFor api vw (i64 (i64 (start + int i) + 1)) (looks i) u v \<Longrightarrow>
    mined_waiting api miner vw looks start (Suc i) v hashes t \<Longrightarrow>
    mined_waiting api miner vw looks start i s (h # hashes) t"

inductive_simps mined_waiting_Nil: "mined_waiting api miner vw looks start i s [] t"
inductive_simps mined_waiting_Cons: "mined_waiting api miner vw looks start i s (h # hashes) t"

lemma checkReqs_look:
  "checkReqs api (limitNbVotes vw) (needsTicketsAt vw h) (needsVotesAt vw h) s =
     (if sawEnough api vw h s then Some () else None, looked api s)"
  by (auto simp: checkReqs_def sawEnough_def sawTickets_def sawVotes_def looked_def split: prod.split)

lemma afterTries_look:
  "afterTries (\<lambda>i. checkReqs api (limitNbVotes vw) (needsTicketsAt vw h) (needsVotesAt vw h)) i k s
     = (looked api ^^ k) s"
  by (induction k arbitrary: i s)
    (simp_all add: checkReqs_look funpow_Suc_right del: funpow.simps(2))

lemma reqLoop_look:
  "reqLoop api (limitNbVotes vw) (needsTicketsAt vw h) (needsVotesAt vw h) n 0 s = (Some (), t) \<longleftrightarrow>
   (\<exists>k < n. sawEnough api vw h ((looked api ^^ k) s) \<and>
      (\<forall>j < k. \<not> sawEnough api vw h ((looked api ^^ j) s)) \<and> t = (looked api ^^ Suc k) s)"
  unfolding reqs.loop_Some reqs.fails_before_def afterTries_look checkReqs_look by auto

lemma waitReqs_Ok:
  "waitReqs api (limitNbVotes vw) nbTickets (needsTicketsAt vw h) (needsVotesAt vw h) n stopping s = (Inr (), t)
   \<longleftrightarrow> waitedFor api vw h n s t"
  using reqLoop_look [of api vw h n s t]
  by (auto simp: waitReqs_def waitedFor_def split: prod.split option.split)

lemma genLoop_Ok:
  "genLoop api miner vw sched start n i hashes s = (Ok result, t) \<longleftrightarrow>
   (\<exists>new. result = hashes @ new \<and> length new = n \<and>
      mined_waiting api miner vw (\<lambda>i. fst (sched i)) start i s new t)"
proof (induction n arbitrary: i hashes s)
  case 0
  show ?case by (auto simp: mined_waiting_Nil)
next
  case (Suc n)
  let ?h = "i64 (i64 (start + int i) + 1)"
  have "genLoop api miner vw sched start (Suc n) i hashes s = (Ok result, t) \<longleftrightarrow>
    (\<exists>h others u v. miner 1 s = (Inr (h # others), u) \<and> waitedFor api vw ?h (fst (sched i)) u v \<and>
       genLoop api miner vw sched start n (Suc i) (hashes @ [h]) v = (Ok result, t))"
    by (auto simp: Let_def waitReqs_Ok [symmetric, of _ _ _ _ _ _ "uint (TicketsPerBlock (activeNet vw))" "snd (sched i)"]
        needsVotesAt_def needsTicketsAt_def split: prod.split sum.split list.split)
  also have "\<dots> \<longleftrightarrow> (\<exists>new. result = hashes @ new \<and> length new = Suc n \<and>
      mined_waiting api miner vw (\<lambda>i. fst (sched i)) start i s new t)"
    unfolding Suc.IH by (auto simp: length_Suc_conv mined_waiting_Cons) blast+
  finally show ?case .
qed

section \<open>Properties\<close>

text \<open>
  C21: After \<open>Start\<close> the outputs of the voting wallet are the first outputs of the funding
  transaction that the harness sent, in order and with their values: the in-memory wallet puts
  its change last, as the code assumes.
\<close>

theorem start_funds_first_outputs:
  assumes "wire_ok w" "startVoting w K lf sendRaw ks m vw = (Ok vw', m')"
  shows "\<exists>tx txid. sendRaw tx = Inr txid \<and> last (rpcLog m') = SendRawTransaction tx \<and>
    int (length (vwUtxos vw')) = requiredTicketCount (activeNet vw) \<and>
    (\<forall>i < length (vwUtxos vw').
      vwUtxos vw' ! i = \<lparr>outpoint = OutPoint txid (of_nat i) treeRegular, amount = fundingValue vw\<rparr> \<and>
      TxOut tx ! i = \<lparr>Value = fundingValue vw, outVersion = 0, PkScript = p2pkh vw\<rparr>)"
proof -
  let ?n = "nat (requiredTicketCount (activeNet vw))"
  let ?outs = "map (\<lambda>i. NewTxOut w (fundingValue vw) (p2pkh vw)) [0..<?n]"
  from assms(2) obtain txid where send: "SendOutputs w K lf sendRaw ks ?outs feeRate m = (Ok txid, m')"
    and vw': "vw' = vw\<lparr>vwUtxos := fundingUtxos txid (fundingValue vw) (requiredTicketCount (activeNet vw))\<rparr>"
    by (auto simp: startVoting_def Let_def split: prod.split_asm res.split_asm)
  from send obtain tx m1 where tx: "CreateTransaction w K lf ks ?outs feeRate m = (Ok tx, m1)"
    "sendRaw tx = Inr txid" "last (rpcLog m') = SendRawTransaction tx"
    by (auto simp: SendOutputs_def Let_def split: prod.split_asm res.split_asm option.split_asm sum.split_asm)
  obtain change where "TxOut tx = ?outs @ change"
    using created_outputs(2) [OF assms(1) tx(1)] by auto
  then have "TxOut tx ! i = \<lparr>Value = fundingValue vw, outVersion = 0, PkScript = p2pkh vw\<rparr>" if "i < ?n" for i
    using that by (simp add: nth_append wire_okD [OF assms(1)])
  moreover have "0 \<le> requiredTicketCount (activeNet vw)" by (simp add: requiredTicketCount_def)
  ultimately show ?thesis
    using tx by (intro exI [of _ tx] exI [of _ txid]) (simp add: vw' fundingUtxos_def)
qed

text \<open>
  C38: \<open>GenerateBlocks\<close> succeeds exactly if it can mine the blocks one by one and each of the waits
  ends in time: after every block, before the next one is mined, the mempool is looked at until it
  holds as many votes and tickets as the height of the block needs, and these looks are the
  first and only things to happen after the block. The number that is waited for is the limit
  of votes, for the tickets too.
\<close>

theorem generate_blocks_waits:
  "GenerateBlocks api vw sched nb s = (Ok hashes, t) \<longleftrightarrow>
   (\<exists>start u. GetBestBlock api s = (Inr start, u) \<and> length hashes = unat nb \<and>
      mined_waiting api (case vwMiner vw of None \<Rightarrow> ClientGenerate api | Some f \<Rightarrow> f) vw
        (\<lambda>i. fst (sched i)) start 0 u hashes t)"
  by (auto simp: GenerateBlocks_def Let_def genLoop_Ok split: prod.split sum.split)

text \<open>
  A voting wallet is made exactly if its address and vote script can be made, one of twenty
  attempts to connect succeeds, and both subscriptions succeed; it votes with every ticket of a
  block and owns nothing yet.
\<close>

lemma new_voting_wallet_result:
  "NewVotingWallet K api params s = (Inr vw, t) \<longleftrightarrow>
   (\<exists>k u v. newWalletState K api params = Inr vw \<and> k < 20 \<and>
      (\<forall>j < k. fst (dialAttempt api j (afterTries (dialAttempt api) 0 j s)) = None) \<and>
      DialClient api k (afterTries (dialAttempt api) 0 k s) = (Inr (), u) \<and>
      NotifyBlocksCall api u = (Inr (), v) \<and> NotifyWinningTicketsCall api v = (Inr (), t))"
proof -
  have a: "dialAttempt api i s = (Some (), u) \<longleftrightarrow> DialClient api i s = (Inr (), u)" for i s u
    by (auto simp: dialAttempt_def split: prod.splits sum.splits)
  have "NewVotingWallet K api params s = (Inr vw, t) \<longleftrightarrow>
    newWalletState K api params = Inr vw \<and> (\<exists>u v. dialLoop api 20 0 s = (Some (), u) \<and>
      NotifyBlocksCall api u = (Inr (), v) \<and> NotifyWinningTicketsCall api v = (Inr (), t))"
    by (auto simp: NewVotingWallet_def split: prod.splits sum.splits option.splits)
  then show ?thesis unfolding dial.loop_Some a dial.fails_before_def by auto
qed

section \<open>A concrete voting wallet\<close>

text \<open>
  A network with one ticket per block and a world that counts the transactions the node accepts;
  the hash of a transaction is the number of the ones before it.
\<close>

definition tiny_net :: net_params where
  "tiny_net = demo_net\<lparr>CoinbaseMaturity := 1, TicketMaturity := 1, TicketsPerBlock := 1,
     StakeValidationHeight := 10\<rparr>"

definition demo_votes :: "nat vote_api" where
  "demo_votes =
     \<lparr>Hash160Of = (\<lambda>b. b), NewAddressPubKeyHash = (\<lambda>h p. Inr (demo_address h)),
      RewardCommitmentScript = (\<lambda>a v f r. (0, [106])), GenerateSSGenVotes = (\<lambda>n. Inr [106, 1]),
      GenerateSSGenBlockRef = (\<lambda>h n. Inr (106 # h)), CalcStakeVoteSubsidy = (\<lambda>p h. 90000),
      OpReturnScript = (\<lambda>d. Inr (106 # d)), CheckSSGen = (\<lambda>tx. None),
      SendRawTransactionAsync = (\<lambda>tx s. (Inr [of_nat s], Suc s)),
      DialClient = (\<lambda>i s. if i = 0 then (Inl (External 1), s) else (Inr (), s)),
      NotifyBlocksCall = (\<lambda>s. (Inr (), s)), NotifyWinningTicketsCall = (\<lambda>s. (Inr (), s)),
      GetBestBlock = (\<lambda>s. (Inr 8, s)),
      MempoolTickets = (\<lambda>s. (Inr [[1]], s)), MempoolVotes = (\<lambda>s. (Inr [[2]], s)),
      ClientGenerate = (\<lambda>n s. (Inr [[7]], s))\<rparr>"

lemma demo_services: "services_ok demo_wire demo_keys demo_votes"
  by (simp add: services_ok_def demo_votes_def demo_keys_def)

definition demo_voter :: "nat miner voting_wallet" where
  "demo_voter =
     \<lparr>activeNet = tiny_net, privateKey = hardcodedPrivateKey, vwAddress = demo_address [1],
      p2sstxVer = 0, p2sstx = [186, 1], commitScriptVer = 0, commitScript = [106],
      p2pkh = [118, 1], p2pkhVer = 0, voteScriptVer = 0, voteScript = [106, 1],
      voteRetScriptVer = 0, voteRetScript = [187, 1], errorReporter = True, reported = [],
      vwMiner = None, vwUtxos = fundingUtxos [9] 80000 4, tickets = Map.empty,
      maturingVotes = Map.empty, tspendVotes = [], limitNbVotes = 1\<rparr>"

lemmas voter_defs = demo_voter_def tiny_net_def demo_net_def

lemma tiny_params: "params_ok tiny_net"
  by (simp add: params_ok_def purchaseDelay_def voter_defs)

lemma demo_funded: "operating demo_wire demo_keys demo_votes tiny_net 0 0 demo_voter s"
  by (rule funded) (simp_all add: voter_defs requiredTicketCount_def fundingUtxos_def)

definition demo_block :: blockConnectedNtfn where
  "demo_block = \<lparr>blockHeader = [7], transactions = []\<rparr>"

lemmas demo_block_defs = voter_defs handleBlockConnectedNtfn_def demo_block_def demo_wire_def
  demo_votes_def demo_keys_def ticketPurchaseStartHeight_def in64_def fundingUtxos_def
  upt_rec signTicket_def ticketTx_def releaseMaturing_def Let_def

lemma demo_block_header:
  "HeaderFromBytes demo_wire (blockHeader demo_block) =
     Inr \<lparr>hdrHeight = 7, SBits = 20000, PrevBlock = [], Timestamp = 0, Bits = 0, Nonce = 0, hdrRest = []\<rparr>"
  by (simp add: demo_block_def demo_wire_def)

lemma demo_bought:
  "\<exists>vw. handleBlockConnectedNtfn demo_wire demo_keys demo_votes demo_block demo_voter 0 = (vw, 1)
     \<and> tickets vw = [[0] \<mapsto> \<lparr>ticketPrice = 23333\<rparr>] \<and> limitNbVotes vw = 1 \<and> activeNet vw = tiny_net
     \<and> maturingVotes vw = Map.empty"
  by (simp add: demo_block_defs)

theorem tickets_spend_outputs_witness:
  "\<exists>t. buildTickets demo_wire demo_keys demo_voter 23333
      [\<lparr>outpoint = OutPoint [9] 3 0, amount = 80000\<rparr>] = Inr [t] \<and>
    ticket_for demo_keys demo_voter 23333 \<lparr>outpoint = OutPoint [9] 3 0, amount = 80000\<rparr> t \<and>
    sum_list (map Value (TxOut t)) = 23333"
proof -
  obtain t where t: "buildTickets demo_wire demo_keys demo_voter 23333
      [\<lparr>outpoint = OutPoint [9] 3 0, amount = 80000\<rparr>] = Inr [t]"
    using buildTickets_ok [OF demo_services, of demo_voter 23333 "[\<lparr>outpoint = OutPoint [9] 3 0, amount = 80000\<rparr>]"]
      buildTickets_length by (fastforce simp: length_Suc_conv)
  from tickets_spend_outputs [OF demo_wire_ok t] t show ?thesis
    by (simp add: in64_def fundingValue_def voter_defs commitAmountMultiplier_def)
qed

text \<open>The ticket bought at height seven wins at height nine.\<close>

definition demo_win :: winningTicketsNtfn where
  "demo_win = \<lparr>ntfnBlockHash = [9], ntfnBlockHeight = 9, winningTickets = [[5], [0]]\<rparr>"

lemma demo_voted:
  assumes "tickets vw = [[0] \<mapsto> \<lparr>ticketPrice = 23333\<rparr>]" "limitNbVotes vw = 1" "activeNet vw = tiny_net"
    "maturingVotes vw = Map.empty"
  shows "\<exists>vw' t us. handleWinningTicketsNtfn demo_wire demo_keys demo_votes demo_win vw s = (Ok vw', t)
    \<and> maturingVotes vw' = [10 \<mapsto> us]"
proof -
  have "1 \<le> length (ownWinners vw (winningTickets demo_win))"
    using assms(1) by (simp add: ownWinners_def demo_win_def)
  from handle_winning_ok [OF demo_services _ _ this, of s] assms(2-4) show ?thesis
    by (auto simp: demo_win_def voter_defs in64_def)
qed

theorem votes_spend_winning_tickets_witness:
  "\<exists>(vw :: nat miner voting_wallet) br vs. list_all2 (vote_for vw br 90000) [[0]] vs \<and> length (vwUtxos vw) = 3"
proof -
  obtain vw where vw: "handleBlockConnectedNtfn demo_wire demo_keys demo_votes demo_block demo_voter 0 = (vw, 1)"
    "tickets vw = [[0] \<mapsto> \<lparr>ticketPrice = 23333\<rparr>]" "limitNbVotes vw = 1" "activeNet vw = tiny_net"
    "maturingVotes vw = Map.empty"
    using demo_bought by blast
  from demo_voted [OF vw(2-5), of 1] obtain vw' t us where
    v: "handleWinningTicketsNtfn demo_wire demo_keys demo_votes demo_win vw 1 = (Ok vw', t)"
      "maturingVotes vw' = [10 \<mapsto> us]" by blast
  have "0 < limitNbVotes vw" "maturingVotes vw' \<noteq> maturingVotes vw" using vw(3,5) v(2) by auto
  from votes_spend_winning_tickets [OF demo_wire_ok this(1) v(1) this(2)] obtain br vs where
    "list_all2 (vote_for vw br 90000) [[0]] vs"
    using vw(2,3) by (force simp: ownWinners_def demo_win_def demo_votes_def)
  moreover have "length (vwUtxos vw) = 3"
    using vw(1) by (auto simp: demo_block_defs)
  ultimately show ?thesis by blast
qed

theorem limit_zero_panics_witness:
  "\<exists>(vw :: nat miner voting_wallet) vw'. tickets vw = [[0] \<mapsto> \<lparr>ticketPrice = 23333\<rparr>] \<and> LimitNbVotes 0 vw = (None, vw') \<and>
     handleWinningTicketsNtfn demo_wire demo_keys demo_votes demo_win vw' 1 = (Panic IndexOutOfRange, 1)"
proof -
  obtain vw :: "nat miner voting_wallet" where vw: "tickets vw = [[0] \<mapsto> \<lparr>ticketPrice = 23333\<rparr>]" "limitNbVotes vw = 1"
    using demo_bought by blast
  let ?vw = "vw\<lparr>limitNbVotes := 0\<rparr>"
  have l: "LimitNbVotes 0 vw = (None, ?vw)" using vw(2) by (simp add: LimitNbVotes_def)
  have "ownWinners ?vw (winningTickets demo_win) \<noteq> []"
    using vw(1) by (simp add: ownWinners_def demo_win_def)
  from limit_zero_panics [OF l this, of demo_votes "106 # ntfnBlockHash demo_win" demo_wire demo_keys 1]
  have "handleWinningTicketsNtfn demo_wire demo_keys demo_votes demo_win ?vw 1 = (Panic IndexOutOfRange, 1)"
    by (simp add: demo_votes_def)
  with vw(1) l show ?thesis by blast
qed

theorem failed_purchase_loses_outputs_witness:
  "\<exists>vw t. handleBlockConnectedNtfn demo_wire demo_keys
       (demo_votes\<lparr>SendRawTransactionAsync := \<lambda>tx s. (Inl (External 3), s)\<rparr>) demo_block demo_voter 0 = (vw, t)
     \<and> reported vw = [Wrap ''unable to send ticket tx'' (External 3)] \<and> length (vwUtxos vw) = 3"
proof -
  let ?api = "demo_votes\<lparr>SendRawTransactionAsync := \<lambda>tx s. (Inl (External 3), s)\<rparr>"
  obtain vw t where vw: "handleBlockConnectedNtfn demo_wire demo_keys ?api demo_block demo_voter 0 = (vw, t)"
    "reported vw = [Wrap ''unable to send ticket tx'' (External 3)]"
    by (simp add: demo_block_defs logError_def)
  have "vwUtxos vw = take (length (vwUtxos demo_voter) - unat (TicketsPerBlock (activeNet demo_voter)))
      (vwUtxos demo_voter) \<and> maturingVotes vw = maturingVotes demo_voter"
    by (rule failed_purchase_loses_outputs [OF demo_block_header _ _ vw(1)])
      (simp_all add: demo_block_defs vw(2))
  with vw show ?thesis by (simp add: voter_defs fundingUtxos_def)
qed

text \<open>Two blocks, with one look at the mempool after each.\<close>

lemma demo_generated:
  "\<exists>t. GenerateBlocks demo_votes demo_voter (\<lambda>i. (1, False)) 2 0 = (Ok [[7], [7]], t)
     \<and> mined_waiting demo_votes (ClientGenerate demo_votes) demo_voter (\<lambda>i. 1) 8 0 0 [[7], [7]] t"
proof -
  have two: "genLoop api miner vw sched start 2 = genLoop api miner vw sched start (Suc (Suc 0))"
    for api :: "nat vote_api" and miner vw sched start
    by (simp only: numeral_2_eq_2)
  obtain t where t: "GenerateBlocks demo_votes demo_voter (\<lambda>i. (1, False)) 2 0 = (Ok [[7], [7]], t)"
    by (simp add: GenerateBlocks_def demo_votes_def waitReqs_def checkReqs_def voter_defs
        ticketPurchaseStartHeight_def in64_def two)
  then show ?thesis
    by (auto simp: GenerateBlocks_def genLoop_Ok demo_votes_def voter_defs)
qed

text \<open>A harness wallet with one large coin, which funds the four outputs.\<close>

definition demo_rich :: "u32 mem_wallet" where
  "demo_rich = demo_wallet\<lparr>utxos := [demo_point 1 \<mapsto> demo_utxo 1000000000]\<rparr>"

theorem start_funds_first_outputs_witness:
  "\<exists>vw m tx. startVoting demo_wire demo_keys (\<lambda>_. None) (\<lambda>_. Inr [9]) [demo_point 1] demo_rich demo_voter
       = (Ok vw, m) \<and> last (rpcLog m) = SendRawTransaction tx \<and>
     vwUtxos vw ! 3 = \<lparr>outpoint = OutPoint [9] 3 0, amount = 80000\<rparr> \<and>
     TxOut tx ! 3 = \<lparr>Value = 80000, outVersion = 0, PkScript = [118, 1]\<rparr>"
proof -
  obtain vw m where s: "startVoting demo_wire demo_keys (\<lambda>_. None) (\<lambda>_. Inr [9]) [demo_point 1]
      demo_rich demo_voter = (Ok vw, m)"
    by (simp add: startVoting_def SendOutputs_def demo_rich_def demo_eval voter_defs upt_rec
        requiredTicketCount_def fundingValue_def commitAmountMultiplier_def feeRate_def)
  from start_funds_first_outputs [OF demo_wire_ok s] obtain tx where
    tx: "last (rpcLog m) = SendRawTransaction tx" "int (length (vwUtxos vw)) = 4"
      "\<forall>i < length (vwUtxos vw). vwUtxos vw ! i =
          \<lparr>outpoint = OutPoint [9] (of_nat i) treeRegular, amount = 80000\<rparr> \<and>
        TxOut tx ! i = \<lparr>Value = 80000, outVersion = 0, PkScript = [118, 1]\<rparr>"
    by (auto simp: voter_defs requiredTicketCount_def fundingValue_def commitAmountMultiplier_def in64_def)
  then show ?thesis
    using s by (intro exI [of _ vw] exI [of _ m] exI [of _ tx]) (simp add: treeRegular_def)
qed

end
