(* ===== verification/VotingSystem.thy ===== *)
theory VotingSystem
  imports VotingFunding
begin

text \<open>
  The voting wallet as it runs in \<open>src/dcrdtest/votingwallet.go\<close>: dcrd's client delivers the
  notifications into two channels, and the goroutine of \<open>Start\<close> takes from either of them. The
  theory gives the contract of a bounded channel, the runs of wallet and channels together, and
  shows that every run is one the supply invariant of \<open>VotingRun\<close> covers.
\<close>

section \<open>Bounded channels\<close>

text \<open>
  A send appends a message or, while the channel is full, blocks (\<open>None\<close>).
\<close>

locale bounded_channel =
  fixes send :: "'a \<Rightarrow> 'q \<Rightarrow> 'q option"
    and content :: "'q \<Rightarrow> 'a list"
    and capacity :: nat
  assumes send_full: "capacity \<le> length (content q) \<Longrightarrow> send x q = None"
    and send_room: "length (content q) < capacity \<Longrightarrow> \<exists>q'. send x q = Some q' \<and> content q' = content q @ [x]"
begin

lemma send_Some: "send x q = Some q' \<Longrightarrow> content q' = content q @ [x] \<and> length (content q) < capacity"
  using send_full [of q x] send_room [of q x] by fastforce

lemma within_capacity: "send x q = Some q' \<Longrightarrow> length (content q') \<le> capacity"
  using send_Some by fastforce

lemma blocks_iff: "send x q = None \<longleftrightarrow> capacity \<le> length (content q)"
  using send_full [of q x] send_room [of q x] by fastforce

end

definition sendBlock :: "blockConnectedNtfn \<Rightarrow> ('m, 's) voting_system \<Rightarrow> ('m, 's) voting_system option" where
  "sendBlock ntfn = onBlockConnected (blockHeader ntfn) (transactions ntfn)"

definition sendWinning :: "winningTicketsNtfn \<Rightarrow> ('m, 's) voting_system \<Rightarrow> ('m, 's) voting_system option" where
  "sendWinning ntfn = onWinningTickets (ntfnBlockHash ntfn) (ntfnBlockHeight ntfn) (winningTickets ntfn)"

interpretation blocks: bounded_channel sendBlock blockConnectedNtfnChan bufferLen
  by unfold_locales (simp_all add: sendBlock_def onBlockConnected_def)

interpretation wins: bounded_channel sendWinning winningTicketsNtfnChan bufferLen
  by unfold_locales (simp_all add: sendWinning_def onWinningTickets_def)

lemma sendBlock_keeps:
  assumes "sendBlock ntfn y = Some y'"
  shows "votingWallet y' = votingWallet y" "vwWorld y' = vwWorld y"
    "winningTicketsNtfnChan y' = winningTicketsNtfnChan y"
  using assms by (auto simp: sendBlock_def onBlockConnected_def split: if_splits)

lemma sendWinning_keeps:
  assumes "sendWinning ntfn y = Some y'"
  shows "votingWallet y' = votingWallet y" "vwWorld y' = vwWorld y"
    "blockConnectedNtfnChan y' = blockConnectedNtfnChan y"
  using assms by (auto simp: sendWinning_def onWinningTickets_def split: if_splits)

section \<open>Runs\<close>

text \<open>
  After \<open>n\<close> blocks, the first of them \<open>early\<close> blocks before the start of the purchases, the
  winning tickets of \<open>winsDue params early n\<close> heights have been drawn: from the height before
  \<open>StakeValidationHeight\<close> on every block draws winners.
\<close>

definition winsDue :: "net_params \<Rightarrow> nat \<Rightarrow> nat \<Rightarrow> nat" where
  "winsDue params early n = n - (early + unat (TicketMaturity params) + 1)"

definition firstHeight :: "net_params \<Rightarrow> nat \<Rightarrow> int" where
  "firstHeight params early = ticketPurchaseStartHeight params - int early"

text \<open>
  \<open>voting_run w K api params early n d y\<close>: the system can be in \<open>y\<close> when \<open>n\<close> blocks and \<open>d\<close> winning
  ticket notifications have been delivered. dcrd announces the blocks in the order of their
  heights and the winners of a block before the next block; enough tickets of the wallet win; and
  the miner never gets \<open>CoinbaseMaturity\<close> blocks ahead of the votes. Nothing else is assumed: the
  goroutine takes from either channel at any time, or stops.
\<close>

inductive voting_run :: "wire_api \<Rightarrow> 'k key_api \<Rightarrow> 's vote_api \<Rightarrow> net_params \<Rightarrow> nat \<Rightarrow>
    nat \<Rightarrow> nat \<Rightarrow> ('m, 's) voting_system \<Rightarrow> bool"
  for w K api params early where
  started: "operating w K api params 0 0 (votingWallet y) (vwWorld y) \<Longrightarrow>
    blockConnectedNtfnChan y = [] \<Longrightarrow> winningTicketsNtfnChan y = [] \<Longrightarrow>
    voting_run w K api params early 0 0 y"
| block_mined: "voting_run w K api params early n d y \<Longrightarrow> d = winsDue params early n \<Longrightarrow>
    length (winningTicketsNtfnChan y) < unat (CoinbaseMaturity params) \<Longrightarrow>
    HeaderFromBytes w (blockHeader ntfn) = Inr hdr \<Longrightarrow>
    uint (hdrHeight hdr) = firstHeight params early + int n \<Longrightarrow>
    sendBlock ntfn y = Some y' \<Longrightarrow> voting_run w K api params early (Suc n) d y'"
| winners_drawn: "voting_run w K api params early n d y \<Longrightarrow> d < winsDue params early n \<Longrightarrow>
    ntfnBlockHeight ntfn = StakeValidationHeight params - 1 + int d \<Longrightarrow> ntfnBlockHeight ntfn < 2 ^ 32 \<Longrightarrow>
    unat (TicketsPerBlock params) \<le> length (ownWinners (votingWallet y) (winningTickets ntfn)) \<Longrightarrow>
    sendWinning ntfn y = Some y' \<Longrightarrow> voting_run w K api params early n (Suc d) y'"
| handled: "voting_run w K api params early n d y \<Longrightarrow> handleNotifications w K api y (Ok y') \<Longrightarrow>
    voting_run w K api params early n d y'"

section \<open>What waits in the channels\<close>

fun blocksFrom :: "wire_api \<Rightarrow> int \<Rightarrow> blockConnectedNtfn list \<Rightarrow> bool" where
  "blocksFrom w h [] \<longleftrightarrow> True"
| "blocksFrom w h (n # ns) \<longleftrightarrow>
     (\<exists>hdr. HeaderFromBytes w (blockHeader n) = Inr hdr \<and> uint (hdrHeight hdr) = h) \<and> blocksFrom w (h + 1) ns"

fun winsFrom :: "net_params \<Rightarrow> 'm voting_wallet \<Rightarrow> int \<Rightarrow> winningTicketsNtfn list \<Rightarrow> bool" where
  "winsFrom params vw h [] \<longleftrightarrow> True"
| "winsFrom params vw h (n # ns) \<longleftrightarrow>
     ntfnBlockHeight n = h \<and> h < 2 ^ 32 \<and>
     unat (TicketsPerBlock params) \<le> length (ownWinners vw (winningTickets n)) \<and> winsFrom params vw (h + 1) ns"

lemma blocksFrom_append [simp]:
  "blocksFrom w h (xs @ ys) \<longleftrightarrow> blocksFrom w h xs \<and> blocksFrom w (h + int (length xs)) ys"
  by (induction xs arbitrary: h) (auto simp: algebra_simps)

lemma winsFrom_append [simp]:
  "winsFrom params vw h (xs @ ys) \<longleftrightarrow> winsFrom params vw h xs \<and> winsFrom params vw (h + int (length xs)) ys"
  by (induction xs arbitrary: h) (auto simp: algebra_simps)

definition knows_more :: "'m voting_wallet \<Rightarrow> 'm voting_wallet \<Rightarrow> bool" where
  "knows_more vw' vw \<longleftrightarrow> dom (tickets vw) \<subseteq> dom (tickets vw')"

lemma knows_moreD: "knows_more vw' vw \<Longrightarrow> tickets vw x = Some y \<Longrightarrow> \<exists>y'. tickets vw' x = Some y'"
  by (auto simp: knows_more_def)

lemma ownWinners_mono:
  assumes "knows_more vw' vw"
  shows "length (ownWinners vw wts) \<le> length (ownWinners vw' wts)"
proof (induction wts)
  case (Cons wt wts)
  then show ?case using knows_moreD [OF assms, of wt] by (auto simp: ownWinners_def)
qed (simp add: ownWinners_def)

lemma winsFrom_mono:
  assumes "knows_more vw' vw"
  shows "winsFrom params vw h ns \<Longrightarrow> winsFrom params vw' h ns"
proof (induction ns arbitrary: h)
  case (Cons n ns)
  then show ?case using ownWinners_mono [OF assms, of "winningTickets n"] by simp
qed simp

text \<open>Tickets are never forgotten.\<close>

lemma receiveTickets_tickets:
  assumes "receiveTickets price qs vw = (b, vw')"
  shows "knows_more vw' vw"
  using assms
proof (induction qs arbitrary: vw)
  case (Cons q qs)
  show ?case
  proof (cases q)
    case (Inr h)
    with Cons.prems Cons.IH [of "vw\<lparr>tickets := (tickets vw)(h \<mapsto> \<lparr>ticketPrice = price\<rparr>)\<rparr>"]
    show ?thesis by (simp add: knows_more_def)
  qed (use Cons.prems in \<open>auto simp: logError_def knows_more_def\<close>)
qed (simp add: knows_more_def)

lemma handle_block_tickets:
  fixes vw :: "'m voting_wallet"
  assumes "handleBlockConnectedNtfn w K api ntfn vw s = (vw', t)"
  shows "knows_more vw' vw"
proof -
  have rel: "knows_more (releaseMaturing h v) vw \<longleftrightarrow> knows_more v vw"
      "knows_more (logError e v) vw \<longleftrightarrow> knows_more v vw" for h e v
    by (simp_all add: releaseMaturing_def logError_def knows_more_def split: option.split)
  have upd: "knows_more v (vw\<lparr>vwUtxos := us\<rparr>) \<longleftrightarrow> knows_more v vw"
      "knows_more (vw\<lparr>vwUtxos := us\<rparr>) v \<longleftrightarrow> knows_more vw v" for us v
    by (simp_all add: knows_more_def)
  have refl: "knows_more v v" for v :: "'m voting_wallet" by (simp add: knows_more_def)
  note got = receiveTickets_tickets [of _ _ "vw\<lparr>vwUtxos := us\<rparr>" for us, unfolded upd]
  show ?thesis
    using assms unfolding handleBlockConnectedNtfn_def Let_def
    by (auto simp: rel upd refl dest!: got split: sum.splits if_splits prod.splits bool.splits)
qed

lemma handle_winning_tickets:
  "handleWinningTicketsNtfn w K api ntfn vw s = (Ok vw', t) \<Longrightarrow> tickets vw' = tickets vw"
  by (auto simp: handleWinningTicketsNtfn_def Let_def logError_def split: sum.splits res.splits prod.splits)

lemma handle_block_early:
  "HeaderFromBytes w (blockHeader ntfn) = Inr hdr \<Longrightarrow>
   uint (hdrHeight hdr) < ticketPurchaseStartHeight (activeNet vw) \<Longrightarrow>
   handleBlockConnectedNtfn w K api ntfn vw s = (vw, s)"
  by (simp add: handleBlockConnectedNtfn_def Let_def)

section \<open>Every run is supplied\<close>

text \<open>
  Of the \<open>n\<close> blocks \<open>b\<close> have been handled and the others wait in their channel, in the order of
  their heights; likewise \<open>v\<close> of the \<open>d\<close> winning ticket notifications. The handled ones are an
  operation of the wallet as \<open>operating\<close> describes it, and no block that has been delivered can
  overtake the votes that mature at its height.
\<close>

definition system_ok :: "wire_api \<Rightarrow> 'k key_api \<Rightarrow> 's vote_api \<Rightarrow> net_params \<Rightarrow> nat \<Rightarrow>
    nat \<Rightarrow> nat \<Rightarrow> nat \<Rightarrow> nat \<Rightarrow> ('m, 's) voting_system \<Rightarrow> bool" where
  "system_ok w K api params early n d b v y \<longleftrightarrow>
     n = b + length (blockConnectedNtfnChan y) \<and> d = v + length (winningTicketsNtfnChan y) \<and>
     d \<le> winsDue params early n \<and> n \<le> early + purchaseDelay params + v \<and>
     operating w K api params (b - early) v (votingWallet y) (vwWorld y) \<and>
     blocksFrom w (firstHeight params early + int b) (blockConnectedNtfnChan y) \<and>
     winsFrom params (votingWallet y) (StakeValidationHeight params - 1 + int v) (winningTicketsNtfnChan y)"

lemma system_ok_mined:
  assumes "system_ok w K api params early n d b v y" "d = winsDue params early n"
    "length (winningTicketsNtfnChan y) < unat (CoinbaseMaturity params)"
    "HeaderFromBytes w (blockHeader ntfn) = Inr hdr"
    "uint (hdrHeight hdr) = firstHeight params early + int n" "sendBlock ntfn y = Some y'"
  shows "system_ok w K api params early (Suc n) d b v y'"
proof -
  note ok = assms(1) [unfolded system_ok_def]
  have "Suc n \<le> early + purchaseDelay params + v"
    using ok assms(2,3) by (auto simp: winsDue_def purchaseDelay_def)
  moreover have "d \<le> winsDue params early (Suc n)" using assms(2) by (simp add: winsDue_def)
  ultimately show ?thesis
    using ok blocks.send_Some [OF assms(6)] sendBlock_keeps [OF assms(6)] assms(4,5)
    by (simp add: system_ok_def add.assoc)
qed

lemma system_ok_drawn:
  assumes "system_ok w K api params early n d b v y" "d < winsDue params early n"
    "ntfnBlockHeight ntfn = StakeValidationHeight params - 1 + int d" "ntfnBlockHeight ntfn < 2 ^ 32"
    "unat (TicketsPerBlock params) \<le> length (ownWinners (votingWallet y) (winningTickets ntfn))"
    "sendWinning ntfn y = Some y'"
  shows "system_ok w K api params early n (Suc d) b v y'"
  using assms(1-5) wins.send_Some [OF assms(6)] sendWinning_keeps [OF assms(6)]
  by (simp add: system_ok_def add.assoc)

lemma system_ok_block:
  assumes "system_ok w K api params early n d b v y" "blockConnectedNtfnChan y = ntfn # ns"
    "handleBlockConnectedNtfn w K api ntfn (votingWallet y) (vwWorld y) = (vw, s)" "params_ok params"
    "services_ok w K api"
  shows "system_ok w K api params early n d (Suc b) v
    (y\<lparr>votingWallet := vw, vwWorld := s, blockConnectedNtfnChan := ns\<rparr>)"
proof -
  note ok = assms(1) [unfolded system_ok_def]
  from ok assms(2) obtain hdr where
    hdr: "HeaderFromBytes w (blockHeader ntfn) = Inr hdr" "uint (hdrHeight hdr) = firstHeight params early + int b"
    by auto
  have op: "operating w K api params (b - early) v (votingWallet y) (vwWorld y)" using ok by blast
  have "operating w K api params (Suc b - early) v vw s"
  proof (cases "b < early")
    case True
    have "activeNet (votingWallet y) = params"
      using operating_supplied [OF op assms(5,4)] by (simp add: supplied_def)
    with True hdr have "uint (hdrHeight hdr) < ticketPurchaseStartHeight (activeNet (votingWallet y))"
      by (simp add: firstHeight_def)
    from handle_block_early [OF hdr(1) this, where K = K and api = api and s = "vwWorld y"] assms(3) op True show ?thesis by (simp add: Suc_diff_le)
  next
    case False
    with hdr(2) have "uint (hdrHeight hdr) = ticketPurchaseStartHeight params + int (b - early)"
      by (simp add: firstHeight_def of_nat_diff)
    moreover have "b - early < purchaseDelay params + v" using ok assms(2) False by auto
    ultimately have "operating w K api params (Suc (b - early)) v vw s"
      by (rule block_connected [OF op hdr(1) _ _ assms(3)])
    with False show ?thesis by (simp add: Suc_diff_le)
  qed
  with ok assms(2) winsFrom_mono [OF handle_block_tickets [OF assms(3)]] show ?thesis
    by (auto simp: system_ok_def add_ac)
qed

lemma system_ok_winning:
  assumes "system_ok w K api params early n d b v y" "winningTicketsNtfnChan y = ntfn # ns"
    "params_ok params" "services_ok w K api"
  shows "\<exists>vw s. handleWinningTicketsNtfn w K api ntfn (votingWallet y) (vwWorld y) = (Ok vw, s) \<and>
    system_ok w K api params early n d b (Suc v)
      (y\<lparr>votingWallet := vw, vwWorld := s, winningTicketsNtfnChan := ns\<rparr>)"
proof -
  note ok = assms(1) [unfolded system_ok_def]
  have op: "operating w K api params (b - early) v (votingWallet y) (vwWorld y)" using ok by blast
  have win: "ntfnBlockHeight ntfn = StakeValidationHeight params - 1 + int v" "ntfnBlockHeight ntfn < 2 ^ 32"
    "unat (TicketsPerBlock params) \<le> length (ownWinners (votingWallet y) (winningTickets ntfn))"
    using ok assms(2) by auto
  from supplied_winning [OF assms(4,3) operating_supplied [OF op assms(4,3)] win] obtain vw s where
    h: "handleWinningTicketsNtfn w K api ntfn (votingWallet y) (vwWorld y) = (Ok vw, s)" by blast
  from tickets_won [OF op win h] have "operating w K api params (b - early) (Suc v) vw s" .
  moreover have "winsFrom params vw h' ns" if "winsFrom params (votingWallet y) h' ns" for h'
    using winsFrom_mono [OF _ that, of vw] handle_winning_tickets [OF h] by (simp add: knows_more_def)
  ultimately show ?thesis
    using h ok assms(2) by (auto simp: system_ok_def add_ac)
qed

lemma system_ok_handled:
  assumes "system_ok w K api params early n d b v y" "handleNotifications w K api y q" "params_ok params"
    "services_ok w K api"
  shows "\<exists>y' b' v'. q = Ok y' \<and> system_ok w K api params early n d b' v' y'"
  using assms(2)
proof (cases rule: handleNotifications.cases)
  case ctx_done
  with assms(1) show ?thesis by (auto simp: system_ok_def)
next
  case (block_ntfn ntfn ns vw s)
  with system_ok_block [OF assms(1) block_ntfn(3,4) assms(3,4)] show ?thesis by blast
next
  case (winning_ntfn ntfn ns q' s)
  with system_ok_winning [OF assms(1) winning_ntfn(3) assms(3,4)] show ?thesis by fastforce
qed

lemma voting_run_ok:
  assumes "voting_run w K api params early n d y" "params_ok params" "services_ok w K api"
  shows "\<exists>b v. system_ok w K api params early n d b v y"
  using assms
proof (induction rule: voting_run.induct)
  case (started y)
  then show ?case by (intro exI [of _ 0]) (simp add: system_ok_def)
next
  case (block_mined n d y ntfn hdr y')
  with system_ok_mined [OF _ block_mined(2-6)] show ?case by blast
next
  case (winners_drawn n d y ntfn y')
  with system_ok_drawn [OF _ winners_drawn(2-6)] show ?case by blast
next
  case (handled n d y y')
  with system_ok_handled [OF _ handled(2)] show ?case by blast
qed

section \<open>The property\<close>

text \<open>
  C5: The voting wallet never runs out of outputs. It is funded with the required number of
  outputs, the services it uses succeed, enough of its tickets win, and the miner does not get
  \<open>CoinbaseMaturity\<close> blocks ahead of the votes. Then, however the goroutine chooses between its
  two channels, the wallet holds after every step enough outputs for the next purchase: one
  purchase less per block it has handled since the start of the purchases until the first votes
  mature, and exactly one purchase from then on. No error is ever reported, no notification
  makes it panic, and the blocks it has not handled yet wait in the order of their heights.
\<close>

theorem voting_system_never_runs_out:
  assumes "services_ok w K api" "params_ok params" "voting_run w K api params early n d y"
    and "b = n - length (blockConnectedNtfnChan y)"
  shows "length (vwUtxos (votingWallet y)) = unat (TicketsPerBlock params) *
      (if b - early \<le> purchaseDelay params then purchaseDelay params + 1 - (b - early) else 1)
    \<and> unat (TicketsPerBlock params) \<le> length (vwUtxos (votingWallet y))
    \<and> reported (votingWallet y) = []
    \<and> blocksFrom w (firstHeight params early + int b) (blockConnectedNtfnChan y)
    \<and> (\<forall>q. handleNotifications w K api y q \<longrightarrow> (\<exists>y'. q = Ok y'))"
proof -
  from voting_run_ok [OF assms(3,2,1)] obtain b' v where ok: "system_ok w K api params early n d b' v y"
    by blast
  then have b: "b' = b" using assms(4) by (simp add: system_ok_def)
  have "operating w K api params (b - early) v (votingWallet y) (vwWorld y)"
    "blocksFrom w (firstHeight params early + int b) (blockConnectedNtfnChan y)"
    using ok by (simp_all add: system_ok_def b)
  moreover have "\<forall>q. handleNotifications w K api y q \<longrightarrow> (\<exists>y'. q = Ok y')"
    using system_ok_handled [OF ok _ assms(2,1)] by blast
  ultimately show ?thesis
    using voting_never_runs_out [OF assms(1,2)] by metis
qed

text \<open>One block is mined and handled: of the four outputs three are left.\<close>

definition demo_system :: "(nat miner, nat) voting_system" where
  "demo_system = \<lparr>votingWallet = demo_voter, vwWorld = 0, blockConnectedNtfnChan = [],
     winningTicketsNtfnChan = [], handling = True\<rparr>"

theorem voting_system_never_runs_out_witness:
  "\<exists>y y'. sendBlock demo_block demo_system = Some y \<and>
     handleNotifications demo_wire demo_keys demo_votes y (Ok y') \<and>
     length (vwUtxos (votingWallet y')) = 3 \<and> reported (votingWallet y') = []"
proof -
  obtain vw where vw: "handleBlockConnectedNtfn demo_wire demo_keys demo_votes demo_block demo_voter 0 = (vw, 1)"
    using demo_bought by blast
  let ?y = "demo_system\<lparr>blockConnectedNtfnChan := [demo_block]\<rparr>"
  let ?y' = "?y\<lparr>votingWallet := vw, vwWorld := 1, blockConnectedNtfnChan := []\<rparr>"
  have send: "sendBlock demo_block demo_system = Some ?y"
    by (simp add: sendBlock_def onBlockConnected_def demo_system_def bufferLen_def)
  have h: "handleNotifications demo_wire demo_keys demo_votes ?y (Ok ?y')"
    by (rule block_ntfn [of _ demo_block]) (use vw in \<open>simp_all add: demo_system_def\<close>)
  have "voting_run demo_wire demo_keys demo_votes tiny_net 0 0 0 demo_system"
    by (rule started) (simp_all add: demo_system_def demo_funded)
  then have "voting_run demo_wire demo_keys demo_votes tiny_net 0 (Suc 0) 0 ?y"
    by (rule block_mined [OF _ _ _ demo_block_header _ send])
      (simp_all add: winsDue_def firstHeight_def demo_system_def demo_block_defs)
  from voting_system_never_runs_out [OF demo_services tiny_params handled [OF this h] refl] send h
  show ?thesis by (auto simp: purchaseDelay_def demo_system_def voter_defs)
qed

end
