(* ===== verification/Mining.thy ===== *)
theory Mining
  imports Wire
begin

text \<open>
  \<open>solveBlock\<close> of \<open>simnet_miner.go\<close>: the nonce space is cut into one range per core, a goroutine
  searches each range, and the caller collects one result per goroutine.

  The goroutines and the caller interleave freely, so the search is a step relation: \<open>Work k\<close> is
  one round of the loop of goroutine \<open>k\<close>, \<open>Receive k\<close> the hand-over of its result to the caller
  on the unbuffered channel.
\<close>

section \<open>The functions of other packages\<close>

text \<open>\<open>header.PowHashV2\<close>, \<open>standalone.HashToBig\<close> and \<open>standalone.CompactToBig\<close>.\<close>

record pow_api =
  PowHashV2 :: "block_header \<Rightarrow> bytes"
  HashToBig :: "bytes \<Rightarrow> int"
  CompactToBig :: "u32 \<Rightarrow> int"

definition pow_ok :: "pow_api \<Rightarrow> block_header \<Rightarrow> bool" where
  "pow_ok api hdr \<longleftrightarrow> HashToBig api (PowHashV2 api hdr) \<le> CompactToBig api (Bits hdr)"

section \<open>The ranges\<close>

definition stopNonce :: u32 where
  "stopNonce = - 1"

definition noncesPerCore :: "u32 \<Rightarrow> u32" where
  "noncesPerCore numCores = (stopNonce - 1) div numCores"

definition rangeStart :: "u32 \<Rightarrow> u32 \<Rightarrow> u32" where
  "rangeStart numCores i = 1 + noncesPerCore numCores * i"

definition rangeStop :: "u32 \<Rightarrow> u32 \<Rightarrow> u32" where
  "rangeStop numCores i =
     (if i = numCores - 1 then stopNonce else 1 + noncesPerCore numCores * (i + 1) - 1)"

section \<open>The search\<close>

text \<open>A goroutine is at nonce \<open>i\<close>, has a result to send, or has sent it.\<close>

datatype worker = Solving u32 | Sending bool u32 | Exited

record search =
  workers :: "worker list"
  quitClosed :: bool
  received :: u32
  foundResult :: bool
  header :: block_header

definition search_init :: "u32 \<Rightarrow> block_header \<Rightarrow> search" where
  "search_init numCores hdr =
     \<lparr>workers = map (\<lambda>k. Solving (rangeStart numCores (of_nat k))) [0..<unat numCores],
      quitClosed = False, received = 0, foundResult = False, header = hdr\<rparr>"

text \<open>One round of the solver loop.\<close>

fun solve_round :: "pow_api \<Rightarrow> block_header \<Rightarrow> bool \<Rightarrow> u32 \<Rightarrow> u32 \<Rightarrow> u32 \<Rightarrow> worker" where
  "solve_round api hdr quit start stop i =
     (if \<not> (start \<le> i \<and> i \<le> stop) then Sending False 0
      else if quit then Sending False 0
      else if pow_ok api (hdr\<lparr>Nonce := i\<rparr>) then Sending True i
      else Solving (i + 1))"

text \<open>The caller's loop body for one result; \<open>close(quit)\<close> panics on a closed channel.\<close>

definition collect :: "bool \<Rightarrow> u32 \<Rightarrow> search \<Rightarrow> search res" where
  "collect found nonce s =
     (let s = s\<lparr>received := received s + 1\<rparr> in
      if \<not> foundResult s \<and> found then
        (if quitClosed s then Panic CloseOfClosed
         else Ok (s\<lparr>quitClosed := True, header := (header s)\<lparr>Nonce := nonce\<rparr>, foundResult := True\<rparr>))
      else Ok s)"

datatype search_event = Work nat | Receive nat

fun search_step :: "pow_api \<Rightarrow> u32 \<Rightarrow> block_header \<Rightarrow> search_event \<Rightarrow> search \<Rightarrow> search res option" where
  "search_step api numCores hdr (Work k) s =
     (if k < length (workers s) then
        (case workers s ! k of
           Solving i \<Rightarrow> Some (Ok (s\<lparr>workers := (workers s)[k :=
             solve_round api hdr (quitClosed s) (rangeStart numCores (of_nat k))
               (rangeStop numCores (of_nat k)) i]\<rparr>))
         | _ \<Rightarrow> None)
      else None)"
| "search_step api numCores hdr (Receive k) s =
     (if k < length (workers s) \<and> received s < numCores then
        (case workers s ! k of
           Sending found nonce \<Rightarrow> Some (collect found nonce (s\<lparr>workers := (workers s)[k := Exited]\<rparr>))
         | _ \<Rightarrow> None)
      else None)"

inductive solve_run :: "pow_api \<Rightarrow> u32 \<Rightarrow> block_header \<Rightarrow> nat \<Rightarrow> search \<Rightarrow> bool"
  for api numCores hdr where
  solve_start: "solve_run api numCores hdr 0 (search_init numCores hdr)"
| solve_next: "solve_run api numCores hdr n s \<Longrightarrow>
    search_step api numCores hdr ev s = Some (Ok t) \<Longrightarrow> solve_run api numCores hdr (Suc n) t"

text \<open>\<open>solveBlock\<close> returns when the caller has received a result from every core.\<close>

definition solve_returns :: "u32 \<Rightarrow> search \<Rightarrow> bool" where
  "solve_returns numCores s \<longleftrightarrow> received s = numCores"

definition solveBlock :: "pow_api \<Rightarrow> u32 \<Rightarrow> block_header \<Rightarrow> bool \<times> block_header \<Rightarrow> bool" where
  "solveBlock api numCores hdr result \<longleftrightarrow>
     (\<exists>n s. solve_run api numCores hdr n s \<and> solve_returns numCores s
        \<and> result = (foundResult s, header s))"

section \<open>The ranges partition the nonces\<close>

text \<open>The number of cores of a machine: between one and two thousand million.\<close>

definition cores_ok :: "u32 \<Rightarrow> bool" where
  "cores_ok numCores \<longleftrightarrow> 0 < numCores \<and> unat numCores < 2 ^ 31"

lemma stopNonce_unat [simp]: "unat stopNonce = 4294967295"
  by (simp add: stopNonce_def unsigned_minus_1_eq_mask mask_eq_exp_minus_1)

lemma le_stopNonce [simp]: "x \<le> stopNonce"
  by (simp add: stopNonce_def word_n1_ge)

lemma noncesPerCore_unat: "unat (noncesPerCore n) = 4294967294 div unat n"
proof -
  have "unat (stopNonce - 1) = 4294967294"
    by (simp add: stopNonce_def)
  then show ?thesis by (simp add: noncesPerCore_def unat_div)
qed

lemma range_arith:
  assumes "cores_ok n"
  shows "0 < unat (noncesPerCore n)" "unat (noncesPerCore n) * unat n \<le> 4294967294"
  using assms by (auto simp: cores_ok_def noncesPerCore_unat div_greater_zero_iff unat_pos)

lemma rangeStart_unat:
  assumes "cores_ok n" "k < unat n"
  shows "unat (rangeStart n (of_nat k)) = 1 + unat (noncesPerCore n) * k"
proof -
  have "unat (noncesPerCore n) * k \<le> unat (noncesPerCore n) * unat n"
    using assms(2) by simp
  with range_arith(2) [OF assms(1)] have *: "unat (noncesPerCore n) * k \<le> 4294967294" by linarith
  have k: "unat (of_nat k :: u32) = k"
    using assms(2) unat_u32_less [of n] by (intro unat_of_nat_u32) linarith
  have "rangeStart n (of_nat k) = of_nat (1 + unat (noncesPerCore n) * k)"
    by (simp add: rangeStart_def)
  then show ?thesis using * by (simp add: unat_of_nat take_bit_eq_mod del: of_nat_Suc of_nat_mult of_nat_add)
qed

lemma rangeStop_unat:
  assumes "cores_ok n" "k < unat n"
  shows "unat (rangeStop n (of_nat k)) =
    (if Suc k = unat n then 4294967295 else unat (noncesPerCore n) * Suc k)"
proof -
  have k: "unat (of_nat k :: u32) = k"
    using assms(2) unat_u32_less [of n] by (intro unat_of_nat_u32) linarith
  have n: "0 < unat n" using assms(1) by (simp add: cores_ok_def unat_pos)
  have last: "(of_nat k :: u32) = n - 1 \<longleftrightarrow> Suc k = unat n"
  proof -
    have "unat (n - 1) = unat n - 1" using n by (simp add: unat_minus_one unat_gt_0)
    then show ?thesis using k n by (auto simp: word_unat_eq_iff)
  qed
  have le: "unat (noncesPerCore n) * Suc k \<le> 4294967294"
  proof -
    have "unat (noncesPerCore n) * Suc k \<le> unat (noncesPerCore n) * unat n"
      using assms(2) by (simp only: mult_le_mono2 Suc_leI)
    with range_arith(2) [OF assms(1)] show ?thesis by linarith
  qed
  have "1 + noncesPerCore n * (of_nat k + 1) - 1 = of_nat (unat (noncesPerCore n) * Suc k)"
    by (simp add: algebra_simps)
  then have "unat (1 + noncesPerCore n * (of_nat k + 1) - 1) = unat (noncesPerCore n) * Suc k"
    using le by (simp only:) (rule unat_of_nat_u32, linarith)
  then show ?thesis using last by (simp add: rangeStop_def)
qed

text \<open>The nonces of goroutine \<open>k\<close>.\<close>

definition in_range :: "u32 \<Rightarrow> nat \<Rightarrow> u32 \<Rightarrow> bool" where
  "in_range n k x \<longleftrightarrow> rangeStart n (of_nat k) \<le> x \<and> x \<le> rangeStop n (of_nat k)"

lemma in_range_unat:
  assumes "cores_ok n" "k < unat n"
  shows "in_range n k x \<longleftrightarrow> 1 + unat (noncesPerCore n) * k \<le> unat x
    \<and> (Suc k = unat n \<or> unat x \<le> unat (noncesPerCore n) * Suc k)"
  using rangeStart_unat [OF assms] rangeStop_unat [OF assms] unat_u32_less [of x]
  by (auto simp: in_range_def word_le_nat_alt split: if_splits)

lemma ranges_cover:
  assumes "cores_ok n" "x \<noteq> 0"
  shows "\<exists>k < unat n. in_range n k x"
proof -
  let ?q = "unat (noncesPerCore n)"
  define k where "k = (unat x - 1) div ?q"
  have q: "0 < ?q" "0 < unat n" using assms(1) range_arith(1) by (auto simp: cores_ok_def unat_pos)
  have x: "0 < unat x" using assms(2) by (simp add: unat_gt_0)
  have "?q * k \<le> unat x - 1" unfolding k_def by (rule times_div_less_eq_dividend)
  with x have lo: "1 + ?q * k \<le> unat x" by linarith
  have hi: "unat x \<le> ?q * Suc k"
    using x dividend_less_times_div [OF q(1), of "unat x - 1"] by (simp add: k_def)
  show ?thesis
  proof (cases "k < unat n")
    case True
    with lo hi show ?thesis by (intro exI [of _ k] conjI iffD2 [OF in_range_unat [OF assms(1) True]]) simp_all
  next
    case False
    let ?l = "unat n - 1"
    have l: "?l < unat n" "Suc ?l = unat n" using q(2) by simp_all
    have "?q * ?l \<le> ?q * k" using False by (intro mult_le_mono2) linarith
    with lo l show ?thesis
      by (intro exI [of _ ?l] conjI iffD2 [OF in_range_unat [OF assms(1) l(1)]]) linarith+
  qed
qed

lemma ranges_disjoint:
  assumes "cores_ok n" "j < k" "k < unat n" "in_range n j x"
  shows "\<not> in_range n k x"
proof -
  have "unat (noncesPerCore n) * Suc j \<le> unat (noncesPerCore n) * k"
    using assms(2) by (intro mult_le_mono2) simp
  moreover have "unat x \<le> unat (noncesPerCore n) * Suc j"
    using assms in_range_unat [OF assms(1), of j x] by linarith
  ultimately show ?thesis using in_range_unat [OF assms(1,3), of x] by linarith
qed

lemma in_range_nonzero: "cores_ok n \<Longrightarrow> k < unat n \<Longrightarrow> in_range n k x \<Longrightarrow> x \<noteq> 0"
  by (auto simp: in_range_unat)

lemma rangeStart_pos: "cores_ok n \<Longrightarrow> k < unat n \<Longrightarrow> rangeStart n (of_nat k) \<noteq> 0"
  using rangeStart_unat [of n k] by (metis add_eq_0_iff_both_eq_0 unat_0 zero_neq_one)

lemma rangeStart_in:
  assumes "cores_ok n" "k < unat n"
  shows "rangeStart n (of_nat k) \<le> rangeStop n (of_nat k)"
proof -
  have "unat (noncesPerCore n) * k \<le> unat (noncesPerCore n) * (unat n - 1)"
    using assms(2) by (intro mult_le_mono2) simp
  moreover have "unat (noncesPerCore n) * (unat n - 1) \<le> unat (noncesPerCore n) * unat n"
    by (intro mult_le_mono2) simp
  ultimately have "unat (noncesPerCore n) * k \<le> 4294967294"
    using range_arith(2) [OF assms(1)] by linarith
  then show ?thesis using assms range_arith(1) [OF assms(1)]
    by (simp add: word_le_nat_alt rangeStart_unat rangeStop_unat)
qed

text \<open>
  C18: Every nonce but zero lies in the range of exactly one of the goroutines, for every number of
  cores: the 32-bit arithmetic of the ranges neither overlaps nor leaves a gap.
\<close>

theorem nonce_ranges_partition:
  assumes "cores_ok n" "x \<noteq> 0"
  shows "\<exists>!k. k < unat n \<and> rangeStart n (of_nat k) \<le> x \<and> x \<le> rangeStop n (of_nat k)"
  using ranges_cover [OF assms] ranges_disjoint [OF assms(1)]
  unfolding in_range_def by (metis linorder_neqE_nat)

theorem nonce_ranges_partition_witness:
  "\<exists>!k. k < unat (6 :: u32) \<and> rangeStart 6 (of_nat k) \<le> 7 \<and> 7 \<le> rangeStop 6 (of_nat k)"
  by (rule nonce_ranges_partition) (simp_all add: cores_ok_def)

section \<open>What the search keeps\<close>

text \<open>
  What is known of goroutine \<open>k\<close>: before nonce \<open>i\<close> (which is zero once the counter has wrapped
  around) nothing in its range solves the block; a nonce it sends solves it; and without a
  solution anywhere it has seen its whole range.
\<close>

definition solves :: "pow_api \<Rightarrow> block_header \<Rightarrow> u32 \<Rightarrow> bool" where
  "solves api hdr x \<longleftrightarrow> pow_ok api (hdr\<lparr>Nonce := x\<rparr>)"

fun worker_ok :: "pow_api \<Rightarrow> u32 \<Rightarrow> block_header \<Rightarrow> bool \<Rightarrow> nat \<Rightarrow> worker \<Rightarrow> bool" where
  "worker_ok api n hdr found k (Solving i) \<longleftrightarrow>
     (i = 0 \<or> rangeStart n (of_nat k) \<le> i) \<and>
     (\<forall>x. in_range n k x \<and> (i = 0 \<or> x < i) \<longrightarrow> \<not> solves api hdr x)"
| "worker_ok api n hdr found k (Sending True x) \<longleftrightarrow> in_range n k x \<and> solves api hdr x"
| "worker_ok api n hdr found k (Sending False _) \<longleftrightarrow>
     found \<or> (\<forall>x. in_range n k x \<longrightarrow> \<not> solves api hdr x)"
| "worker_ok api n hdr found k Exited \<longleftrightarrow>
     found \<or> (\<forall>x. in_range n k x \<longrightarrow> \<not> solves api hdr x)"

definition exited :: "worker list \<Rightarrow> nat" where
  "exited ws = sum_list (map (\<lambda>w. if w = Exited then 1 else 0) ws)"

definition search_inv :: "pow_api \<Rightarrow> u32 \<Rightarrow> block_header \<Rightarrow> search \<Rightarrow> bool" where
  "search_inv api n hdr s \<longleftrightarrow>
     length (workers s) = unat n \<and>
     (\<forall>k < unat n. worker_ok api n hdr (foundResult s) k (workers s ! k)) \<and>
     quitClosed s = foundResult s \<and>
     unat (received s) = exited (workers s) \<and>
     (if foundResult s then \<exists>x. x \<noteq> 0 \<and> solves api hdr x \<and> header s = hdr\<lparr>Nonce := x\<rparr>
      else header s = hdr)"

lemma worker_ok_found: "worker_ok api n hdr False k w \<Longrightarrow> worker_ok api n hdr found k w"
  by (cases "(api, n, hdr, False, k, w)" rule: worker_ok.cases) auto

lemma exited_update:
  "k < length ws \<Longrightarrow> exited (ws[k := w]) =
   exited ws + (if w = Exited then 1 else 0) - (if ws ! k = Exited then 1 else 0)"
  by (simp add: exited_def map_update sum_list_update)

lemma exited_le: "exited ws \<le> length ws"
  by (induction ws) (auto simp: exited_def)

lemma exited_all: "exited ws = length ws \<longleftrightarrow> (\<forall>w \<in> set ws. w = Exited)"
proof (induction ws)
  case (Cons w ws)
  with exited_le [of ws] show ?case by (auto simp: exited_def)
qed (simp add: exited_def)

lemma word_less_add_1: "(i :: u32) + 1 = 0 \<or> x < i + 1 \<longleftrightarrow> i = -1 \<or> x \<le> i"
proof (cases "i + 1 = 0")
  case True
  then show ?thesis by (simp add: eq_neg_iff_add_eq_0)
next
  case False
  then have "i \<noteq> -1" by (auto simp: eq_neg_iff_add_eq_0)
  moreover have "unat (i + 1) = Suc (unat i)" using False unatSuc [of i] by (simp add: add.commute)
  ultimately show ?thesis using False by (simp add: word_less_nat_alt word_le_nat_alt less_Suc_eq_le)
qed

lemma solve_round_ok:
  assumes "worker_ok api n hdr found k (Solving i)" "quit = found" "cores_ok n" "k < unat n"
  shows "worker_ok api n hdr found k
    (solve_round api hdr quit (rangeStart n (of_nat k)) (rangeStop n (of_nat k)) i)"
proof (cases "in_range n k i")
  case False
  have "\<not> solves api hdr x" if x: "in_range n k x" for x
  proof (cases "i = 0")
    case True
    with assms(1) x show ?thesis by simp
  next
    case i: False
    with assms(1) False have "rangeStop n (of_nat k) < i" by (auto simp: in_range_def)
    with x have "x < i" by (auto simp: in_range_def)
    with assms(1) x show ?thesis by auto
  qed
  with False show ?thesis by (simp add: in_range_def)
next
  case True
  then have i: "i \<noteq> 0" using in_range_nonzero [OF assms(3,4)] by blast
  show ?thesis
  proof (cases "quit \<or> solves api hdr i")
    case True
    with \<open>in_range n k i\<close> assms(2) show ?thesis by (auto simp: in_range_def solves_def)
  next
    case False
    have "\<not> solves api hdr x" if "in_range n k x" "i + 1 = 0 \<or> x < i + 1" for x
    proof (cases "x = i")
      case False
      have "x \<le> i" using that(2) word_less_add_1 [of i x] by (auto simp: word_n1_ge)
      with False assms(1) that(1) show ?thesis by auto
    qed (use \<open>\<not> (quit \<or> solves api hdr i)\<close> in simp)
    moreover have "i + 1 = 0 \<or> rangeStart n (of_nat k) \<le> i + 1"
      using True word_less_add_1 [of i "rangeStart n (of_nat k)"] by (auto simp: in_range_def)
    ultimately show ?thesis using True False by (simp add: in_range_def solves_def)
  qed
qed

lemma search_inv_init: "cores_ok n \<Longrightarrow> search_inv api n hdr (search_init n hdr)"
proof -
  assume n: "cores_ok n"
  have "\<not> x < rangeStart n (of_nat k)" if "in_range n k x" for x k
    using that by (auto simp: in_range_def)
  moreover have "exited (map (\<lambda>k. Solving (f k)) ks) = 0" for f and ks :: "nat list"
    by (induction ks) (auto simp: exited_def)
  ultimately show ?thesis
    using rangeStart_pos [OF n] by (auto simp: search_inv_def search_init_def)
qed

lemma search_inv_work:
  assumes "search_inv api n hdr s" "cores_ok n" "search_step api n hdr (Work k) s = Some r"
  shows "\<exists>t. r = Ok t \<and> search_inv api n hdr t"
proof -
  from assms(3) obtain i where i: "k < length (workers s)" "workers s ! k = Solving i"
    by (auto split: if_splits worker.splits)
  let ?w = "solve_round api hdr (quitClosed s) (rangeStart n (of_nat k)) (rangeStop n (of_nat k)) i"
  have k: "k < unat n" using assms(1) i(1) by (simp add: search_inv_def)
  have "worker_ok api n hdr (foundResult s) k ?w"
    using solve_round_ok [of api n hdr "foundResult s" k i "quitClosed s"] assms(1,2) i k
    unfolding search_inv_def by metis
  moreover have "?w \<noteq> Exited" by simp
  moreover have "r = Ok (s\<lparr>workers := (workers s)[k := ?w]\<rparr>)" using assms(3) i by simp
  ultimately show ?thesis
    using assms(1) i k by (auto simp: search_inv_def exited_update nth_list_update
        simp del: solve_round.simps)
qed

lemma search_inv_receive:
  assumes inv: "search_inv api n hdr s" "cores_ok n" "search_step api n hdr (Receive k) s = Some r"
  shows "\<exists>t. r = Ok t \<and> search_inv api n hdr t"
proof -
  from inv(3) obtain f x where w: "k < length (workers s)" "workers s ! k = Sending f x"
      "received s < n" "r = collect f x (s\<lparr>workers := (workers s)[k := Exited]\<rparr>)"
    by (auto split: if_splits worker.splits)
  have k: "k < unat n" and ok: "worker_ok api n hdr (foundResult s) k (Sending f x)"
    using inv(1) w(1,2) unfolding search_inv_def by metis+
  have "received s \<noteq> -1" using w(3) by (metis word_n1_ge linorder_not_less)
  then have rec: "unat (received s + 1) = Suc (unat (received s))"
    using unatSuc [of "received s"] by (simp add: add.commute eq_neg_iff_add_eq_0)
  then have count: "unat (received s + 1) = exited ((workers s)[k := Exited])"
    using inv(1) w(1,2) by (simp add: search_inv_def exited_update)
  show ?thesis
  proof (cases "f \<and> \<not> foundResult s")
    case True
    with ok have x: "in_range n k x" "solves api hdr x" by simp_all
    have "\<forall>j < unat n. worker_ok api n hdr True j ((workers s)[k := Exited] ! j)"
      using inv(1) True w(1) worker_ok_found [of api n hdr _ _ True]
      by (auto simp: search_inv_def nth_list_update)
    then show ?thesis
      using True w inv(1) x count in_range_nonzero [OF inv(2) k x(1)]
      by (auto simp: collect_def search_inv_def)
  next
    case False
    have "worker_ok api n hdr (foundResult s) k Exited" using False ok by (cases f) auto
    then have "\<forall>j < unat n. worker_ok api n hdr (foundResult s) j ((workers s)[k := Exited] ! j)"
      using inv(1) w(1) by (auto simp: search_inv_def nth_list_update)
    then show ?thesis
      using False w inv(1) count by (auto simp: collect_def search_inv_def)
  qed
qed

lemma search_inv_step:
  "search_inv api n hdr s \<Longrightarrow> cores_ok n \<Longrightarrow> search_step api n hdr ev s = Some r \<Longrightarrow>
   \<exists>t. r = Ok t \<and> search_inv api n hdr t"
  using search_inv_work search_inv_receive by (cases ev) metis+

lemma search_inv_run:
  assumes "solve_run api n hdr m s" "cores_ok n"
  shows "search_inv api n hdr s"
  using assms by (induction rule: solve_run.induct) (auto simp: search_inv_init dest: search_inv_step)

section \<open>The search ends\<close>

fun cost :: "worker \<Rightarrow> nat" where
  "cost (Solving i) = 2 + (if i = 0 then 0 else 2 ^ 32 - unat i)"
| "cost (Sending _ _) = 1"
| "cost Exited = 0"

definition total_cost :: "search \<Rightarrow> nat" where
  "total_cost s = sum_list (map cost (workers s))"

lemma cost_solve_round:
  assumes "cores_ok n" "k < unat n"
  shows "cost (solve_round api hdr quit (rangeStart n (of_nat k)) stop i) < cost (Solving i)"
proof -
  have "i \<noteq> 0" if "rangeStart n (of_nat k) \<le> i"
    using that rangeStart_pos [OF assms] by (metis word_le_0_iff)
  moreover have "2 ^ 32 - unat (i + 1) < 2 ^ 32 - unat i" if "i + 1 \<noteq> 0"
    using unatSuc [of i] that unat_u32_less [of i] by (simp add: add.commute)
  moreover have "0 < 2 ^ 32 - unat i" using unat_u32_less [of i] by simp
  ultimately show ?thesis by auto
qed

lemma total_cost_update:
  assumes "k < length (workers s)" "cost w < cost (workers s ! k)" "workers t = (workers s)[k := w]"
  shows "total_cost t < total_cost s"
proof -
  have "cost (workers s ! k) \<le> total_cost s"
    unfolding total_cost_def by (rule member_le_sum_list) (simp_all add: assms(1))
  with assms show ?thesis by (simp add: total_cost_def map_update sum_list_update)
qed

lemma search_step_cost:
  assumes "search_inv api n hdr s" "cores_ok n" "search_step api n hdr ev s = Some (Ok t)"
  shows "total_cost t < total_cost s"
proof (cases ev)
  case (Work k)
  with assms(3) obtain i where i: "k < length (workers s)" "workers s ! k = Solving i"
    by (auto split: if_splits worker.splits)
  have "k < unat n" using assms(1) i(1) by (simp add: search_inv_def)
  from cost_solve_round [OF assms(2) this] i Work assms(3) show ?thesis
    by (intro total_cost_update [of k s]) (auto simp del: cost.simps solve_round.simps)
next
  case (Receive k)
  with assms(3) show ?thesis
    by (intro total_cost_update [of k s _ t])
      (auto simp: collect_def Let_def split: if_splits worker.splits)
qed

lemma run_length:
  assumes "solve_run api n hdr m s" "cores_ok n"
  shows "m + total_cost s \<le> unat n * (2 ^ 32 + 2)"
  using assms
proof (induction rule: solve_run.induct)
  case solve_start
  have "total_cost (search_init n hdr) \<le> (\<Sum>k\<leftarrow>[0..<unat n]. 2 ^ 32 + 2)"
    unfolding total_cost_def search_init_def by (simp add: comp_def) (rule sum_list_mono, simp)
  then show ?case by (simp add: sum_list_triv)
next
  case (solve_next m s ev t)
  with search_step_cost [OF search_inv_run] show ?case by fastforce
qed

lemma search_progress:
  assumes "search_inv api n hdr s" "cores_ok n" "\<not> solve_returns n s"
  shows "\<exists>ev t. search_step api n hdr ev s = Some (Ok t)"
proof -
  have len: "length (workers s) = unat n" and rec: "unat (received s) = exited (workers s)"
    using assms(1) by (simp_all add: search_inv_def)
  have "exited (workers s) \<noteq> length (workers s)"
    using assms(3) len rec by (auto simp: solve_returns_def dest: word_unat_eq_iff [THEN iffD2])
  then obtain w where "w \<in> set (workers s)" "w \<noteq> Exited" using exited_all by blast
  then obtain k where k: "k < length (workers s)" "workers s ! k = w" by (metis in_set_conv_nth)
  have lt: "received s < n"
    using exited_le [of "workers s"] \<open>exited (workers s) \<noteq> _\<close> len rec by (simp add: word_less_nat_alt)
  show ?thesis
  proof (cases w)
    case (Sending f x)
    with k lt have "search_step api n hdr (Receive k) s \<noteq> None" by simp
    with search_inv_receive [OF assms(1,2), of k] show ?thesis by blast
  qed (use k \<open>w \<noteq> Exited\<close> in \<open>auto intro!: exI [of _ "Work k"]\<close>)
qed

lemma solve_block_facts:
  assumes "cores_ok n" "solveBlock api n hdr (found, hdr')"
  shows "(found \<longleftrightarrow> (\<exists>x. x \<noteq> 0 \<and> pow_ok api (hdr\<lparr>Nonce := x\<rparr>))) \<and>
    (if found then \<exists>x. x \<noteq> 0 \<and> pow_ok api hdr' \<and> hdr' = hdr\<lparr>Nonce := x\<rparr> else hdr' = hdr)"
proof -
  obtain m s where run: "solve_run api n hdr m s" and ret: "received s = n"
      "found = foundResult s" "hdr' = header s"
    using assms(2) by (auto simp: solveBlock_def solve_returns_def)
  have inv: "search_inv api n hdr s" using search_inv_run [OF run assms(1)] .
  show ?thesis
  proof (cases found)
    case True
    with inv ret show ?thesis by (auto simp: search_inv_def solves_def)
  next
    case False
    have "exited (workers s) = length (workers s)" using inv ret(1) by (simp add: search_inv_def)
    then have ex: "k < unat n \<Longrightarrow> workers s ! k = Exited" for k
      using exited_all [of "workers s"] inv by (simp add: search_inv_def)
    have "worker_ok api n hdr False k Exited" if "k < unat n" for k
      using inv ex [OF that] that False ret(2) unfolding search_inv_def by metis
    then have "k < unat n \<Longrightarrow> in_range n k x \<Longrightarrow> \<not> solves api hdr x" for k x by simp
    then have "\<not> solves api hdr x" if "x \<noteq> 0" for x using ranges_cover [OF assms(1) that] by blast
    with False inv ret show ?thesis by (auto simp: search_inv_def solves_def)
  qed
qed

section \<open>Properties\<close>

text \<open>
  C6: \<open>solveBlock\<close> finds a solution exactly if some nonce other than zero solves the block,
  whatever the number of cores and the interleaving; it then puts such a nonce into the header
  and otherwise leaves the header as it was.
\<close>

theorem solve_block_correct:
  assumes "cores_ok n" "solveBlock api n hdr (found, hdr')"
  shows "(found \<longleftrightarrow> (\<exists>x. x \<noteq> 0 \<and> pow_ok api (hdr\<lparr>Nonce := x\<rparr>))) \<and>
    (if found then \<exists>x. x \<noteq> 0 \<and> pow_ok api hdr' \<and> hdr' = hdr\<lparr>Nonce := x\<rparr> else hdr' = hdr)"
  by (rule solve_block_facts [OF assms])

text \<open>
  C7: \<open>solveBlock\<close> always returns: every interleaving has at most 2^32 + 2 steps per core, none
  closes the channel \<open>quit\<close> twice, and until the caller has all results some step is possible.
\<close>

theorem solve_block_returns:
  assumes "cores_ok n" "solve_run api n hdr m s"
  shows "m \<le> unat n * (2 ^ 32 + 2) \<and>
    (solve_returns n s \<or> (\<exists>ev t. search_step api n hdr ev s = Some (Ok t))) \<and>
    (\<forall>ev p. search_step api n hdr ev s \<noteq> Some (Panic p))"
  using run_length [OF assms(2,1)] search_inv_run [OF assms(2,1)] search_progress [of api n hdr s]
    search_inv_step [of api n hdr s] assms(1)
  by fastforce

lemma solveBlock_total:
  assumes "cores_ok n"
  shows "\<exists>r. solveBlock api n hdr r"
proof -
  have "\<exists>m s. solve_run api n hdr m s \<and> solve_returns n s" if "solve_run api n hdr m0 s0" for m0 s0
    using that
  proof (induction "total_cost s0" arbitrary: m0 s0 rule: less_induct)
    case less
    note inv = search_inv_run [OF less.prems assms]
    show ?case
    proof (cases "solve_returns n s0")
      case False
      from search_progress [OF inv assms False] obtain ev t where
        t: "search_step api n hdr ev s0 = Some (Ok t)" by blast
      from less.hyps [OF search_step_cost [OF inv assms t] solve_next [OF less.prems t]] show ?thesis .
    qed (use less.prems in blast)
  qed
  from this [OF solve_start] show ?thesis by (auto simp: solveBlock_def)
qed

section \<open>A concrete search\<close>

text \<open>On two cores; the hash of a header is its nonce, and the target is seven.\<close>

definition demo_pow :: pow_api where
  "demo_pow = \<lparr>PowHashV2 = (\<lambda>hdr. [ucast (Nonce hdr)]), HashToBig = (\<lambda>h. uint (h ! 0)),
     CompactToBig = uint\<rparr>"

definition demo_header :: block_header where
  "demo_header = \<lparr>hdrHeight = 2, SBits = 20000, PrevBlock = [], Timestamp = 0, Bits = 7, Nonce = 0,
     hdrRest = []\<rparr>"

definition demo_found :: search where
  "demo_found = \<lparr>workers = [Exited, Exited], quitClosed = True, received = 2, foundResult = True,
     header = demo_header\<lparr>Nonce := 1\<rparr>\<rparr>"

lemma demo_search: "solve_run demo_pow 2 demo_header 4 demo_found"
proof -
  let ?run = "solve_run demo_pow 2 demo_header"
  note defs = search_init_def rangeStart_def rangeStop_def noncesPerCore_def stopNonce_def
    demo_pow_def demo_header_def pow_ok_def collect_def demo_found_def upt_rec
  have init: "search_init 2 demo_header = \<lparr>workers = [Solving 1, Solving 2147483648],
      quitClosed = False, received = 0, foundResult = False, header = demo_header\<rparr>"
    by (simp add: defs)
  have 1: "?run (Suc 0) \<lparr>workers = [Sending True 1, Solving 2147483648], quitClosed = False,
      received = 0, foundResult = False, header = demo_header\<rparr>"
    by (rule solve_next [OF solve_start [unfolded init], where ev = "Work 0"]) (simp add: defs)
  have 2: "?run (Suc (Suc 0)) \<lparr>workers = [Exited, Solving 2147483648], quitClosed = True,
      received = 1, foundResult = True, header = demo_header\<lparr>Nonce := 1\<rparr>\<rparr>"
    by (rule solve_next [OF 1, where ev = "Receive 0"]) (simp add: defs)
  have 3: "?run (Suc (Suc (Suc 0))) \<lparr>workers = [Exited, Sending False 0], quitClosed = True,
      received = 1, foundResult = True, header = demo_header\<lparr>Nonce := 1\<rparr>\<rparr>"
    by (rule solve_next [OF 2, where ev = "Work 1"]) (simp add: defs)
  have "?run (Suc (Suc (Suc (Suc 0)))) demo_found"
    by (rule solve_next [OF 3, where ev = "Receive 1"]) (simp add: defs)
  then show ?thesis by (simp add: eval_nat_numeral)
qed

lemma demo_cores: "cores_ok 2"
  by (simp add: cores_ok_def)

theorem solve_block_correct_witness:
  "\<exists>x. x \<noteq> 0 \<and> pow_ok demo_pow (demo_header\<lparr>Nonce := 1\<rparr>) \<and> demo_header\<lparr>Nonce := 1\<rparr> = demo_header\<lparr>Nonce := x\<rparr>"
proof -
  have "solveBlock demo_pow 2 demo_header (True, demo_header\<lparr>Nonce := 1\<rparr>)"
    unfolding solveBlock_def solve_returns_def
    using demo_search by (intro exI [of _ 4] exI [of _ demo_found]) (simp add: demo_found_def)
  from solve_block_correct [OF demo_cores this] show ?thesis by simp
qed

theorem solve_block_returns_witness:
  "(4 :: nat) \<le> unat (2 :: u32) * (2 ^ 32 + 2) \<and>
    (solve_returns 2 demo_found
      \<or> (\<exists>ev t. search_step demo_pow 2 demo_header ev demo_found = Some (Ok t))) \<and>
    (\<forall>ev p. search_step demo_pow 2 demo_header ev demo_found \<noteq> Some (Panic p))"
  by (rule solve_block_returns [OF demo_cores demo_search])

end
