(* ===== verification/SimnetMiner.thy ===== *)
theory SimnetMiner
  imports Mining
begin

text \<open>
  The rest of \<open>simnet_miner.go\<close>: \<open>waitPredicate\<close>, and the miner that fetches work from the node,
  solves it and submits it.
\<close>

section \<open>Hexadecimal strings\<close>

text \<open>\<open>hex.EncodeToString\<close> and \<open>hex.DecodeString\<close>.\<close>

definition hexDigits :: string where
  "hexDigits = ''0123456789abcdef''"

fun hexVal :: "char \<Rightarrow> nat option" where
  "hexVal c =
     (let n = of_char c :: nat in
      if 48 \<le> n \<and> n \<le> 57 then Some (n - 48)
      else if 97 \<le> n \<and> n \<le> 102 then Some (n - 87)
      else if 65 \<le> n \<and> n \<le> 70 then Some (n - 55)
      else None)"

definition hexEncode :: "bytes \<Rightarrow> string" where
  "hexEncode bs = concat (map (\<lambda>b. [hexDigits ! (unat b div 16), hexDigits ! (unat b mod 16)]) bs)"

definition hexInvalid :: goerr where
  "hexInvalid = Msg ''encoding/hex: invalid byte''"

definition hexOddLength :: goerr where
  "hexOddLength = Msg ''encoding/hex: odd length hex string''"

fun hexDecode :: "string \<Rightarrow> bytes ext" where
  "hexDecode [] = Inr []"
| "hexDecode [c] = (if hexVal c = None then Inl hexInvalid else Inl hexOddLength)"
| "hexDecode (c # d # cs) =
     (case (hexVal c, hexVal d) of
        (Some m, Some n) \<Rightarrow> map_sum id ((#) (of_nat (16 * m + n))) (hexDecode cs)
      | _ \<Rightarrow> Inl hexInvalid)"

lemma hexVal_digit: "n < 16 \<Longrightarrow> hexVal (hexDigits ! n) = Some n"
proof -
  have "\<forall>n \<in> set [0..<16]. hexVal (hexDigits ! n) = Some n" by code_simp
  then show "n < 16 \<Longrightarrow> hexVal (hexDigits ! n) = Some n" by simp
qed

lemma hex_roundtrip: "hexDecode (hexEncode bs) = Inr bs"
proof (induction bs)
  case (Cons b bs)
  have "unat b < 256" using unsigned_less [of b, where ?'a = nat] by simp
  with Cons show ?case
    by (simp add: hexEncode_def hexVal_digit del: hexVal.simps of_nat_add of_nat_mult)
qed (simp add: hexEncode_def)

section \<open>waitPredicate\<close>

text \<open>
  The predicate is a closure: it works on the world \<open>'s\<close>, and instead of true it returns \<open>Some\<close> of
  what it leaves in the variables it captures. The timer is started before the first poll; \<open>polls\<close>
  is the number of polls before it fires.
\<close>

fun waitLoop :: "('s \<Rightarrow> 'r option \<times> 's) \<Rightarrow> nat \<Rightarrow> nat \<Rightarrow> 's \<Rightarrow> 'r option \<times> 's" where
  "waitLoop pred 0 i s = (None, s)"
| "waitLoop pred (Suc polls) i s =
     (case pred s of
        (Some r, s) \<Rightarrow> (Some r, s)
      | (None, s) \<Rightarrow> waitLoop pred polls (Suc i) s)"

definition waitTimeout :: goerr where
  "waitTimeout = Msg ''predicate not satisfied after time out''"

definition waitPredicate :: "('s \<Rightarrow> 'r option \<times> 's) \<Rightarrow> nat \<Rightarrow> 's \<Rightarrow> 'r ext \<times> 's" where
  "waitPredicate pred polls s =
     (case waitLoop pred polls 0 s of (Some r, s) \<Rightarrow> (Inr r, s) | (None, s) \<Rightarrow> (Inl waitTimeout, s))"

interpretation wait: retry "waitLoop pred" "\<lambda>i. pred"
  by unfold_locales (auto split: prod.splits option.splits)

section \<open>The miner\<close>

text \<open>
  The RPC client: every call acts on the world \<open>'s\<close>, which holds the node. \<open>header.Bytes\<close> and
  \<open>header.BlockHash\<close> are functions of the \<open>wire\<close> package.
\<close>

record 's mining_api =
  GetWork :: "'s \<Rightarrow> string ext \<times> 's"
  RegenTemplate :: "'s \<Rightarrow> unit ext \<times> 's"
  GetBlock :: "bytes \<Rightarrow> 's \<Rightarrow> block_header ext \<times> 's"
  GetWorkSubmit :: "string \<Rightarrow> 's \<Rightarrow> bool ext \<times> 's"
  HeaderBytes :: "block_header \<Rightarrow> bytes ext"
  BlockHash :: "block_header \<Rightarrow> bytes"

text \<open>\<open>if err != nil { return nil, err }\<close>\<close>

definition try_ext :: "'a ext \<times> 's \<Rightarrow> ('a \<Rightarrow> 's \<Rightarrow> 'b ext \<times> 's) \<Rightarrow> 'b ext \<times> 's" where
  "try_ext q cont = (case q of (Inl e, s) \<Rightarrow> (Inl e, s) | (Inr x, s) \<Rightarrow> cont x s)"

lemma try_ext_Inr:
  "try_ext q cont = (Inr y, t) \<longleftrightarrow> (\<exists>x s. q = (Inr x, s) \<and> cont x s = (Inr y, t))"
  by (cases q; cases "fst q") (auto simp: try_ext_def)

definition second :: int where
  "second = 10 ^ 9"

definition adjustTimestamp :: "'s mining_api \<Rightarrow> block_header \<Rightarrow> 's \<Rightarrow> block_header ext \<times> 's" where
  "adjustTimestamp c hdr s =
     (if hdrHeight hdr > 1 then
        try_ext (GetBlock c (PrevBlock hdr) s) (\<lambda>prevBlock s.
          (Inr (hdr\<lparr>Timestamp := Timestamp prevBlock + second\<rparr>), s))
      else (Inr hdr, s))"

text \<open>One block; \<open>solve\<close> is what \<open>solveBlock\<close> makes of the header.\<close>

definition mineBlock :: "wire_api \<Rightarrow> 's mining_api \<Rightarrow> (block_header \<Rightarrow> bool \<times> block_header) \<Rightarrow>
    's \<Rightarrow> bytes ext \<times> 's" where
  "mineBlock w c solve s =
     try_ext (GetWork c s) (\<lambda>work s.
     try_ext (hexDecode work, s) (\<lambda>workBytes s.
     try_ext (HeaderFromBytes w workBytes, s) (\<lambda>hdr s.
     try_ext (adjustTimestamp c hdr s) (\<lambda>hdr s.
       let (solved, hdr) = solve hdr in
       if \<not> solved then (Inl (Msg ''unable to solve block''), s)
       else
     try_ext (HeaderBytes c hdr, s) (\<lambda>workBytes s.
     try_ext (GetWorkSubmit c (hexEncode (workBytes @ replicate 12 0)) s) (\<lambda>accepted s.
       if \<not> accepted then (Inl (Msg ''solved block was not accepted''), s)
       else (Inr (BlockHash c hdr), s)))))))"

text \<open>The loop over \<open>nb\<close> blocks, at block \<open>i\<close>.\<close>

fun mineLoop :: "wire_api \<Rightarrow> 's mining_api \<Rightarrow> (nat \<Rightarrow> block_header \<Rightarrow> bool \<times> block_header) \<Rightarrow>
    nat \<Rightarrow> nat \<Rightarrow> bytes list \<Rightarrow> 's \<Rightarrow> bytes list ext \<times> 's" where
  "mineLoop w c solve 0 i hashes s = (Inr hashes, s)"
| "mineLoop w c solve (Suc n) i hashes s =
     try_ext (mineBlock w c (solve i) s) (\<lambda>bh s. mineLoop w c solve n (Suc i) (hashes @ [bh]) s)"

text \<open>\<open>polls1\<close> and \<open>polls2\<close> are the polls before the timers of ten seconds and one second fire.\<close>

definition AdjustedSimnetMiner :: "wire_api \<Rightarrow> 's mining_api \<Rightarrow>
    (nat \<Rightarrow> block_header \<Rightarrow> bool \<times> block_header) \<Rightarrow> nat \<Rightarrow> nat \<Rightarrow> u32 \<Rightarrow> 's \<Rightarrow> bytes list ext \<times> 's" where
  "AdjustedSimnetMiner w c solve polls1 polls2 nb s =
     try_ext (waitPredicate (\<lambda>s. case GetWork c s of
         (Inr work, s) \<Rightarrow> (Some work, s) | (Inl e, s) \<Rightarrow> (None, s)) polls1 s) (\<lambda>prevWork s.
       case RegenTemplate c s of
         (Inl err, s) \<Rightarrow> (Inl (Wrap ''unable to regenerate block template'' err), s)
       | (Inr _, s) \<Rightarrow>
           (let s = snd (waitPredicate (\<lambda>s. case GetWork c s of
                (Inr work, s) \<Rightarrow> (if work \<noteq> prevWork then Some () else None, s)
              | (Inl e, s) \<Rightarrow> (None, s)) polls2 s)
            in mineLoop w c solve (unat nb) 0 [] s))"

text \<open>The miner closed over a client, in the form \<open>SetMiner\<close> of the voting wallet takes.\<close>

definition AdjustedSimnetMinerForClient :: "wire_api \<Rightarrow> (nat \<Rightarrow> block_header \<Rightarrow> bool \<times> block_header) \<Rightarrow>
    nat \<Rightarrow> nat \<Rightarrow> 's mining_api \<Rightarrow> u32 \<Rightarrow> 's \<Rightarrow> bytes list ext \<times> 's" where
  "AdjustedSimnetMinerForClient w solve polls1 polls2 c =
     (\<lambda>nb s. AdjustedSimnetMiner w c solve polls1 polls2 nb s)"

section \<open>What is mined\<close>

text \<open>
  \<open>hash\<close> is the hash of a header with a valid proof of work and a nonce other than zero that the
  node accepted, and, above height one, the timestamp of the header is one second after that of
  the block it builds on.
\<close>

definition mined :: "pow_api \<Rightarrow> 's mining_api \<Rightarrow> bytes \<Rightarrow> bool" where
  "mined api c hash \<longleftrightarrow> (\<exists>hdr bs work s t.
     hash = BlockHash c hdr \<and> pow_ok api hdr \<and> Nonce hdr \<noteq> 0 \<and>
     HeaderBytes c hdr = Inr bs \<and> hexDecode work = Inr (bs @ replicate 12 0) \<and>
     GetWorkSubmit c work s = (Inr True, t) \<and>
     (hdrHeight hdr > 1 \<longrightarrow> (\<exists>u v prev. GetBlock c (PrevBlock hdr) u = (Inr prev, v)
        \<and> Timestamp hdr = Timestamp prev + second)))"

lemma mineBlock_mined:
  assumes "cores_ok n" "\<And>h. solveBlock api n h (solve h)" "mineBlock w c solve s = (Inr hash, t)"
  shows "mined api c hash"
proof -
  from assms(3) obtain hdr0 hdr1 hdr bs u v v' x where
    adj: "adjustTimestamp c hdr0 u = (Inr hdr1, v)" and sol: "fst (solve hdr1)" "snd (solve hdr1) = hdr"
    and fin: "HeaderBytes c hdr = Inr bs"
      "GetWorkSubmit c (hexEncode (bs @ replicate 12 0)) v' = (Inr True, x)" "hash = BlockHash c hdr"
    by (auto simp: mineBlock_def try_ext_Inr case_prod_beta Let_def split: if_splits)
  have "solveBlock api n hdr1 (True, hdr)" using assms(2) [of hdr1] sol by (metis (full_types) prod.collapse)
  from solve_block_facts [OF assms(1) this] obtain nonce where
    nonce: "nonce \<noteq> 0" "pow_ok api hdr" "hdr = hdr1\<lparr>Nonce := nonce\<rparr>"
    by auto
  have "hdrHeight hdr > 1 \<longrightarrow> (\<exists>u v prev. GetBlock c (PrevBlock hdr) u = (Inr prev, v)
      \<and> Timestamp hdr = Timestamp prev + second)"
    using adj nonce(3) by (auto simp: adjustTimestamp_def try_ext_Inr split: if_splits) blast
  with fin nonce show ?thesis
    unfolding mined_def
    by (intro exI [of _ hdr] exI [of _ bs] exI [of _ "hexEncode (bs @ replicate 12 0)"])
      (auto simp: hex_roundtrip)
qed

lemma mineLoop_mined:
  assumes "cores_ok n" "\<And>i h. solveBlock api n h (solve i h)"
  shows "mineLoop w c solve k i hashes s = (Inr result, t) \<Longrightarrow>
    \<exists>new. result = hashes @ new \<and> length new = k \<and> (\<forall>h \<in> set new. mined api c h)"
proof (induction k arbitrary: i hashes s)
  case (Suc k)
  then obtain bh u where bh: "mineBlock w c (solve i) s = (Inr bh, u)"
    "mineLoop w c solve k (Suc i) (hashes @ [bh]) u = (Inr result, t)"
    by (auto simp: try_ext_Inr)
  from Suc.IH [OF bh(2)] obtain new where
    "result = (hashes @ [bh]) @ new" "length new = k" "\<forall>h \<in> set new. mined api c h" by blast
  with mineBlock_mined [OF assms(1,2) bh(1)] show ?case
    by (intro exI [of _ "bh # new"]) auto
qed simp

section \<open>Properties\<close>

text \<open>
  C24: If the miner reports success it returns one hash per block asked for, and each is the hash
  of a header with valid proof of work that the node accepted, stamped one second after its
  predecessor above height one.
\<close>

theorem miner_returns_mined_blocks:
  assumes "cores_ok n" "\<And>i h. solveBlock api n h (solve i h)"
    and "AdjustedSimnetMiner w c solve polls1 polls2 nb s = (Inr hashes, t)"
  shows "length hashes = unat nb \<and> (\<forall>h \<in> set hashes. mined api c h)"
proof -
  from assms(3) obtain prev v where "(case RegenTemplate c v of
      (Inl err, s) \<Rightarrow> (Inl (Wrap ''unable to regenerate block template'' err), s)
    | (Inr _, s) \<Rightarrow> mineLoop w c solve (unat nb) 0 [] (snd (waitPredicate
        (\<lambda>s. case GetWork c s of
           (Inr work, s) \<Rightarrow> (if work \<noteq> prev then Some () else None, s)
         | (Inl e, s) \<Rightarrow> (None, s)) polls2 s))) = (Inr hashes, t)"
    unfolding AdjustedSimnetMiner_def try_ext_Inr Let_def by blast
  then obtain u where "mineLoop w c solve (unat nb) 0 [] u = (Inr hashes, t)"
    by (auto split: prod.split_asm sum.split_asm)
  from mineLoop_mined [OF assms(1,2) this] show ?thesis by simp
qed

text \<open>
  \<open>waitPredicate\<close> returns nil with the first poll at which the predicate holds, if one comes
  before the timer fires, and the timeout error exactly if none does.
\<close>

lemma wait_predicate_result:
  "case waitPredicate pred polls s of
     (Inr r, t) \<Rightarrow> \<exists>k < polls. pred (afterTries (\<lambda>i. pred) 0 k s) = (Some r, t)
       \<and> (\<forall>j < k. fst (pred (afterTries (\<lambda>i. pred) 0 j s)) = None)
   | (Inl e, t) \<Rightarrow> e = waitTimeout \<and> t = afterTries (\<lambda>i. pred) 0 polls s
       \<and> (\<forall>j < polls. fst (pred (afterTries (\<lambda>i. pred) 0 j s)) = None)"
proof -
  obtain q t where q: "waitLoop pred polls 0 s = (q, t)" by force
  show ?thesis
  proof (cases q)
    case None
    with q wait.loop_None [of pred polls 0 s t] show ?thesis
      by (simp add: waitPredicate_def wait.fails_before_def)
  next
    case (Some r)
    with q wait.loop_Some [of pred polls 0 s r t] show ?thesis
      by (auto simp: waitPredicate_def wait.fails_before_def)
  qed
qed

section \<open>A concrete miner\<close>

text \<open>
  One core, hashes that always meet the target, and a node that gives out work at height five,
  has a block stamped seven and counts the blocks it accepts.
\<close>

definition easy_pow :: pow_api where
  "easy_pow = \<lparr>PowHashV2 = (\<lambda>_. []), HashToBig = (\<lambda>_. 0), CompactToBig = uint\<rparr>"

definition easy_solve :: "nat \<Rightarrow> block_header \<Rightarrow> bool \<times> block_header" where
  "easy_solve i hdr = (True, hdr\<lparr>Nonce := 1\<rparr>)"

definition demo_miner :: "nat mining_api" where
  "demo_miner = \<lparr>GetWork = (\<lambda>s. (Inr ''05'', s)), RegenTemplate = (\<lambda>s. (Inr (), s)),
     GetBlock = (\<lambda>_ s. (Inr (demo_header\<lparr>Timestamp := 7\<rparr>), s)),
     GetWorkSubmit = (\<lambda>_ s. (Inr True, Suc s)),
     HeaderBytes = (\<lambda>hdr. Inr [ucast (hdrHeight hdr)]), BlockHash = (\<lambda>hdr. [ucast (Nonce hdr)])\<rparr>"

lemma easy_solve: "solveBlock easy_pow 1 hdr (easy_solve i hdr)"
proof -
  let ?run = "solve_run easy_pow 1 hdr"
  note defs = search_init_def rangeStart_def rangeStop_def easy_pow_def pow_ok_def collect_def
  have init: "search_init 1 hdr = \<lparr>workers = [Solving 1], quitClosed = False, received = 0,
      foundResult = False, header = hdr\<rparr>"
    by (simp add: defs)
  have 1: "?run (Suc 0) \<lparr>workers = [Sending True 1], quitClosed = False, received = 0,
      foundResult = False, header = hdr\<rparr>"
    by (rule solve_next [OF solve_start [unfolded init], where ev = "Work 0"]) (simp add: defs)
  have "?run (Suc (Suc 0)) \<lparr>workers = [Exited], quitClosed = True, received = 1,
      foundResult = True, header = hdr\<lparr>Nonce := 1\<rparr>\<rparr>"
    by (rule solve_next [OF 1, where ev = "Receive 0"]) (simp add: defs)
  then show ?thesis
    unfolding solveBlock_def solve_returns_def easy_solve_def
    by (intro exI conjI) (assumption, simp_all)
qed

lemma demo_mining:
  "AdjustedSimnetMiner demo_wire demo_miner easy_solve 1 1 2 0 = (Inr [[1], [1]], 2)"
proof -
  have two: "mineLoop w c solve 2 = mineLoop w c solve (Suc (Suc 0))"
    for w and c :: "nat mining_api" and solve
    by (simp only: numeral_2_eq_2)
  show ?thesis
    by (simp add: AdjustedSimnetMiner_def waitPredicate_def try_ext_def demo_miner_def
        mineBlock_def demo_wire_def adjustTimestamp_def easy_solve_def two)
qed

theorem miner_returns_mined_blocks_witness:
  "AdjustedSimnetMiner demo_wire demo_miner easy_solve 1 1 2 0 = (Inr [[1], [1]], 2)
     \<and> mined easy_pow demo_miner [1]"
proof -
  have "cores_ok 1" by (simp add: cores_ok_def)
  from miner_returns_mined_blocks [OF this easy_solve demo_mining] demo_mining show ?thesis by simp
qed

end
