(* ===== verification/Utils.thy ===== *)
theory Utils
  imports Prelude
begin

text \<open>
  \<open>utils.go\<close>: waiting until a set of nodes agrees on the block height or the mempool, and the
  peer connections between two nodes.

  \<open>'n\<close> stands for the harnesses, \<open>'s\<close> for the world they live in: every RPC call and every sleep
  takes the world to the next one, so nodes may make progress between two calls.
\<close>

section \<open>The RPC client\<close>

datatype AddNodeCommand = ANAdd | ANRemove

record ('n, 's) peer_api =
  GetBlockCount :: "'n \<Rightarrow> 's \<Rightarrow> int ext \<times> 's"
  GetRawMempool :: "'n \<Rightarrow> 's \<Rightarrow> bytes list ext \<times> 's"
  GetPeerInfo :: "'n \<Rightarrow> 's \<Rightarrow> string list ext \<times> 's"
  AddNode :: "'n \<Rightarrow> string \<Rightarrow> AddNodeCommand \<Rightarrow> 's \<Rightarrow> unit ext \<times> 's"
  P2PAddress :: "'n \<Rightarrow> string"
  Sleep100ms :: "'s \<Rightarrow> 's"

section \<open>Joining nodes\<close>

text \<open>
  One pass of \<open>syncBlocks\<close> from the label \<open>retry\<close>; \<open>None\<close> is \<open>goto retry\<close>. \<open>blockHeights\<close> is the
  key set of the map.
\<close>

fun blocksRound :: "('n, 's) peer_api \<Rightarrow> 'n list \<Rightarrow> int set \<Rightarrow> 's \<Rightarrow> unit res option \<times> 's" where
  "blocksRound api [] blockHeights s = (Some (Ok ()), s)"
| "blocksRound api (node # nodes) blockHeights s =
     (case GetBlockCount api node s of
        (Inl err, s) \<Rightarrow> (Some (Err err), s)
      | (Inr blockHeight, s) \<Rightarrow>
          (let blockHeights = insert blockHeight blockHeights in
           if card blockHeights > 1 then (None, Sleep100ms api s)
           else blocksRound api nodes blockHeights s))"

definition syncBlocks :: "('n, 's) peer_api \<Rightarrow> 'n list \<Rightarrow> 's \<Rightarrow> (unit res \<times> 's) option" where
  "syncBlocks api nodes s = poll (blocksRound api nodes {}) s"

fun comparePools :: "('n, 's) peer_api \<Rightarrow> bytes list \<Rightarrow> 'n list \<Rightarrow> 's \<Rightarrow> unit res option \<times> 's" where
  "comparePools api firstPool [] s = (Some (Ok ()), s)"
| "comparePools api firstPool (node # nodes) s =
     (case GetRawMempool api node s of
        (Inl err, s) \<Rightarrow> (Some (Err err), s)
      | (Inr nodePool, s) \<Rightarrow>
          (if firstPool \<noteq> nodePool then (None, Sleep100ms api s)
           else comparePools api firstPool nodes s))"

fun mempoolsRound :: "('n, 's) peer_api \<Rightarrow> 'n list \<Rightarrow> 's \<Rightarrow> unit res option \<times> 's" where
  "mempoolsRound api [] s = (Some (Panic IndexOutOfRange), s)"
| "mempoolsRound api (first # nodes) s =
     (case GetRawMempool api first s of
        (Inl err, s) \<Rightarrow> (Some (Err err), s)
      | (Inr firstPool, s) \<Rightarrow> comparePools api firstPool nodes s)"

definition syncMempools :: "('n, 's) peer_api \<Rightarrow> 'n list \<Rightarrow> 's \<Rightarrow> (unit res \<times> 's) option" where
  "syncMempools api nodes s = poll (mempoolsRound api nodes) s"

datatype JoinType = Blocks | Mempools | OtherJoin byte

fun JoinNodes :: "('n, 's) peer_api \<Rightarrow> 'n list \<Rightarrow> JoinType \<Rightarrow> 's \<Rightarrow> (unit res \<times> 's) option" where
  "JoinNodes api nodes Blocks s = syncBlocks api nodes s"
| "JoinNodes api nodes Mempools s = syncMempools api nodes s"
| "JoinNodes api nodes (OtherJoin _) s = Some (Ok (), s)"

section \<open>Connecting nodes\<close>

text \<open>The wait of \<open>ConnectNode\<close>: \<open>GetPeerInfo\<close> until there are more peers than before.\<close>

definition connectRound :: "('n, 's) peer_api \<Rightarrow> 'n \<Rightarrow> nat \<Rightarrow> 's \<Rightarrow> unit res option \<times> 's" where
  "connectRound api fr numPeers s =
     (case GetPeerInfo api fr s of
        (Inl err, s) \<Rightarrow> (Some (Err err), s)
      | (Inr peerInfo, s) \<Rightarrow> (if length peerInfo \<le> numPeers then None else Some (Ok ()), s))"

definition ConnectNode :: "('n, 's) peer_api \<Rightarrow> 'n \<Rightarrow> 'n \<Rightarrow> 's \<Rightarrow> (unit res \<times> 's) option" where
  "ConnectNode api fr to s =
     (case GetPeerInfo api fr s of
        (Inl err, s) \<Rightarrow> Some (Err err, s)
      | (Inr peerInfo, s) \<Rightarrow>
          (case AddNode api fr (P2PAddress api to) ANAdd s of
             (Inl err, s) \<Rightarrow> Some (Err err, s)
           | (Inr _, s) \<Rightarrow> poll (connectRound api fr (length peerInfo)) s))"

text \<open>
  The scan of \<open>RemoveNode\<close>. Its \<open>continue\<close> stands in the inner loop and goes on with the next
  peer; the result says whether the code after the inner loop is reached.
\<close>

fun scanPeers :: "string \<Rightarrow> string list \<Rightarrow> bool" where
  "scanPeers targetAddr [] = True"
| "scanPeers targetAddr (p # ps) =
     (if p = targetAddr then scanPeers targetAddr ps else scanPeers targetAddr ps)"

definition removeRound :: "('n, 's) peer_api \<Rightarrow> 'n \<Rightarrow> string \<Rightarrow> 's \<Rightarrow> unit res option \<times> 's" where
  "removeRound api fr targetAddr s =
     (case GetPeerInfo api fr s of
        (Inl err, s) \<Rightarrow> (Some (Err err), s)
      | (Inr peerInfo, s) \<Rightarrow> (if scanPeers targetAddr peerInfo then Some (Ok ()) else None, s))"

definition RemoveNode :: "('n, 's) peer_api \<Rightarrow> 'n \<Rightarrow> 'n \<Rightarrow> 's \<Rightarrow> (unit res \<times> 's) option" where
  "RemoveNode api fr to s =
     (case AddNode api fr (P2PAddress api to) ANRemove s of
        (Inl err, s) \<Rightarrow> Some (Err err, s)
      | (Inr _, s) \<Rightarrow> poll (removeRound api fr (P2PAddress api to)) s)"

definition NodesConnected :: "('n, 's) peer_api \<Rightarrow> 'n \<Rightarrow> 'n \<Rightarrow> bool \<Rightarrow> 's \<Rightarrow> bool ext \<times> 's" where
  "NodesConnected api fr to allowReverse s =
     (case GetPeerInfo api fr s of
        (Inl err, s) \<Rightarrow> (Inl err, s)
      | (Inr peerInfo, s) \<Rightarrow>
          (if list_ex (\<lambda>p. p = P2PAddress api to) peerInfo then (Inr True, s)
           else if \<not> allowReverse then (Inr False, s)
           else
             (case GetPeerInfo api to s of
                (Inl err, s) \<Rightarrow> (Inl err, s)
              | (Inr peerInfo, s) \<Rightarrow>
                  (Inr (list_ex (\<lambda>p. p = P2PAddress api fr) peerInfo), s))))"

section \<open>Passes over the nodes\<close>

text \<open>The answers of the nodes to a query, asked one after the other.\<close>

fun answers :: "('n \<Rightarrow> 's \<Rightarrow> 'a ext \<times> 's) \<Rightarrow> 'n list \<Rightarrow> 's \<Rightarrow> 'a ext list \<times> 's" where
  "answers query [] s = ([], s)"
| "answers query (n # ns) s =
     (case query n s of (q, s) \<Rightarrow> (case answers query ns s of (qs, s) \<Rightarrow> (q # qs, s)))"

lemma card_pair [simp]: "Suc 0 < card {a, b} \<longleftrightarrow> a \<noteq> b"
  by (cases "a = b") auto

lemma blocksRound_Ok:
  "blocksRound api nodes {h} s = (Some (Ok ()), t) \<Longrightarrow>
   answers (GetBlockCount api) nodes s = (replicate (length nodes) (Inr h), t)"
  by (induction nodes arbitrary: s) (auto simp: Let_def split: prod.split_asm sum.split_asm if_splits)

lemma blocksRound_first:
  assumes "blocksRound api nodes {} s = (Some (Ok ()), t)"
  shows "\<exists>h. answers (GetBlockCount api) nodes s = (replicate (length nodes) (Inr h), t)"
proof (cases nodes)
  case (Cons n ns)
  with assms obtain h u where "GetBlockCount api n s = (Inr h, u)" "blocksRound api ns {h} u = (Some (Ok ()), t)"
    by (auto simp: Let_def split: prod.split_asm sum.split_asm)
  with Cons blocksRound_Ok [of api ns h u t] show ?thesis by auto
qed (use assms in simp)

lemma comparePools_Ok:
  "comparePools api pool nodes s = (Some (Ok ()), t) \<Longrightarrow>
   answers (GetRawMempool api) nodes s = (replicate (length nodes) (Inr pool), t)"
  by (induction nodes arbitrary: s) (auto split: prod.split_asm sum.split_asm if_splits)

lemma blocksRound_no_panic: "blocksRound api nodes hs s = (Some q, t) \<Longrightarrow> q = Ok () \<or> (\<exists>e. q = Err e)"
  by (induction nodes arbitrary: hs s) (auto simp: Let_def split: prod.split_asm sum.split_asm if_splits)

lemma comparePools_no_panic: "comparePools api pool nodes s = (Some q, t) \<Longrightarrow> q = Ok () \<or> (\<exists>e. q = Err e)"
  by (induction nodes arbitrary: s) (auto split: prod.split_asm sum.split_asm if_splits)

text \<open>Nodes that answer every query and change nothing by it.\<close>

lemma blocksRound_quiet:
  assumes "\<And>n s. GetBlockCount api n s = (Inr (height n s), s)"
  shows "blocksRound api nodes {} s =
    (if \<forall>m \<in> set nodes. \<forall>n \<in> set nodes. height m s = height n s then (Some (Ok ()), s)
     else (None, Sleep100ms api s))"
proof -
  have step: "blocksRound api ns {h} s =
    (if \<forall>n \<in> set ns. height n s = h then (Some (Ok ()), s) else (None, Sleep100ms api s))" for ns h
  proof (induction ns)
    case (Cons n ns)
    then show ?case by (cases "height n s = h") (simp_all add: assms Let_def)
  qed simp
  show ?thesis
  proof (cases nodes)
    case (Cons n ns)
    have "(\<forall>m \<in> set nodes. \<forall>n \<in> set nodes. height m s = height n s)
        \<longleftrightarrow> (\<forall>m \<in> set ns. height m s = height n s)"
      unfolding Cons by (metis list.set_intros set_ConsD)
    moreover have "blocksRound api nodes {} s = blocksRound api ns {height n s} s"
      by (simp add: Cons assms)
    ultimately show ?thesis by (simp add: step)
  qed simp
qed

section \<open>Properties\<close>

text \<open>
  When \<open>syncBlocks\<close> returns nil, then in its last pass every node reported the same height;
  otherwise it returns the error of a node.
\<close>

lemma sync_blocks_agreement:
  assumes "syncBlocks api nodes s = Some (q, t)"
  shows "(q = Ok () \<and> (\<exists>s0 h. answers (GetBlockCount api) nodes s0 = (replicate (length nodes) (Inr h), t)))
    \<or> (\<exists>e. q = Err e)"
proof -
  obtain s0 where r: "blocksRound api nodes {} s0 = (Some q, t)"
    using assms by (auto simp: syncBlocks_def poll_iff)
  from blocksRound_no_panic [OF r] show ?thesis
    using blocksRound_first [of api nodes s0 t] r by blast
qed

text \<open>
  C22: Among nodes that always answer, \<open>syncBlocks\<close> returns exactly if the nodes agree on the
  height at one of its looks, and then at the first such look.
\<close>

theorem sync_blocks_returns:
  assumes "\<And>n s. GetBlockCount api n s = (Inr (height n s), s)"
  shows "syncBlocks api nodes s = Some (q, t) \<longleftrightarrow>
    q = Ok () \<and> (\<exists>k. t = (Sleep100ms api ^^ k) s
      \<and> (\<forall>m \<in> set nodes. \<forall>n \<in> set nodes. height m t = height n t)
      \<and> (\<forall>j < k. \<not> (\<forall>m \<in> set nodes. \<forall>n \<in> set nodes.
          height m ((Sleep100ms api ^^ j) s) = height n ((Sleep100ms api ^^ j) s))))"
  unfolding syncBlocks_def by (rule poll_agreed) (rule blocksRound_quiet [OF assms])

text \<open>
  When \<open>syncMempools\<close> returns nil, then in its last pass every node reported the same list of
  transactions; without any node it panics.
\<close>

lemma sync_mempools_agreement:
  assumes "syncMempools api nodes s = Some (q, t)"
  shows "(q = Ok () \<and> (\<exists>s0 pool. answers (GetRawMempool api) nodes s0
       = (replicate (length nodes) (Inr pool), t)))
    \<or> (\<exists>e. q = Err e) \<or> (nodes = [] \<and> q = Panic IndexOutOfRange)"
proof -
  obtain s0 where r: "mempoolsRound api nodes s0 = (Some q, t)"
    using assms by (auto simp: syncMempools_def poll_iff)
  show ?thesis
  proof (cases nodes)
    case (Cons n ns)
    show ?thesis
    proof (cases "GetRawMempool api n s0")
      case (Pair p u)
      show ?thesis
      proof (cases p)
        case (Inr pool)
        with r Cons Pair have c: "comparePools api pool ns u = (Some q, t)" by simp
        from comparePools_no_panic [OF c] show ?thesis
        proof
          assume "q = Ok ()"
          with comparePools_Ok [of api pool ns u t] c Cons Pair Inr show ?thesis
            by (intro disjI1 conjI exI [of _ s0] exI [of _ pool]) simp_all
        qed simp
      qed (use r Cons Pair in auto)
    qed
  qed (use r in simp)
qed

text \<open>
  C39: \<open>RemoveNode\<close> does not wait for the connection to drop: after one look at the peers it
  returns nil even if the removed peer is still among them.
\<close>

theorem remove_node_never_waits:
  assumes "AddNode api fr (P2PAddress api to) ANRemove s = (Inr (), u)"
    and "GetPeerInfo api fr u = (Inr peers, t)" "P2PAddress api to \<in> set peers"
  shows "RemoveNode api fr to s = Some (Ok (), t)"
proof -
  have "scanPeers a ps" for a ps by (induction ps) auto
  then have "removeRound api fr (P2PAddress api to) u = (Some (Ok ()), t)"
    using assms(2) by (simp add: removeRound_def)
  then show ?thesis using assms(1) by (simp add: RemoveNode_def poll.simps)
qed

text \<open>
  \<open>NodesConnected\<close> asks the second node only if it has to, and its answer is that one of the
  nodes lists the address of the other.
\<close>

lemma nodes_connected_result:
  assumes "GetPeerInfo api fr s = (Inr peers, u)" "GetPeerInfo api to u = (Inr peers', v)"
  shows "NodesConnected api fr to allowReverse s =
    (Inr (P2PAddress api to \<in> set peers \<or> (allowReverse \<and> P2PAddress api fr \<in> set peers')),
     if P2PAddress api to \<notin> set peers \<and> allowReverse then v else u)"
  using assms by (auto simp: NodesConnected_def list_ex_iff)

text \<open>
  \<open>ConnectNode\<close> returns nil only after the node was told to add the peer and a later look
  showed more peers than there were before.
\<close>

lemma connect_node_waits:
  assumes "ConnectNode api fr to s = Some (Ok (), t)"
  shows "\<exists>peers s1 s2 u peers'.
    GetPeerInfo api fr s = (Inr peers, s1) \<and>
    AddNode api fr (P2PAddress api to) ANAdd s1 = (Inr (), s2) \<and>
    GetPeerInfo api fr u = (Inr peers', t) \<and> length peers < length peers'"
proof -
  from assms obtain peers s1 s2 where p: "GetPeerInfo api fr s = (Inr peers, s1)"
    "AddNode api fr (P2PAddress api to) ANAdd s1 = (Inr (), s2)"
    "poll (connectRound api fr (length peers)) s2 = Some (Ok (), t)"
    by (auto simp: ConnectNode_def split: prod.split_asm sum.split_asm)
  then obtain u where "connectRound api fr (length peers) u = (Some (Ok ()), t)"
    by (auto simp: poll_iff)
  then obtain peers' where "GetPeerInfo api fr u = (Inr peers', t)" "length peers < length peers'"
    by (auto simp: connectRound_def split: prod.split_asm sum.split_asm if_splits)
  with p show ?thesis by blast
qed

section \<open>Concrete nodes\<close>

text \<open>
  Two nodes, named by their addresses, in a world that is a clock: node \<open>a\<close> is at height three
  and \<open>b\<close> one block per tick behind until then; every look at the peers takes a tick, and from
  tick one on each node lists the other.
\<close>

definition demo_peers :: "(string, nat) peer_api" where
  "demo_peers =
     \<lparr>GetBlockCount = (\<lambda>n s. (Inr (if n = ''a'' then 3 else min 3 (int s)), s)),
      GetRawMempool = (\<lambda>n s. (Inr [[7]], s)),
      GetPeerInfo = (\<lambda>n s. (Inr (if s = 0 then [] else if n = ''a'' then [''b''] else [''a'']), Suc s)),
      AddNode = (\<lambda>n a cmd s. (Inr (), s)),
      P2PAddress = (\<lambda>n. n), Sleep100ms = Suc\<rparr>"

lemma demo_sync: "syncBlocks demo_peers [''a'', ''b''] 2 = Some (Ok (), 3)"
  by (simp add: syncBlocks_def poll.simps demo_peers_def Let_def)

theorem sync_blocks_returns_witness:
  "syncBlocks demo_peers [''a'', ''b''] 2 = Some (Ok (), 3)"
proof -
  have "GetBlockCount demo_peers n s = (Inr (if n = ''a'' then 3 else min 3 (int s)), s)" for n s
    by (simp add: demo_peers_def)
  note iff = sync_blocks_returns [of demo_peers, OF this, of "[''a'', ''b'']" 2 "Ok ()" 3]
  show ?thesis
    unfolding iff by (intro conjI exI [of _ 1]) (simp_all add: demo_peers_def)
qed

theorem remove_node_never_waits_witness:
  "RemoveNode demo_peers ''a'' ''b'' 1 = Some (Ok (), 2)"
  by (rule remove_node_never_waits [of _ _ _ _ 1 "[''b'']"]) (simp_all add: demo_peers_def)

end
