(* ===== verification/GoIO.thy ===== *)
theory GoIO
  imports Prelude
begin

text \<open>
  The parts of Go's standard library that the IPC code reads through: a pipe, \<open>bufio.Reader\<close>
  and \<open>io.ReadFull\<close>; and files that can be closed once.
\<close>

section \<open>Pipes\<close>

text \<open>
  The reading end of a pipe: what the next \<open>read\<close> calls find waiting, chunk by chunk, and
  whether the writers have closed their end. A read returns at most as many bytes as it asks
  for and at most one chunk; on an empty pipe it reports the end of the file if the pipe is
  closed and otherwise waits.
\<close>

record pipe =
  pending :: "bytes list"
  writersClosed :: bool

definition eof :: goerr where
  "eof = Msg ''EOF''"

definition unexpectedEOF :: goerr where
  "unexpectedEOF = Msg ''unexpected EOF''"

fun readChunks :: "nat \<Rightarrow> bytes list \<Rightarrow> (bytes \<times> bytes list) option" where
  "readChunks n [] = None"
| "readChunks n (c # cs) =
     (if c = [] then readChunks n cs
      else if length c \<le> n then Some (c, cs)
      else Some (take n c, drop n c # cs))"

definition pipeRead :: "nat \<Rightarrow> pipe \<Rightarrow> bytes res \<times> pipe" where
  "pipeRead n p =
     (case readChunks n (pending p) of
        Some (bs, cs) \<Rightarrow> (Ok bs, p\<lparr>pending := cs\<rparr>)
      | None \<Rightarrow> (if writersClosed p then Err eof else Blocked, p\<lparr>pending := []\<rparr>))"

section \<open>Buffered reading\<close>

text \<open>
  \<open>bufio.NewReader\<close> with its default buffer of 4096 bytes: a read is served from the buffer;
  if that is empty, a request of the buffer's size or more goes to the pipe directly and a
  smaller one first fills the buffer with one read.
\<close>

definition bufSize :: nat where
  "bufSize = 4096"

record bufreader =
  buffered :: bytes
  source :: pipe

definition newReader :: "pipe \<Rightarrow> bufreader" where
  "newReader p = \<lparr>buffered = [], source = p\<rparr>"

definition bufRead :: "nat \<Rightarrow> bufreader \<Rightarrow> bytes res \<times> bufreader" where
  "bufRead n r =
     (if buffered r \<noteq> [] then
        (Ok (take n (buffered r)), r\<lparr>buffered := drop n (buffered r)\<rparr>)
      else if n \<ge> bufSize then
        (case pipeRead n (source r) of (q, p) \<Rightarrow> (q, r\<lparr>source := p\<rparr>))
      else
        (case pipeRead bufSize (source r) of
           (Ok bs, p) \<Rightarrow> (Ok (take n bs), \<lparr>buffered = drop n bs, source = p\<rparr>)
         | (q, p) \<Rightarrow> (q, r\<lparr>source := p\<rparr>)))"

text \<open>
  \<open>io.ReadFull\<close> for \<open>n\<close> more bytes after \<open>acc\<close>. A read without bytes and without an error
  would be repeated for ever; it does not occur here.
\<close>

function readFull :: "nat \<Rightarrow> bytes \<Rightarrow> bufreader \<Rightarrow> bytes res \<times> bufreader" where
  "readFull n acc r =
     (if n = 0 then (Ok acc, r)
      else case bufRead n r of
        (Ok bs, r') \<Rightarrow> (if bs = [] then (Blocked, r') else readFull (n - length bs) (acc @ bs) r')
      | (Err e, r') \<Rightarrow> (Err (if e = eof \<and> acc \<noteq> [] then unexpectedEOF else e), r')
      | (Panic p, r') \<Rightarrow> (Panic p, r')
      | (Blocked, r') \<Rightarrow> (Blocked, r'))"
  by pat_completeness auto
termination
  by (relation "measure (\<lambda>(n, acc, r). n)") auto

declare readFull.simps [simp del]

section \<open>Reading a known stream\<close>

text \<open>
  The reader stands before the bytes \<open>msg\<close>, the last of which ends a chunk, with the chunks
  \<open>rest\<close> after them.
\<close>

definition reader_at :: "bufreader \<Rightarrow> bytes \<Rightarrow> bytes list \<Rightarrow> bool \<Rightarrow> bool" where
  "reader_at r msg rest closed \<longleftrightarrow>
     (\<exists>cs. pending (source r) = cs @ rest \<and> buffered r @ concat cs = msg \<and> [] \<notin> set cs
        \<and> writersClosed (source r) = closed)"

lemma reader_at_new:
  "pending p = cs @ rest \<Longrightarrow> [] \<notin> set cs \<Longrightarrow>
   reader_at (newReader p) (concat cs) rest (writersClosed p)"
  by (auto simp: reader_at_def newReader_def)

lemma reader_at_end:
  assumes "reader_at r [] rest closed"
  shows "source r = \<lparr>pending = rest, writersClosed = closed\<rparr>"
proof -
  obtain cs where cs: "pending (source r) = cs @ rest" "concat cs = []" "[] \<notin> set cs"
    "writersClosed (source r) = closed"
    using assms by (auto simp: reader_at_def)
  then have "cs = []" by (cases cs) auto
  with cs show ?thesis by (cases "source r") simp
qed

lemma readChunks_split:
  assumes "c \<noteq> []" "0 < n"
  shows "\<exists>bs cs'. readChunks n (c # cs) = Some (bs, cs') \<and> bs \<noteq> [] \<and> length bs \<le> n
    \<and> bs @ concat cs' = c @ concat cs
    \<and> (\<exists>ds. cs' = ds @ cs \<and> [] \<notin> set ds \<and> bs @ concat ds = c)"
proof (cases "length c \<le> n")
  case True
  with assms show ?thesis by (intro exI [of _ c] exI [of _ cs]) auto
next
  case False
  with assms show ?thesis
    by (intro exI [of _ "take n c"] exI [of _ "drop n c # cs"]) auto
qed

lemma bufRead_at:
  assumes "reader_at r msg rest closed" "0 < n" "n \<le> length msg"
  shows "\<exists>bs r'. bufRead n r = (Ok bs, r') \<and> bs \<noteq> [] \<and> length bs \<le> n
    \<and> (\<exists>msg'. msg = bs @ msg' \<and> reader_at r' msg' rest closed)"
proof -
  obtain cs where cs: "pending (source r) = cs @ rest" "buffered r @ concat cs = msg"
    "[] \<notin> set cs" "writersClosed (source r) = closed"
    using assms(1) by (auto simp: reader_at_def)
  show ?thesis
  proof (cases "buffered r = []")
    case False
    have "msg = take n (buffered r) @ drop n (buffered r) @ concat cs"
      unfolding cs(2) [symmetric] by simp
    with False cs assms(2) show ?thesis
      by (auto simp: bufRead_def reader_at_def)
  next
    case True
    with cs assms(2,3) obtain c ds where c: "cs = c # ds" "c \<noteq> []" by (cases cs) auto
    let ?k = "if n \<ge> bufSize then n else bufSize"
    have "0 < ?k" using assms(2) by (simp add: bufSize_def)
    from readChunks_split [OF c(2) this, of "ds @ rest"] obtain bs es where
      bs: "readChunks ?k (c # ds @ rest) = Some (bs, es @ ds @ rest)" "bs \<noteq> []" "length bs \<le> ?k"
        "[] \<notin> set es" "bs @ concat es = c"
      by auto
    have p: "pipeRead ?k (source r) = (Ok bs, (source r)\<lparr>pending := es @ ds @ rest\<rparr>)"
      using cs(1) c(1) bs(1) by (simp add: pipeRead_def)
    have msg: "msg = bs @ concat (es @ ds)" using cs(2) True c(1) bs(5) by auto
    show ?thesis
    proof (cases "n \<ge> bufSize")
      case big: True
      have "bufRead n r = (Ok bs, r\<lparr>source := (source r)\<lparr>pending := es @ ds @ rest\<rparr>\<rparr>)"
        using True big p by (simp add: bufRead_def)
      moreover have "reader_at (r\<lparr>source := (source r)\<lparr>pending := es @ ds @ rest\<rparr>\<rparr>)
          (concat (es @ ds)) rest closed"
        using True cs c bs(4) by (auto simp: reader_at_def intro!: exI [of _ "es @ ds"])
      ultimately show ?thesis using msg bs(2,3) big by auto
    next
      case False
      let ?r = "\<lparr>buffered = drop n bs, source = (source r)\<lparr>pending := es @ ds @ rest\<rparr>\<rparr>"
      have "bufRead n r = (Ok (take n bs), ?r)"
        using True False p by (simp add: bufRead_def)
      moreover have "reader_at ?r (drop n bs @ concat (es @ ds)) rest closed"
        using cs c bs(4) by (auto simp: reader_at_def intro!: exI [of _ "es @ ds"])
      moreover have "msg = take n bs @ drop n bs @ concat (es @ ds)" using msg by simp
      ultimately show ?thesis using bs(2) assms(2) by auto
    qed
  qed
qed

text \<open>Reading in full what is there yields it, however it is cut into chunks.\<close>

lemma readFull_at:
  assumes "reader_at r (bs @ msg) rest closed"
  shows "\<exists>r'. readFull (length bs) acc r = (Ok (acc @ bs), r') \<and> reader_at r' msg rest closed"
  using assms
proof (induction "length bs" acc r arbitrary: bs rule: readFull.induct)
  case (1 acc r)
  show ?case
  proof (cases "bs = []")
    case True
    with "1.prems" show ?thesis by (simp add: readFull.simps)
  next
    case False
    then have "0 < length bs" by simp
    from bufRead_at [OF "1.prems" this] obtain xs r' msg' where
      x: "bufRead (length bs) r = (Ok xs, r')" "xs \<noteq> []" "length xs \<le> length bs"
        "bs @ msg = xs @ msg'" "reader_at r' msg' rest closed"
      by auto
    then obtain ys where ys: "bs = xs @ ys" "msg' = ys @ msg"
      by (auto simp: append_eq_append_conv2)
    have len: "length bs - length xs = length ys" using ys(1) by simp
    have at: "reader_at r' (ys @ msg) rest closed" using x(5) unfolding ys(2) .
    have "length bs \<noteq> 0" using False by simp
    from "1.hyps" [OF this x(1) [symmetric] refl x(2) len at] obtain r'' where
      "readFull (length ys) (acc @ xs) r' = (Ok ((acc @ xs) @ ys), r'')"
      "reader_at r'' msg rest closed"
      by blast
    moreover have "readFull (length bs) acc r = readFull (length ys) (acc @ xs) r'"
      by (subst readFull.simps) (simp only: False x(1,2) len prod.case res.case length_0_conv if_False)
    ultimately show ?thesis by (simp add: ys(1))
  qed
qed

section \<open>Reading from the buffer, and what a read consumes\<close>

lemma readFull_buffered:
  assumes "n \<le> length (buffered r)"
  shows "readFull n acc r = (Ok (acc @ take n (buffered r)), r\<lparr>buffered := drop n (buffered r)\<rparr>)"
proof (cases "n = 0")
  case True
  then show ?thesis by (simp add: readFull.simps)
next
  case False
  with assms have "bufRead n r = (Ok (take n (buffered r)), r\<lparr>buffered := drop n (buffered r)\<rparr>)"
    by (auto simp: bufRead_def)
  with False assms show ?thesis by (auto simp: readFull.simps [of n acc r] readFull.simps [of 0])
qed

lemma readFull_first:
  assumes "pending p = (b # bs) # rest" "length (b # bs) \<le> 4096"
  shows "readFull 1 [] (newReader p) =
    (Ok [b], \<lparr>buffered = bs, source = p\<lparr>pending := rest\<rparr>\<rparr>)"
  using assms
  by (auto simp: readFull.simps newReader_def bufRead_def pipeRead_def bufSize_def)

text \<open>The bytes a reader can still deliver.\<close>

definition available :: "pipe \<Rightarrow> nat" where
  "available p = length (concat (pending p))"

definition remaining :: "bufreader \<Rightarrow> nat" where
  "remaining r = length (buffered r) + available (source r)"

lemma readChunks_length:
  "readChunks n cs = Some (bs, cs') \<Longrightarrow> length (concat cs) = length bs + length (concat cs')"
  by (induction n cs rule: readChunks.induct) (auto split: if_splits)

lemma readChunks_nonempty: "readChunks n cs = Some (bs, cs') \<Longrightarrow> 0 < n \<Longrightarrow> bs \<noteq> [] \<and> length bs \<le> n"
  by (induction n cs rule: readChunks.induct) (auto split: if_splits)

lemma bufRead_Ok:
  assumes "bufRead n r = (Ok bs, r')" "0 < n"
  shows "bs \<noteq> []" "length bs \<le> n" "remaining r = length bs + remaining r'"
    "writersClosed (source r') = writersClosed (source r)"
  using assms
  by (auto simp: bufRead_def pipeRead_def remaining_def available_def bufSize_def
      split: if_splits option.splits prod.splits res.splits
      dest: readChunks_length readChunks_nonempty)

lemma bufRead_outcome:
  assumes "bufRead n r = (q, r')" "0 < n" "writersClosed (source r)"
  shows "is_ok q \<or> q = Err eof"
  using assms
  by (auto simp: bufRead_def pipeRead_def split: if_splits option.splits)

lemma readFull_Ok:
  "readFull n acc r = (Ok bs, r') \<Longrightarrow>
   remaining r = n + remaining r' \<and> length bs = length acc + n
     \<and> writersClosed (source r') = writersClosed (source r)"
proof (induction n acc r arbitrary: bs r' rule: readFull.induct)
  case (1 n acc r)
  show ?case
  proof (cases "n = 0")
    case True
    with "1.prems" show ?thesis by (simp add: readFull.simps)
  next
    case False
    with "1.prems" obtain xs r1 where x: "bufRead n r = (Ok xs, r1)" "xs \<noteq> []"
      "readFull (n - length xs) (acc @ xs) r1 = (Ok bs, r')"
      by (subst (asm) readFull.simps) (auto split: prod.splits res.splits if_splits)
    note b = bufRead_Ok [OF x(1)] and ih = "1.IH" [OF False x(1) [symmetric] refl x(2,3)]
    from b ih False show ?thesis by simp
  qed
qed

lemma readFull_outcome:
  "readFull n acc r = (q, r') \<Longrightarrow> writersClosed (source r) \<Longrightarrow> is_ok q \<or> (\<exists>e. q = Err e)"
proof (induction n acc r arbitrary: q r' rule: readFull.induct)
  case (1 n acc r)
  show ?case
  proof (cases "n = 0")
    case True
    with "1.prems"(1) show ?thesis by (auto simp: readFull.simps)
  next
    case False
    then have n: "0 < n" by simp
    obtain p r1 where p: "bufRead n r = (p, r1)" by force
    from bufRead_outcome [OF p n "1.prems"(2)] consider xs where "p = Ok xs" | "p = Err eof"
      by auto
    then show ?thesis
    proof cases
      case (1 xs)
      note b = bufRead_Ok [OF p [unfolded 1] n]
      have "readFull (n - length xs) (acc @ xs) r1 = (q, r')"
        using \<open>readFull n acc r = (q, r')\<close> False p 1 b(1) by (subst (asm) readFull.simps) simp
      from "1.IH" [OF False p [symmetric, unfolded 1] refl b(1) this] b(4) \<open>writersClosed (source r)\<close>
      show ?thesis by simp
    next
      case 2
      with \<open>readFull n acc r = (q, r')\<close> False p show ?thesis
        by (subst (asm) readFull.simps) auto
    qed
  qed
qed

section \<open>Files that are closed once\<close>

text \<open>
  The open files; closing a file that is open gives \<open>closeErr\<close>, normally nil, and closing it
  again gives \<open>os.ErrClosed\<close>.
\<close>

type_synonym fd = nat

definition errClosed :: goerr where
  "errClosed = Msg ''file already closed''"

definition closeFile :: "(fd \<Rightarrow> goerr option) \<Rightarrow> fd \<Rightarrow> fd set \<Rightarrow> goerr option \<times> fd set" where
  "closeFile closeErr f open_fds =
     (if f \<in> open_fds then (closeErr f, open_fds - {f}) else (Some errClosed, open_fds))"

end
