(* ===== verification/Ipc.thy ===== *)
theory Ipc
  imports GoIO
begin

text \<open>
  \<open>ipc.go\<close>: pipe pairs, and the reader of dcrd's IPC messages.
\<close>

section \<open>Pipe pairs\<close>

record ipcPipePair =
  pipeR :: fd
  pipeW :: fd
  closeR :: bool
  closeW :: bool

definition closePair :: "(fd \<Rightarrow> goerr option) \<Rightarrow> ipcPipePair \<Rightarrow> fd set \<Rightarrow> goerr option \<times> fd set" where
  "closePair closeErr p fds =
     (let (errR, fds1) = (if closeR p then closeFile closeErr (pipeR p) fds else (None, fds));
          (errW, fds2) = (if closeW p then closeFile closeErr (pipeW p) fds1 else (None, fds1))
      in (if errR = None then errW else errR, fds2))"

text \<open>\<open>osPipe\<close> is the result of \<open>os.Pipe\<close>: an error or the two ends, which it opens.\<close>

definition newIPCPipePair :: "(fd \<times> fd) ext \<Rightarrow> bool \<Rightarrow> bool \<Rightarrow> fd set \<Rightarrow>
    ipcPipePair ext \<times> fd set" where
  "newIPCPipePair osPipe cR cW fds =
     (case osPipe of
        Inl err \<Rightarrow> (Inl err, fds)
      | Inr (r, wr) \<Rightarrow>
          (Inr \<lparr>pipeR = r, pipeW = wr, closeR = cR, closeW = cW\<rparr>, fds \<union> {r, wr}))"

section \<open>Messages\<close>

text \<open>Go strings are byte strings.\<close>

definition str_bytes :: "string \<Rightarrow> bytes" where
  "str_bytes s = map of_char s"

datatype pipeMessage = EmptyMsg | BoundP2PListenAddr bytes | BoundRPCListenAddr bytes

definition decodePayload :: "bytes \<Rightarrow> bytes \<Rightarrow> pipeMessage" where
  "decodePayload typ payload =
     (if typ = str_bytes ''p2plistenaddr'' then BoundP2PListenAddr payload
      else if typ = str_bytes ''rpclistenaddr'' then BoundRPCListenAddr payload
      else EmptyMsg)"

text \<open>\<open>binary.LittleEndian.Uint32\<close>\<close>

definition uint32LE :: "bytes \<Rightarrow> u32" where
  "uint32LE b =
     or (ucast (b ! 0)) (or (push_bit 8 (ucast (b ! 1)))
       (or (push_bit 16 (ucast (b ! 2))) (push_bit 24 (ucast (b ! 3)))))"

definition protocolVersion :: byte where
  "protocolVersion = 1"

text \<open>A read in full with the error path of the code; the reader is dropped on every return.\<close>

definition readOr :: "string \<Rightarrow> nat \<Rightarrow> bufreader \<Rightarrow>
    (bytes \<Rightarrow> bufreader \<Rightarrow> pipeMessage res \<times> pipe) \<Rightarrow> pipeMessage res \<times> pipe" where
  "readOr what n r cont =
     (case readFull n [] r of
        (Ok bs, r') \<Rightarrow> cont bs r'
      | (Err e, r') \<Rightarrow> (Err (Wrap what e), source r')
      | (Panic p, r') \<Rightarrow> (Panic p, source r')
      | (Blocked, r') \<Rightarrow> (Blocked, source r'))"

definition nextIPCMessage :: "pipe \<Rightarrow> pipeMessage res \<times> pipe" where
  "nextIPCMessage p =
     readOr ''unable to read protocol'' 1 (newReader p) (\<lambda>bProto r1.
       if bProto ! 0 \<noteq> protocolVersion then (Err (Msg ''protocol version mismatch''), source r1)
       else
     readOr ''unable to read type length'' 1 r1 (\<lambda>bLenType r2.
     readOr ''unable to read type'' (unat (bLenType ! 0)) r2 (\<lambda>typ r3.
     readOr ''unable to read payload length'' 4 r3 (\<lambda>bLenPay r4.
       let lenPay = uint32LE bLenPay in
     readOr ''unable to read payload'' (unat lenPay) r4 (\<lambda>payload r5.
       (Ok (decodePayload typ payload), source r5))))))"

section \<open>The wire format\<close>

definition bytesLE :: "u32 \<Rightarrow> bytes" where
  "bytesLE v = [ucast v, ucast (drop_bit 8 v), ucast (drop_bit 16 v), ucast (drop_bit 24 v)]"

text \<open>A message of protocol version 1 as the reader expects it.\<close>

definition ipcEncode :: "bytes \<Rightarrow> bytes \<Rightarrow> bytes" where
  "ipcEncode typ payload =
     [protocolVersion, of_nat (length typ)] @ typ @ bytesLE (of_nat (length payload)) @ payload"

lemma uint32LE_bytesLE: "uint32LE (bytesLE v) = v"
proof (rule bit_word_eqI)
  fix n assume "n < LENGTH(32)"
  then consider "n < 8" | "8 \<le> n" "n < 16" | "16 \<le> n" "n < 24" | "24 \<le> n" "n < 32" by fastforce
  then show "bit (uint32LE (bytesLE v)) n = bit v n"
    by cases (auto simp: uint32LE_def bytesLE_def bit_or_iff bit_push_bit_iff bit_ucast_iff
        bit_drop_bit_eq)
qed

lemma length_bytesLE [simp]: "length (bytesLE v) = 4"
  by (simp add: bytesLE_def)

lemma readOr_at:
  assumes "reader_at r (bs @ msg) rest closed"
    and "\<And>r'. reader_at r' msg rest closed \<Longrightarrow> cont bs r' = result"
  shows "readOr what (length bs) r cont = result"
  using readFull_at [OF assms(1), of "[]"] assms(2) by (auto simp: readOr_def)

lemma unat_of_nat_len [simp]:
  "n < 256 \<Longrightarrow> unat (of_nat n :: byte) = n" "n < 4294967296 \<Longrightarrow> unat (of_nat n :: u32) = n"
  by (simp_all add: unat_of_nat take_bit_eq_mod)

lemma len1: "length [x] = 1"
  by simp

lemma readOr_buffered:
  "buffered r = bs @ msg \<Longrightarrow> readOr what (length bs) r cont = cont bs (r\<lparr>buffered := msg\<rparr>)"
  by (simp add: readOr_def readFull_buffered)

definition returns :: "'a res \<Rightarrow> bool" where
  "returns q \<longleftrightarrow> is_ok q \<or> (\<exists>e. q = Err e)"

lemma returns_simps [simp]: "returns (Ok x)" "returns (Err e)"
  by (simp_all add: returns_def)

lemma readOr_returns:
  assumes "writersClosed (source r)"
    and "\<And>bs r'. writersClosed (source r') \<Longrightarrow> length bs = n \<Longrightarrow>
      returns (fst (cont bs r'))"
  shows "returns (fst (readOr what n r cont))"
proof -
  obtain q r' where q: "readFull n [] r = (q, r')" by force
  with readFull_outcome [OF q assms(1)] consider bs where "q = Ok bs" | e where "q = Err e" by auto
  then show ?thesis
  proof cases
    case (1 bs)
    with q readFull_Ok [of n "[]" r bs r'] assms show ?thesis by (simp add: readOr_def)
  qed (simp add: q readOr_def returns_def)
qed

text \<open>A message that is read uses up at least the six bytes of its frame.\<close>

lemma readOr_Ok:
  assumes "readOr what n r cont = (Ok m, p')"
  obtains bs r' where "cont bs r' = (Ok m, p')" "remaining r = n + remaining r'" "length bs = n"
  using assms readFull_Ok [of n "[]" r]
  by (auto simp: readOr_def split: prod.splits res.splits)

lemma nextIPCMessage_consumes:
  assumes "nextIPCMessage p = (Ok m, p')"
  shows "available p' + 6 \<le> available p"
  using assms unfolding nextIPCMessage_def Let_def
  by (auto elim!: readOr_Ok split: if_splits simp: remaining_def newReader_def)

lemma ipc_read_back:
  assumes "length typ < 256" "length payload < 2 ^ 32"
    and "pending p = cs @ rest" "[] \<notin> set cs" "concat cs = ipcEncode typ payload"
  shows "nextIPCMessage p = (Ok (decodePayload typ payload), p\<lparr>pending := rest\<rparr>)"
proof -
  let ?c = "writersClosed p"
  let ?l = "[of_nat (length typ)] :: bytes" and ?v = "bytesLE (of_nat (length payload))"
  have r0: "reader_at (newReader p) ([protocolVersion] @ ?l @ typ @ ?v @ payload @ []) rest ?c"
    using reader_at_new [OF assms(3,4)] assms(5) by (simp add: ipcEncode_def)
  have fin: "source r = p\<lparr>pending := rest\<rparr>" if "reader_at r [] rest ?c" for r
    using reader_at_end [OF that] by simp
  have lt: "unat (of_nat (length typ) :: byte) = length typ" using assms(1) by simp
  have lp: "unat (of_nat (length payload) :: u32) = length payload" using assms(2) by simp
  show ?thesis
    unfolding nextIPCMessage_def len1 [symmetric, of protocolVersion]
    apply (rule readOr_at [OF r0])
    apply (simp add: Let_def)
    apply (rule readOr_at [of _ ?l, simplified], simp)
    apply (simp add: lt)
    apply (rule readOr_at, simp)
    apply (rule readOr_at [of _ ?v, simplified], simp)
    apply (simp add: uint32LE_bytesLE lp)
    apply (rule readOr_at [where msg = "[]"], simp)
    apply (simp add: fin)
    done
qed

lemma ipc_lost:
  assumes "length typ < 256" "length payload < 2 ^ 32"
    and "pending p = (ipcEncode typ payload @ extra) # rest"
    and "length (ipcEncode typ payload @ extra) \<le> 4096"
  shows "nextIPCMessage p = (Ok (decodePayload typ payload), p\<lparr>pending := rest\<rparr>)"
proof -
  let ?l = "[of_nat (length typ)] :: bytes" and ?v = "bytesLE (of_nat (length payload))"
  let ?msg = "?l @ typ @ ?v @ payload @ extra"
  have msg: "ipcEncode typ payload @ extra = protocolVersion # ?msg" by (simp add: ipcEncode_def)
  have "readFull 1 [] (newReader p) =
      (Ok [protocolVersion], \<lparr>buffered = ?msg, source = p\<lparr>pending := rest\<rparr>\<rparr>)"
    using assms(3,4) unfolding msg by (rule readFull_first)
  then have first: "readOr w 1 (newReader p) cont =
      cont [protocolVersion] \<lparr>buffered = ?msg, source = p\<lparr>pending := rest\<rparr>\<rparr>" for w cont
    by (simp add: readOr_def)
  have lt: "unat (of_nat (length typ) :: byte) = length typ" using assms(1) by simp
  have lp: "unat (of_nat (length payload) :: u32) = length payload" using assms(2) by simp
  show ?thesis
    unfolding nextIPCMessage_def
    by (simp add: first [simplified] readOr_buffered [of _ ?l, simplified] lt)
      (simp add: readOr_buffered [of _ "typ"] readOr_buffered [of _ ?v, simplified]
        readOr_buffered [of _ payload] uint32LE_bytesLE lp)
qed

section \<open>Properties\<close>

text \<open>
  C12: A message is read back whatever its cut: if the bytes of an encoded message wait in the
  pipe, in chunks of any sizes the last of which ends with the message, then the reader returns
  the message, an event for the two known types and the empty message for any other type, and
  leaves what follows in the pipe.
\<close>

theorem ipc_message_roundtrip:
  assumes "length typ < 256" "length payload < 2 ^ 32"
    and "pending p = cs @ rest" "[] \<notin> set cs" "concat cs = ipcEncode typ payload"
  shows "nextIPCMessage p = (Ok (decodePayload typ payload), p\<lparr>pending := rest\<rparr>)"
  by (rule ipc_read_back [OF assms])

theorem ipc_message_roundtrip_witness:
  "nextIPCMessage \<lparr>pending = [[1, 1, 7], [2, 0, 0, 0, 8], [9], [5]], writersClosed = False\<rparr>
     = (Ok EmptyMsg, \<lparr>pending = [[5]], writersClosed = False\<rparr>)"
  using ipc_message_roundtrip [of "[7]" "[8, 9]"
      "\<lparr>pending = [[1, 1, 7], [2, 0, 0, 0, 8], [9], [5]], writersClosed = False\<rparr>"
      "[[1, 1, 7], [2, 0, 0, 0, 8], [9]]" "[[5]]"]
  by (simp add: ipcEncode_def bytesLE_def protocolVersion_def decodePayload_def str_bytes_def)

text \<open>
  C26: Every call reads through a buffer of its own, and what that buffer holds beyond the message
  is lost: if one read of at most 4096 bytes yields an encoded message followed by more bytes,
  the message is returned and those bytes are gone from the pipe.
\<close>

theorem ipc_coalesced_lost:
  assumes "length typ < 256" "length payload < 2 ^ 32"
    and "pending p = (ipcEncode typ payload @ extra) # rest"
    and "length (ipcEncode typ payload @ extra) \<le> 4096"
  shows "nextIPCMessage p = (Ok (decodePayload typ payload), p\<lparr>pending := rest\<rparr>)"
  by (rule ipc_lost [OF assms])

theorem ipc_coalesced_lost_witness:
  "nextIPCMessage \<lparr>pending = [[1, 1, 7, 0, 0, 0, 0, 1, 1, 8, 0, 0, 0, 0]], writersClosed = False\<rparr>
     = (Ok EmptyMsg, \<lparr>pending = [], writersClosed = False\<rparr>)"
  using ipc_coalesced_lost [of "[7]" "[]"
      "\<lparr>pending = [[1, 1, 7, 0, 0, 0, 0, 1, 1, 8, 0, 0, 0, 0]], writersClosed = False\<rparr>"
      "[1, 1, 8, 0, 0, 0, 0]" "[]"]
  by (simp add: ipcEncode_def bytesLE_def protocolVersion_def decodePayload_def str_bytes_def)

text \<open>
  C27: Once the writers have closed the pipe, reading a message never waits: it returns a message
  or an error.
\<close>

theorem ipc_closed_returns:
  assumes "writersClosed p"
  shows "(\<exists>m. fst (nextIPCMessage p) = Ok m) \<or> (\<exists>e. fst (nextIPCMessage p) = Err e)"
proof -
  have "writersClosed (source (newReader p))" using assms by (simp add: newReader_def)
  then have "returns (fst (nextIPCMessage p))"
    unfolding nextIPCMessage_def Let_def by (auto intro!: readOr_returns simp del: One_nat_def)
  then show ?thesis by (simp add: returns_def)
qed

theorem ipc_closed_returns_witness:
  "(\<exists>m. fst (nextIPCMessage \<lparr>pending = [[1]], writersClosed = True\<rparr>) = Ok m)
     \<or> (\<exists>e. fst (nextIPCMessage \<lparr>pending = [[1]], writersClosed = True\<rparr>) = Err e)"
  by (rule ipc_closed_returns) simp

text \<open>
  A message of another protocol version is refused, whatever follows.
\<close>

lemma ipc_version_mismatch:
  assumes "pending p = (v # bs) # rest" "v \<noteq> protocolVersion" "length (v # bs) \<le> 4096"
  shows "nextIPCMessage p = (Err (Msg ''protocol version mismatch''), p\<lparr>pending := rest\<rparr>)"
  using readFull_first [OF assms(1,3)] assms(2) by (simp add: nextIPCMessage_def readOr_def)

text \<open>
  Closing a pipe pair closes exactly the ends that its flags name, and the error returned is
  that of the reading end if it has one and otherwise that of the writing end.
\<close>

lemma close_pair_result:
  assumes "pipeR p \<noteq> pipeW p" "pipeR p \<in> fds" "pipeW p \<in> fds"
  shows "closePair closeErr p fds =
    ((if closeR p \<and> closeErr (pipeR p) \<noteq> None then closeErr (pipeR p)
      else if closeW p then closeErr (pipeW p) else None),
     fds - {f. (f = pipeR p \<and> closeR p) \<or> (f = pipeW p \<and> closeW p)})"
  using assms by (auto simp: closePair_def closeFile_def)

end
