(* ===== verification/Node.thy ===== *)
theory Node
  imports Ipc
begin

text \<open>
  \<open>node.go\<close>, \<open>node_common.go\<close> and \<open>node_windows.go\<close>: the configuration of a dcrd process, its
  start, its end, and the goroutine that reads the addresses dcrd reports.

  What happens outside during a call is an argument: \<open>node_env\<close> holds the answers of the operating
  system and what dcrd does. The goroutines that copy stderr and stdout and the one that waits for
  the process are counted by the wait group; they end when the process does.
\<close>

section \<open>Configuration\<close>

datatype os = Unix | Windows

text \<open>
  A Go slice of strings: an array in the store and a length; the array may be longer, and its rest
  is the spare capacity. \<open>append\<close> writes into the spare capacity if there is enough, so that every
  slice of the array sees it, and otherwise copies to a new array, to which the runtime gives
  \<open>spare n\<close> more elements than the \<open>n\<close> it needs.
\<close>

record slice =
  sliceArr :: nat
  sliceLen :: nat

record arrays =
  arrayAt :: "nat \<Rightarrow> string list"
  nextArray :: nat

definition sliceContents :: "arrays \<Rightarrow> slice \<Rightarrow> string list" where
  "sliceContents A s = take (sliceLen s) (arrayAt A (sliceArr s))"

definition goAppend :: "(nat \<Rightarrow> nat) \<Rightarrow> slice \<Rightarrow> string list \<Rightarrow> arrays \<Rightarrow> slice \<times> arrays" where
  "goAppend spare s xs A =
     (let a = arrayAt A (sliceArr s); n = sliceLen s + length xs in
      if n \<le> length a then
        (s\<lparr>sliceLen := n\<rparr>,
         A\<lparr>arrayAt := (arrayAt A)(sliceArr s := take (sliceLen s) a @ xs @ drop n a)\<rparr>)
      else
        (let c = sliceContents A s @ xs in
         (\<lparr>sliceArr = nextArray A, sliceLen = length c\<rparr>,
          A\<lparr>arrayAt := (arrayAt A)(nextArray A := c @ replicate (spare (length c)) []),
            nextArray := nextArray A + 1\<rparr>)))"

lemma goAppend_contents:
  assumes "goAppend spare s xs A = (s', A')"
  shows "sliceContents A' s' = sliceContents A s @ xs"
proof (cases "sliceLen s + length xs \<le> length (arrayAt A (sliceArr s))")
  case True
  with assms show ?thesis by (auto simp: goAppend_def sliceContents_def Let_def)
next
  case False
  define c where "c = sliceContents A s @ xs"
  from assms False have "s' = \<lparr>sliceArr = nextArray A, sliceLen = length c\<rparr>"
    "arrayAt A' (nextArray A) = c @ replicate (spare (length c)) []"
    unfolding c_def by (auto simp: goAppend_def Let_def)
  then have "sliceContents A' s' = c" by (simp add: sliceContents_def)
  then show ?thesis by (simp only: c_def)
qed

record nodeConfig =
  rpcUser :: string
  rpcPass :: string
  listen :: string
  rpcListen :: string
  rpcConnect :: string
  dataDir :: string
  logDir :: string
  profile :: string
  debugLevel :: string
  extra :: slice
  prefix :: string
  cfgPathToDCRD :: string
  endpoint :: string
  certFile :: string
  keyFile :: string
  certificates :: bytes
  pipeTX :: ipcPipePair
  pipeRX :: ipcPipePair

text \<open>\<open>filepath.Join\<close> of two clean elements, and \<open>%d\<close>.\<close>

definition joinPath :: "string \<Rightarrow> string \<Rightarrow> string" where
  "joinPath a b = (if a = [] then b else a @ ''/'' @ b)"

fun showNat :: "nat \<Rightarrow> string" where
  "showNat n = (if n < 10 then [char_of (48 + n)] else showNat (n div 10) @ [char_of (48 + n mod 10)])"

declare showNat.simps [simp del]

definition setDefaults :: "(string \<Rightarrow> bytes ext) \<Rightarrow> nodeConfig \<Rightarrow> nodeConfig ext" where
  "setDefaults readFile n =
     (let n = n\<lparr>dataDir := joinPath (prefix n) ''data'', logDir := joinPath (prefix n) ''logs''\<rparr> in
      case readFile (certFile n) of
        Inl err \<Rightarrow> Inl err
      | Inr cert \<Rightarrow> Inr (n\<lparr>certificates := cert\<rparr>))"

text \<open>\<open>osPipe1\<close> and \<open>osPipe2\<close> are the results of the two calls of \<open>os.Pipe\<close>.\<close>

definition newConfig :: "(fd \<times> fd) ext \<Rightarrow> (fd \<times> fd) ext \<Rightarrow> (string \<Rightarrow> bytes ext) \<Rightarrow>
    string \<Rightarrow> string \<Rightarrow> string \<Rightarrow> slice \<Rightarrow> fd set \<Rightarrow> nodeConfig ext \<times> fd set" where
  "newConfig osPipe1 osPipe2 readFile pre cert key ext fds =
     (case newIPCPipePair osPipe1 True False fds of
        (Inl err, fds) \<Rightarrow> (Inl (Wrap ''unable to create pipe for dcrd IPC'' err), fds)
      | (Inr tx, fds) \<Rightarrow>
          (case newIPCPipePair osPipe2 False True fds of
             (Inl err, fds) \<Rightarrow> (Inl (Wrap ''unable to create pipe for dcrd IPC'' err), fds)
           | (Inr rx, fds) \<Rightarrow>
               (setDefaults readFile
                  \<lparr>rpcUser = ''user'', rpcPass = ''pass'', listen = ''127.0.0.1:0'',
                   rpcListen = ''127.0.0.1:0'', rpcConnect = [], dataDir = [], logDir = [],
                   profile = [], debugLevel = [], extra = ext, prefix = pre, cfgPathToDCRD = [],
                   endpoint = ''ws'', certFile = cert, keyFile = key, certificates = [],
                   pipeTX = tx, pipeRX = rx\<rparr>, fds)))"

definition appendOSNodeArgsUnix :: "nodeConfig \<Rightarrow> string list \<Rightarrow> string list" where
  "appendOSNodeArgsUnix n args =
     (let args = args @ [''--pipetx=3''];
          args = args @ [''--piperx=4'']
      in args)"

definition appendOSNodeArgsWindows :: "nodeConfig \<Rightarrow> string list \<Rightarrow> string list" where
  "appendOSNodeArgsWindows n args =
     (let args = args @ [''--pipetx='' @ showNat (pipeW (pipeTX n))];
          args = args @ [''--piperx='' @ showNat (pipeR (pipeRX n))]
      in args)"

text \<open>The build picks the file by its tag.\<close>

definition appendOSNodeArgs :: "os \<Rightarrow> nodeConfig \<Rightarrow> string list \<Rightarrow> string list" where
  "appendOSNodeArgs sys =
     (case sys of Unix \<Rightarrow> appendOSNodeArgsUnix | Windows \<Rightarrow> appendOSNodeArgsWindows)"

text \<open>The descriptors dcrd inherits: \<open>ExtraFiles\<close> (from descriptor 3 on) or additional handles.\<close>

definition extraFilesUnix :: "nodeConfig \<Rightarrow> fd list" where
  "extraFilesUnix n = [pipeW (pipeTX n), pipeR (pipeRX n)]"

definition inheritedHandlesWindows :: "nodeConfig \<Rightarrow> fd list" where
  "inheritedHandlesWindows n = [pipeW (pipeTX n), pipeR (pipeRX n)]"

definition setOSNodeCmdOptions :: "os \<Rightarrow> nodeConfig \<Rightarrow> fd list" where
  "setOSNodeCmdOptions sys =
     (case sys of Unix \<Rightarrow> extraFilesUnix | Windows \<Rightarrow> inheritedHandlesWindows)"

definition optArg :: "string \<Rightarrow> string \<Rightarrow> string list \<Rightarrow> string list" where
  "optArg flag v args = (if v \<noteq> [] then args @ [flag @ v] else args)"

text \<open>The caller's arguments are read from the store when the command is made, in \<open>start\<close>.\<close>

definition arguments :: "os \<Rightarrow> arrays \<Rightarrow> nodeConfig \<Rightarrow> string list" where
  "arguments sys A n =
     (let args = [];
          args = optArg ''--rpcuser='' (rpcUser n) args;
          args = optArg ''--rpcpass='' (rpcPass n) args;
          args = optArg ''--listen='' (listen n) args;
          args = optArg ''--rpclisten='' (rpcListen n) args;
          args = optArg ''--rpcconnect='' (rpcConnect n) args;
          args = args @ [''--rpccert='' @ certFile n];
          args = args @ [''--rpckey='' @ keyFile n];
          args = args @ [''--txindex''];
          args = optArg ''--appdata='' (prefix n) args;
          args = optArg ''--datadir='' (dataDir n) args;
          args = optArg ''--logdir='' (logDir n) args;
          args = optArg ''--profile='' (profile n) args;
          args = optArg ''--debuglevel='' (debugLevel n) args;
          args = args @ [''--allowunsyncedmining''];
          args = appendOSNodeArgs sys n args;
          args = args @ [''--boundaddrevents'']
      in args @ sliceContents A (extra n))"

record command =
  cmdPath :: string
  cmdArgs :: "string list"
  cmdFiles :: "fd list"

definition nodeCommand :: "os \<Rightarrow> arrays \<Rightarrow> nodeConfig \<Rightarrow> command" where
  "nodeCommand sys A n =
     \<lparr>cmdPath = cfgPathToDCRD n, cmdArgs = arguments sys A n, cmdFiles = setOSNodeCmdOptions sys n\<rparr>"

section \<open>The addresses dcrd reports\<close>

text \<open>
  The goroutine of \<open>start\<close>: it reads messages from \<open>pipeTX\<close> until it has both addresses, then
  signals them (\<open>Some\<close>); on an error, or if it waits for ever, it never does. A message uses up at
  least one byte of the pipe, so the loop ends.
\<close>

function subsysAddrs :: "bytes \<Rightarrow> bytes \<Rightarrow> pipe \<Rightarrow> (bytes \<times> bytes) option \<times> pipe" where
  "subsysAddrs p2p rpcA p =
     (case nextIPCMessage p of
        (Ok msg, q) \<Rightarrow>
          (let p2p' = (case msg of BoundP2PListenAddr a \<Rightarrow> a | _ \<Rightarrow> p2p);
               rpc' = (case msg of BoundRPCListenAddr a \<Rightarrow> a | _ \<Rightarrow> rpcA) in
           if p2p' \<noteq> [] \<and> rpc' \<noteq> [] then (Some (p2p', rpc'), q)
           else subsysAddrs p2p' rpc' q)
      | (_, q) \<Rightarrow> (None, q))"
  by pat_completeness auto
termination
proof (relation "measure (\<lambda>(a, b, p). available p)")
  show "wf (measure (\<lambda>(a, b, p). available p))" by simp
next
  fix p2p rpcA p q m x y
  assume "(q, m) = nextIPCMessage p" "q = Ok x"
  then have "available m + 6 \<le> available p" by (simp add: nextIPCMessage_consumes [of p x m])
  then show "((x1, x2, m), p2p, rpcA, p) \<in> measure (\<lambda>(a, b, p). available p)" for x1 x2 by simp
qed

declare subsysAddrs.simps [simp del]

text \<open>The loop after it, which discards messages until an error; it is given \<open>pipeRX\<close>.\<close>

function drainMessages :: "pipe \<Rightarrow> pipe" where
  "drainMessages p =
     (case nextIPCMessage p of
        (Ok msg, q) \<Rightarrow> drainMessages q
      | (_, q) \<Rightarrow> q)"
  by pat_completeness auto
termination
proof (relation "measure available")
  fix p m q msg
  assume "(q, m) = nextIPCMessage p" "q = Ok msg"
  then have "available m + 6 \<le> available p" by (simp add: nextIPCMessage_consumes [of p msg m])
  then show "(m, p) \<in> measure available" by simp
qed simp

declare drainMessages.simps [simp del]

text \<open>The whole goroutine over the reading ends of the two pipes.\<close>

definition readAddresses :: "pipe \<Rightarrow> pipe \<Rightarrow> (bytes \<times> bytes) option \<times> pipe \<times> pipe" where
  "readAddresses tx rx =
     (case subsysAddrs [] [] tx of
        (None, tx) \<Rightarrow> (None, tx, rx)
      | (Some addrs, tx) \<Rightarrow> (Some addrs, tx, drainMessages rx))"

section \<open>The process\<close>

text \<open>
  \<open>cmdDoneBuf\<close> and \<open>cmdDoneClosed\<close> are the channel \<open>cmdDone\<close>; \<open>waiting\<close> says that the goroutine
  that waits for the process and sends on it has been launched, \<open>readers\<close> counts those that copy
  stderr and stdout. \<open>signals\<close> are the signals sent to the process.
\<close>

datatype signal = Interrupt | Kill

record node =
  config :: nodeConfig
  fds :: "fd set"
  cmdStarted :: bool
  cmdDoneBuf :: "goerr option list"
  cmdDoneClosed :: bool
  cmdErr :: "goerr option"
  waiting :: bool
  readers :: nat
  signals :: "signal list"
  pid :: nat
  pidFile :: string
  p2pAddr :: bytes
  rpcAddr :: bytes

definition newNode :: "nodeConfig \<Rightarrow> fd set \<Rightarrow> node" where
  "newNode cfg open_fds =
     \<lparr>config = cfg, fds = open_fds, cmdStarted = False, cmdDoneBuf = [], cmdDoneClosed = False,
      cmdErr = None, waiting = False, readers = 0, signals = [], pid = 0, pidFile = [], p2pAddr = [], rpcAddr = []\<rparr>"

text \<open>
  Which case of the final \<open>select\<close> of \<open>start\<close> is ready first; if it is the result of the process, the
  flag says whether \<open>cmdDone\<close> has also been closed when \<open>stop\<close> then looks at it.
\<close>

datatype selected = CtxDone goerr | CmdExited "goerr option" bool | SubsysAddrs

text \<open>
  \<open>exits\<close> is what the process ends with once it is asked to stop, \<open>None\<close> if it never ends; \<open>txData\<close>
  is all that dcrd writes to \<open>pipeTX\<close> while \<open>start\<close> waits.
\<close>

record node_env =
  goos :: os
  stderrPipe :: "goerr option"
  stdoutPipe :: "goerr option"
  startCmd :: "nat ext"
  createPidFile :: "goerr option"
  writePidFile :: "goerr option"
  closePidFile :: "goerr option"
  ready :: selected
  txData :: pipe
  exits :: "goerr option option"
  closeErr :: "fd \<Rightarrow> goerr option"
  removeFile :: "goerr option"

text \<open>\<open>pipeRX\<close> is closed to ask the process to stop; if that fails, it is sent a signal.\<close>

definition askToStop :: "os \<Rightarrow> (fd \<Rightarrow> goerr option) \<Rightarrow> node \<Rightarrow> node" where
  "askToStop sys ce n =
     (case closePair ce (pipeRX (config n)) (fds n) of
        (None, F) \<Rightarrow> n\<lparr>fds := F\<rparr>
      | (Some err, F) \<Rightarrow>
          n\<lparr>fds := F, signals := signals n @ [if sys = Windows then Kill else Interrupt]\<rparr>)"

lemma askToStop_eq:
  "askToStop sys ce n = n\<lparr>fds := snd (closePair ce (pipeRX (config n)) (fds n)),
     signals := signals n @ (if fst (closePair ce (pipeRX (config n)) (fds n)) = None then []
       else [if sys = Windows then Kill else Interrupt])\<rparr>"
  by (simp add: askToStop_def split: prod.split option.split)

definition stop :: "node_env \<Rightarrow> node \<Rightarrow> unit res \<times> node" where
  "stop env n =
     (if \<not> cmdStarted n then (Ok (), n)
      else if cmdDoneBuf n \<noteq> [] \<or> cmdDoneClosed n then (Ok (), n\<lparr>cmdDoneBuf := tl (cmdDoneBuf n)\<rparr>)
      else
        (let n = askToStop (goos env) (closeErr env) n in
         case exits env of
           None \<Rightarrow> (Blocked, n)
         | Some e \<Rightarrow>
             (let n = n\<lparr>readers := 0\<rparr> in
              if \<not> waiting n then (Blocked, n)
              else
                (let n = n\<lparr>waiting := False, cmdErr := e, cmdDoneClosed := True\<rparr> in
                 (Ok (), n\<lparr>fds := snd (closePair (closeErr env) (pipeTX (config n)) (fds n))\<rparr>)))))"

text \<open>\<open>_ = n.stop()\<close> and then returning \<open>err\<close> (nil if \<open>None\<close>).\<close>

definition stopAndReturn :: "node_env \<Rightarrow> goerr option \<Rightarrow> node \<Rightarrow> unit res \<times> node" where
  "stopAndReturn env err n =
     (case stop env n of
        (Ok _, n) \<Rightarrow> (case err of None \<Rightarrow> (Ok (), n) | Some e \<Rightarrow> (Err e, n))
      | (Err _, n) \<Rightarrow> (case err of None \<Rightarrow> (Ok (), n) | Some e \<Rightarrow> (Err e, n))
      | (Panic p, n) \<Rightarrow> (Panic p, n)
      | (Blocked, n) \<Rightarrow> (Blocked, n))"

definition errDcrdCmdExec :: string where
  "errDcrdCmdExec = ''unable to exec dcrd binary''"

text \<open>The last part of \<open>start\<close>: the goroutine that waits for the process, and the \<open>select\<close>.\<close>

definition awaitAddrs :: "node_env \<Rightarrow> node \<Rightarrow> unit res \<times> node" where
  "awaitAddrs env n =
     (let n = n\<lparr>waiting := True\<rparr> in
      case ready env of
        CtxDone err \<Rightarrow> stopAndReturn env (Some err) n
      | CmdExited err closed \<Rightarrow>
          (if closed then
             stopAndReturn env err (n\<lparr>waiting := False, readers := 0, cmdErr := err, cmdDoneClosed := True\<rparr>)
           else stopAndReturn (env\<lparr>exits := Some err\<rparr>) err (n\<lparr>cmdErr := err\<rparr>))
      | SubsysAddrs \<Rightarrow>
          (case subsysAddrs [] [] (txData env) of
             (Some (p2p, rpcA), _) \<Rightarrow> (Ok (), n\<lparr>p2pAddr := p2p, rpcAddr := rpcA\<rparr>)
           | (None, _) \<Rightarrow> (Blocked, n)))"

definition start :: "node_env \<Rightarrow> node \<Rightarrow> unit res \<times> node" where
  "start env n =
     (case stderrPipe env of
        Some err \<Rightarrow> (Err err, n)
      | None \<Rightarrow>
     (let n = n\<lparr>readers := readers n + 1\<rparr> in
      case stdoutPipe env of
        Some err \<Rightarrow> (Err err, n)
      | None \<Rightarrow>
     (let n = n\<lparr>readers := readers n + 1\<rparr> in
      case startCmd env of
        Inl err \<Rightarrow>
          (let n = n\<lparr>readers := 0\<rparr>;
               n = n\<lparr>fds := snd (closePair (closeErr env) (pipeTX (config n)) (fds n))\<rparr>;
               n = n\<lparr>fds := snd (closePair (closeErr env) (pipeRX (config n)) (fds n))\<rparr>
           in (Err (Wrap errDcrdCmdExec err), n))
      | Inr p \<Rightarrow>
     (let n = n\<lparr>cmdStarted := True, pid := p\<rparr> in
      case createPidFile env of
        Some err \<Rightarrow> stopAndReturn env (Some err) n
      | None \<Rightarrow>
     (let n = n\<lparr>pidFile := joinPath (prefix (config n)) ''dcrd.pid''\<rparr> in
      case writePidFile env of
        Some err \<Rightarrow> stopAndReturn env (Some err) n
      | None \<Rightarrow>
     (case closePidFile env of
        Some err \<Rightarrow> stopAndReturn env (Some err) n
      | None \<Rightarrow> awaitAddrs env n))))))"

definition cleanup :: "node_env \<Rightarrow> node \<Rightarrow> goerr option" where
  "cleanup env n = (if pidFile n \<noteq> [] then removeFile env else None)"

definition shutdown :: "node_env \<Rightarrow> node \<Rightarrow> unit res \<times> node" where
  "shutdown env n =
     (case stop env n of
        (Ok _, n) \<Rightarrow> (case cleanup env n of None \<Rightarrow> (Ok (), n) | Some err \<Rightarrow> (Err err, n))
      | (q, n) \<Rightarrow> (q, n))"

record connConfig =
  Host :: bytes
  Endpoint :: string
  User :: string
  Pass :: string
  Certificates :: bytes

definition rpcConnConfig :: "node \<Rightarrow> connConfig" where
  "rpcConnConfig n =
     \<lparr>Host = rpcAddr n, Endpoint = endpoint (config n), User = rpcUser (config n),
      Pass = rpcPass (config n), Certificates = certificates (config n)\<rparr>"

text \<open>\<open>newTLSCertPair\<close> is the result of \<open>certgen.NewTLSCertPair\<close>; \<open>'f\<close> is the file system.\<close>

definition genCertPair :: "(bytes \<times> bytes) ext \<Rightarrow> (string \<Rightarrow> bytes \<Rightarrow> nat \<Rightarrow> 'f \<Rightarrow> goerr option \<times> 'f) \<Rightarrow>
    (string \<Rightarrow> 'f \<Rightarrow> 'f) \<Rightarrow> string \<Rightarrow> string \<Rightarrow> 'f \<Rightarrow> goerr option \<times> 'f" where
  "genCertPair newTLSCertPair writeFile remove certF keyF fs =
     (case newTLSCertPair of
        Inl err \<Rightarrow> (Some err, fs)
      | Inr (cert, key) \<Rightarrow>
          (case writeFile certF cert 420 fs of
             (Some err, fs) \<Rightarrow> (Some err, fs)
           | (None, fs) \<Rightarrow>
               (case writeFile keyF key 384 fs of
                  (Some err, fs) \<Rightarrow> (Some err, remove certF fs)
                | (None, fs) \<Rightarrow> (None, fs))))"

section \<open>Reading the addresses\<close>

text \<open>The two events as dcrd encodes them.\<close>

definition p2pEvent :: "bytes \<Rightarrow> bytes" where
  "p2pEvent a = ipcEncode (str_bytes ''p2plistenaddr'') a"

definition rpcEvent :: "bytes \<Rightarrow> bytes" where
  "rpcEvent a = ipcEncode (str_bytes ''rpclistenaddr'') a"

lemma event_types:
  "length (str_bytes ''p2plistenaddr'') < 256" "length (str_bytes ''rpclistenaddr'') < 256"
  "decodePayload (str_bytes ''p2plistenaddr'') a = BoundP2PListenAddr a"
  "decodePayload (str_bytes ''rpclistenaddr'') a = BoundRPCListenAddr a"
  by (simp_all add: str_bytes_def decodePayload_def)

lemma ipcEncode_nonempty: "ipcEncode typ payload \<noteq> []"
  by (simp add: ipcEncode_def)

lemma next_event:
  assumes "length typ < 256" "length payload < 2 ^ 32"
    "pending p = cs @ rest" "[] \<notin> set cs" "concat cs = ipcEncode typ payload"
  shows "nextIPCMessage p = (Ok (decodePayload typ payload), p\<lparr>pending := rest\<rparr>)"
  using ipc_read_back [OF assms] .

lemma subsysAddrs_separate:
  assumes "a \<noteq> []" "b \<noteq> []" "length a < 2 ^ 32" "length b < 2 ^ 32"
    and "pending p = cs @ ds @ rest" "[] \<notin> set cs" "[] \<notin> set ds"
    and "concat cs = p2pEvent a" "concat ds = rpcEvent b"
  shows "subsysAddrs [] [] p = (Some (a, b), p\<lparr>pending := rest\<rparr>)"
proof -
  have "nextIPCMessage p = (Ok (BoundP2PListenAddr a), p\<lparr>pending := ds @ rest\<rparr>)"
    using next_event [OF event_types(1) assms(3,5,6) assms(8) [unfolded p2pEvent_def]]
    by (simp add: event_types)
  moreover have "nextIPCMessage (p\<lparr>pending := ds @ rest\<rparr>) = (Ok (BoundRPCListenAddr b), p\<lparr>pending := rest\<rparr>)"
    using next_event [OF event_types(2) assms(4) _ assms(7) assms(9) [unfolded rpcEvent_def],
        of "p\<lparr>pending := ds @ rest\<rparr>" rest]
    by (simp add: event_types)
  ultimately show ?thesis using assms(1,2) by (simp add: subsysAddrs.simps)
qed

lemma subsysAddrs_separate_rev:
  assumes "a \<noteq> []" "b \<noteq> []" "length a < 2 ^ 32" "length b < 2 ^ 32"
    and "pending p = cs @ ds @ rest" "[] \<notin> set cs" "[] \<notin> set ds"
    and "concat cs = rpcEvent b" "concat ds = p2pEvent a"
  shows "subsysAddrs [] [] p = (Some (a, b), p\<lparr>pending := rest\<rparr>)"
proof -
  have "nextIPCMessage p = (Ok (BoundRPCListenAddr b), p\<lparr>pending := ds @ rest\<rparr>)"
    using next_event [OF event_types(2) assms(4,5,6) assms(8) [unfolded rpcEvent_def]]
    by (simp add: event_types)
  moreover have "nextIPCMessage (p\<lparr>pending := ds @ rest\<rparr>) = (Ok (BoundP2PListenAddr a), p\<lparr>pending := rest\<rparr>)"
    using next_event [OF event_types(1) assms(3) _ assms(7) assms(9) [unfolded p2pEvent_def],
        of "p\<lparr>pending := ds @ rest\<rparr>" rest]
    by (simp add: event_types)
  ultimately show ?thesis using assms(1,2) by (simp add: subsysAddrs.simps)
qed

lemma nextIPC_empty: "pending p = [] \<Longrightarrow> \<exists>q. nextIPCMessage p = (q, p) \<and> \<not> is_ok q"
  by (cases p) (auto simp: nextIPCMessage_def readOr_def readFull.simps newReader_def bufRead_def
      bufSize_def pipeRead_def)

lemma closePair_fds:
  "snd (closePair ce p F) = F - (if closeR p then {pipeR p} else {}) - (if closeW p then {pipeW p} else {})"
  by (auto simp: closePair_def closeFile_def)

lemma start_result:
  assumes "stderrPipe env = None" "stdoutPipe env = None" "startCmd env = Inr p"
    and "createPidFile env = None" "writePidFile env = None" "closePidFile env = None"
    and "ready env = SubsysAddrs"
    and "pending (txData env) = cs @ ds @ rest" "[] \<notin> set cs" "[] \<notin> set ds"
    and "concat cs = p2pEvent a \<and> concat ds = rpcEvent b \<or> concat cs = rpcEvent b \<and> concat ds = p2pEvent a"
    and "a \<noteq> []" "b \<noteq> []" "length a < 2 ^ 32" "length b < 2 ^ 32"
  shows "start env n = (Ok (), n\<lparr>readers := readers n + 2, cmdStarted := True, pid := p,
    pidFile := joinPath (prefix (config n)) ''dcrd.pid'', waiting := True, p2pAddr := a, rpcAddr := b\<rparr>)"
proof -
  have "subsysAddrs [] [] (txData env) = (Some (a, b), (txData env)\<lparr>pending := rest\<rparr>)"
    using subsysAddrs_separate [OF assms(12-15) assms(8-10)]
      subsysAddrs_separate_rev [OF assms(12-15) assms(8-10)] assms(11) by blast
  with assms(1-7) show ?thesis by (simp add: start_def awaitAddrs_def)
qed

section \<open>Properties\<close>

text \<open>
  C14: When dcrd reports its two addresses, in either order, in messages that do not share a read,
  \<open>start\<close> returns nil with exactly these addresses, the process is running and its pid recorded.
\<close>

theorem start_gets_addresses:
  assumes "stderrPipe env = None" "stdoutPipe env = None" "startCmd env = Inr p"
    and "createPidFile env = None" "writePidFile env = None" "closePidFile env = None"
    and "ready env = SubsysAddrs"
    and "pending (txData env) = cs @ ds @ rest" "[] \<notin> set cs" "[] \<notin> set ds"
    and "concat cs = p2pEvent a \<and> concat ds = rpcEvent b \<or> concat cs = rpcEvent b \<and> concat ds = p2pEvent a"
    and "a \<noteq> []" "b \<noteq> []" "length a < 2 ^ 32" "length b < 2 ^ 32"
  shows "start env n = (Ok (), n\<lparr>readers := readers n + 2, cmdStarted := True, pid := p,
    pidFile := joinPath (prefix (config n)) ''dcrd.pid'', waiting := True, p2pAddr := a, rpcAddr := b\<rparr>)"
  by (rule start_result [OF assms])

text \<open>
  C25: When both messages are there at the first read, as one chunk of at most 4096 bytes, the
  second is lost with the reader's buffer: the addresses are never signalled, and \<open>start\<close>, if
  neither the context ends nor the process exits, waits for ever.
\<close>

theorem start_hangs_on_coalesced:
  assumes "stderrPipe env = None" "stdoutPipe env = None" "startCmd env = Inr p"
    and "createPidFile env = None" "writePidFile env = None" "closePidFile env = None"
    and "ready env = SubsysAddrs"
    and "pending (txData env) = [p2pEvent a @ rpcEvent b]" "length (p2pEvent a @ rpcEvent b) \<le> 4096"
    and "length a < 2 ^ 32"
  shows "fst (start env n) = Blocked"
proof -
  let ?tx = "txData env"
  have "nextIPCMessage ?tx = (Ok (BoundP2PListenAddr a), ?tx\<lparr>pending := []\<rparr>)"
    using ipc_lost [OF event_types(1) assms(10), of ?tx "rpcEvent b" "[]"] assms(8,9)
    by (simp add: event_types p2pEvent_def)
  moreover obtain q where "nextIPCMessage (?tx\<lparr>pending := []\<rparr>) = (q, ?tx\<lparr>pending := []\<rparr>)" "\<not> is_ok q"
    using nextIPC_empty [of "?tx\<lparr>pending := []\<rparr>"] by auto
  ultimately have "fst (subsysAddrs [] [] ?tx) = None"
    by (simp add: subsysAddrs.simps [of "[]" "[]"] subsysAddrs.simps [of a "[]"] split: res.split)
  then show ?thesis
    using assms(1-7) by (cases "subsysAddrs [] [] ?tx") (simp add: start_def awaitAddrs_def)
qed

text \<open>
  After the addresses the goroutine reads on from \<open>pipeRX\<close>, the pipe dcrd reads from: what dcrd
  sends afterwards stays in \<open>pipeTX\<close>, whatever it is.
\<close>

lemma later_messages_not_drained:
  assumes "a \<noteq> []" "b \<noteq> []" "length a < 2 ^ 32" "length b < 2 ^ 32"
    and "pending tx = cs @ ds @ rest" "[] \<notin> set cs" "[] \<notin> set ds"
    and "concat cs = p2pEvent a" "concat ds = rpcEvent b"
  shows "readAddresses tx rx = (Some (a, b), tx\<lparr>pending := rest\<rparr>, drainMessages rx)"
  using subsysAddrs_separate [OF assms] by (simp add: readAddresses_def)

text \<open>
  If dcrd exits with status zero before it has reported its addresses, \<open>start\<close> returns nil and
  the configuration for RPC clients has no host.
\<close>

lemma start_succeeds_without_addresses:
  assumes "stderrPipe env = None" "stdoutPipe env = None" "startCmd env = Inr p"
    and "createPidFile env = None" "writePidFile env = None" "closePidFile env = None"
    and "ready env = CmdExited None closed"
  shows "\<exists>n'. start env (newNode cfg open_fds) = (Ok (), n') \<and> Host (rpcConnConfig n') = []"
  using assms
  by (cases closed)
    (simp_all add: start_def awaitAddrs_def stopAndReturn_def stop_def askToStop_def newNode_def
       rpcConnConfig_def Let_def split: prod.split option.split)

text \<open>
  C23: A running node stops if the process ends when asked to: \<open>stop\<close> returns nil, closes the writing
  end of \<open>pipeRX\<close> and the reading end of \<open>pipeTX\<close> and no other descriptor, sends a signal exactly if
  closing \<open>pipeRX\<close> fails, and a second \<open>stop\<close> does nothing. A node that was never started is left
  alone.
\<close>

theorem stop_running_node:
  assumes "cmdStarted n" "cmdDoneBuf n = []" "\<not> cmdDoneClosed n" "waiting n" "exits env = Some e"
    and "\<not> closeR (pipeRX (config n))" "closeW (pipeRX (config n))"
    and "closeR (pipeTX (config n))" "\<not> closeW (pipeTX (config n))"
  shows "\<exists>n'. stop env n = (Ok (), n') \<and> cmdErr n' = e \<and>
    fds n' = fds n - {pipeW (pipeRX (config n)), pipeR (pipeTX (config n))} \<and>
    signals n' = signals n @ (if fst (closePair (closeErr env) (pipeRX (config n)) (fds n)) = None then []
      else [if goos env = Windows then Kill else Interrupt]) \<and>
    stop env n' = (Ok (), n') \<and> (\<forall>m. \<not> cmdStarted m \<longrightarrow> stop env m = (Ok (), m))"
proof (intro exI conjI)
  let ?n = "n\<lparr>fds := fds n - {pipeW (pipeRX (config n))} - {pipeR (pipeTX (config n))}, readers := 0,
      waiting := False, cmdErr := e, cmdDoneClosed := True,
      signals := signals n @ (if fst (closePair (closeErr env) (pipeRX (config n)) (fds n)) = None then []
        else [if goos env = Windows then Kill else Interrupt])\<rparr>"
  show "stop env n = (Ok (), ?n)" using assms by (simp add: stop_def askToStop_eq Let_def closePair_fds)
  show "stop env ?n = (Ok (), ?n)" using assms by (simp add: stop_def)
  show "\<forall>m. \<not> cmdStarted m \<longrightarrow> stop env m = (Ok (), m)" by (simp add: stop_def)
qed auto

text \<open>
  The arguments for dcrd under a new configuration, in order, with those of the caller last;
  dcrd finds the writing end of \<open>pipeTX\<close> and the reading end of \<open>pipeRX\<close> as descriptors three and
  four.
\<close>

lemma new_config_arguments:
  assumes "newConfig (Inr (r1, w1)) (Inr (r2, w2)) readFile pre cert key ext open_fds = (Inr cfg, open_fds')"
    and "pre \<noteq> []"
  shows "arguments Unix A cfg =
    [''--rpcuser=user'', ''--rpcpass=pass'', ''--listen=127.0.0.1:0'', ''--rpclisten=127.0.0.1:0'',
     ''--rpccert='' @ cert, ''--rpckey='' @ key, ''--txindex'', ''--appdata='' @ pre,
     ''--datadir='' @ pre @ ''/data'', ''--logdir='' @ pre @ ''/logs'', ''--allowunsyncedmining'',
     ''--pipetx=3'', ''--piperx=4'', ''--boundaddrevents''] @ sliceContents A ext
   \<and> setOSNodeCmdOptions Unix cfg = [w1, r2] \<and> open_fds' = open_fds \<union> {r1, w1, r2, w2}"
proof -
  let ?tx = "\<lparr>pipeR = r1, pipeW = w1, closeR = True, closeW = False\<rparr>"
  let ?rx = "\<lparr>pipeR = r2, pipeW = w2, closeR = False, closeW = True\<rparr>"
  from assms(1) obtain c where cfg: "cfg =
      \<lparr>rpcUser = ''user'', rpcPass = ''pass'', listen = ''127.0.0.1:0'',
       rpcListen = ''127.0.0.1:0'', rpcConnect = [], dataDir = joinPath pre ''data'',
       logDir = joinPath pre ''logs'', profile = [], debugLevel = [], extra = ext, prefix = pre,
       cfgPathToDCRD = [], endpoint = ''ws'', certFile = cert, keyFile = key, certificates = c,
       pipeTX = ?tx, pipeRX = ?rx\<rparr>"
    and fds: "open_fds' = open_fds \<union> {r1, w1} \<union> {r2, w2}"
    by (force simp: newConfig_def newIPCPipePair_def setDefaults_def split: sum.split_asm)
  have "arguments Unix A cfg =
    [''--rpcuser='' @ ''user'', ''--rpcpass='' @ ''pass'', ''--listen='' @ ''127.0.0.1:0'',
     ''--rpclisten='' @ ''127.0.0.1:0'', ''--rpccert='' @ cert, ''--rpckey='' @ key, ''--txindex'',
     ''--appdata='' @ pre, ''--datadir='' @ joinPath pre ''data'', ''--logdir='' @ joinPath pre ''logs'',
     ''--allowunsyncedmining'', ''--pipetx=3'', ''--piperx=4'', ''--boundaddrevents''] @ sliceContents A ext"
    using assms(2) unfolding cfg arguments_def optArg_def appendOSNodeArgs_def appendOSNodeArgsUnix_def
    by (simp only: nodeConfig.select_convs Let_def if_True if_False list.distinct not_False_eq_True
        joinPath_def append_Nil append_Cons append_assoc os.case simp_thms append_is_Nil_conv)
  then show ?thesis
    using assms(2) fds unfolding cfg by (auto simp: joinPath_def setOSNodeCmdOptions_def extraFilesUnix_def)
qed

text \<open>
  \<open>genCertPair\<close> leaves no certificate behind when the key cannot be written: the certificate
  file is removed and the error returned.
\<close>

lemma cert_removed_without_key:
  assumes "writeFile certF cert 420 fs = (None, fs1)" "writeFile keyF key 384 fs1 = (Some err, fs2)"
  shows "genCertPair (Inr (cert, key)) writeFile remove certF keyF fs = (Some err, remove certF fs2)"
  using assms by (simp add: genCertPair_def)

section \<open>A concrete node\<close>

text \<open>The addresses are \<open>1\<close> and \<open>2\<close>; the process ends with status zero when asked to.\<close>

definition demo_env :: "bytes list \<Rightarrow> node_env" where
  "demo_env chunks =
     \<lparr>goos = Unix, stderrPipe = None, stdoutPipe = None, startCmd = Inr 77, createPidFile = None,
      writePidFile = None, closePidFile = None, ready = SubsysAddrs,
      txData = \<lparr>pending = chunks, writersClosed = False\<rparr>, exits = Some None,
      closeErr = (\<lambda>_. None), removeFile = None\<rparr>"

definition demo_config :: nodeConfig where
  "demo_config =
     \<lparr>rpcUser = ''user'', rpcPass = ''pass'', listen = [], rpcListen = [], rpcConnect = [],
      dataDir = [], logDir = [], profile = [], debugLevel = [], extra = \<lparr>sliceArr = 0, sliceLen = 0\<rparr>, prefix = ''/tmp'',
      cfgPathToDCRD = ''dcrd'', endpoint = ''ws'', certFile = [], keyFile = [], certificates = [],
      pipeTX = \<lparr>pipeR = 3, pipeW = 4, closeR = True, closeW = False\<rparr>,
      pipeRX = \<lparr>pipeR = 5, pipeW = 6, closeR = False, closeW = True\<rparr>\<rparr>"

definition demo_node :: node where
  "demo_node = newNode demo_config {3, 4, 5, 6}"

lemmas node_defs = demo_env_def demo_node_def newNode_def demo_config_def

lemma demo_started:
  "start (demo_env [p2pEvent [49], rpcEvent [50]]) demo_node =
    (Ok (), demo_node\<lparr>readers := readers demo_node + 2, cmdStarted := True,
      pid := 77, pidFile := joinPath (prefix (config demo_node)) ''dcrd.pid'', waiting := True,
      p2pAddr := [49], rpcAddr := [50]\<rparr>)"
  by (rule start_result [of _ _ "[p2pEvent [49]]" "[rpcEvent [50]]" "[]"])
    (simp_all add: demo_env_def p2pEvent_def rpcEvent_def ipcEncode_def)

theorem start_gets_addresses_witness:
  "start (demo_env [p2pEvent [49], rpcEvent [50]]) demo_node =
    (Ok (), demo_node\<lparr>readers := readers demo_node + 2, cmdStarted := True,
      pid := 77, pidFile := joinPath (prefix (config demo_node)) ''dcrd.pid'', waiting := True,
      p2pAddr := [49], rpcAddr := [50]\<rparr>)"
  by (rule start_gets_addresses [of _ _ "[p2pEvent [49]]" "[rpcEvent [50]]" "[]"])
    (simp_all add: demo_env_def p2pEvent_def rpcEvent_def ipcEncode_def)

theorem start_hangs_on_coalesced_witness:
  "fst (start (demo_env [p2pEvent [49] @ rpcEvent [50]]) demo_node) = Blocked"
  by (rule start_hangs_on_coalesced [of _ 77 "[49]" "[50]"])
    (simp_all add: demo_env_def p2pEvent_def rpcEvent_def ipcEncode_def str_bytes_def)

theorem stop_running_node_witness:
  "\<exists>n'. stop (demo_env []) (demo_node\<lparr>cmdStarted := True, waiting := True\<rparr>) = (Ok (), n')
     \<and> fds n' = {4, 5}"
proof -
  obtain n' where "stop (demo_env []) (demo_node\<lparr>cmdStarted := True, waiting := True\<rparr>) = (Ok (), n')"
    "fds n' = {3, 4, 5, 6} - {6, 3}"
    using stop_running_node [of "demo_node\<lparr>cmdStarted := True, waiting := True\<rparr>" "demo_env []" None]
    by (auto simp: node_defs)
  moreover have "{3, 4, 5, 6} - {6, 3 :: nat} = {4, 5}" by auto
  ultimately show ?thesis by metis
qed

end
