(* ===== verification/Harness.thy ===== *)
theory Harness
  imports Node MemWallet
begin

text \<open>
  \<open>rpc_harness.go\<close> and \<open>builder.go\<close>: the harness that ties a dcrd process, an RPC client and an
  in-memory wallet together.

  A notification handler is the list of the callbacks it runs, in order; the number names the
  harness whose wallet is called, or the callback of the user. The structs of handlers live in a
  store, and a pointer to one is its address there: \<open>New\<close> changes the caller's struct in place.
  The slice of arguments lives in a store of arrays in the same way.

  A harness drops its client, its node and its wallet when it is torn down. The last three fields
  of the state keep the dropped objects as they were left: the clients that were shut down, the
  nodes, and the wallets.
\<close>

section \<open>State\<close>

datatype callback = WalletIngest u32 | WalletUnwind u32 | UserCallback nat

record handlers =
  OnBlockConnected :: "callback list option"
  OnBlockDisconnected :: "callback list option"

record 'k harness =
  ActiveNet :: net_params
  client :: "nat option"
  hnode :: "node option"
  hhandlers :: nat
  wallet :: "'k mem_wallet option"
  testNodeDir :: string
  maxConnRetries :: nat
  keepNodeDir :: bool
  dirPresent :: bool
  shutClients :: "nat list"
  leftNodes :: "node list"
  stoppedWallets :: "'k mem_wallet list"

text \<open>The variables of the package, the open files of the process, and the two stores.\<close>

record globals =
  numTestInstances :: u32
  pathToDCRD :: string
  openFds :: "fd set"
  argStore :: arrays
  structs :: "nat \<Rightarrow> handlers"
  nextStruct :: nat

definition SetPathToDCRD :: "string \<Rightarrow> globals \<Rightarrow> globals" where
  "SetPathToDCRD path g = g\<lparr>pathToDCRD := path\<rparr>"

section \<open>Building dcrd\<close>

text \<open>\<open>outDir\<close> is the result of \<open>os.MkdirTemp\<close>, \<open>goBuild\<close> that of the \<open>go build\<close> command.\<close>

definition buildDcrd :: "os \<Rightarrow> string ext \<Rightarrow> (string \<Rightarrow> goerr option) \<Rightarrow> string ext" where
  "buildDcrd sys outDir goBuild =
     (case outDir of
        Inl err \<Rightarrow> Inl err
      | Inr dir \<Rightarrow>
          (let dcrdPath = joinPath dir (''dcrd'' @ (if sys = Windows then ''.exe'' else [])) in
           case goBuild dcrdPath of
             Some err \<Rightarrow> Inl (Wrap ''failed to build dcrd'' err)
           | None \<Rightarrow> Inr dcrdPath))"

section \<open>New\<close>

text \<open>The network identifiers of \<open>wire\<close>.\<close>

record net_ids =
  MainNet :: u32
  TestNet3 :: u32
  SimNet :: u32
  RegNet :: u32

record new_env =
  newOs :: os
  mkdirTemp :: "u32 \<Rightarrow> string ext"
  certPairErr :: "goerr option"
  osPipe1 :: "(fd \<times> fd) ext"
  osPipe2 :: "(fd \<times> fd) ext"
  readFile :: "string \<Rightarrow> bytes ext"
  buildDir :: "string ext"
  goBuild :: "string \<Rightarrow> goerr option"
  spareCap :: "nat \<Rightarrow> nat"

definition netFlag :: "net_ids \<Rightarrow> u32 \<Rightarrow> string list option" where
  "netFlag ids n =
     (if n = MainNet ids then Some []
      else if n = TestNet3 ids then Some [''--testnet'']
      else if n = SimNet ids then Some [''--simnet'']
      else if n = RegNet ids then Some [''--regnet'']
      else None)"

text \<open>The struct at \<open>p\<close> after its two assignments.\<close>

definition wrapConnected :: "u32 \<Rightarrow> nat \<Rightarrow> globals \<Rightarrow> globals" where
  "wrapConnected nodeNum p g =
     (let hs = structs g p in
      g\<lparr>structs := (structs g)(p := hs\<lparr>OnBlockConnected :=
        (case OnBlockConnected hs of
           Some obc \<Rightarrow> Some (WalletIngest nodeNum # obc)
         | None \<Rightarrow> Some [WalletIngest nodeNum])\<rparr>)\<rparr>)"

definition wrapDisconnected :: "u32 \<Rightarrow> nat \<Rightarrow> globals \<Rightarrow> globals" where
  "wrapDisconnected nodeNum p g =
     (let hs = structs g p in
      g\<lparr>structs := (structs g)(p := hs\<lparr>OnBlockDisconnected :=
        (case OnBlockDisconnected hs of
           Some obd \<Rightarrow> Some (WalletUnwind nodeNum # obd)
         | None \<Rightarrow> Some [WalletUnwind nodeNum])\<rparr>)\<rparr>)"

definition newHandlers :: "globals \<Rightarrow> nat \<times> globals" where
  "newHandlers g = (nextStruct g,
     g\<lparr>structs := (structs g)(nextStruct g := \<lparr>OnBlockConnected = None, OnBlockDisconnected = None\<rparr>),
       nextStruct := nextStruct g + 1\<rparr>)"

text \<open>The pointer is nil or the caller's; the result is the pointer the harness keeps.\<close>

definition wrapHandlers :: "u32 \<Rightarrow> nat option \<Rightarrow> globals \<Rightarrow> nat \<times> globals" where
  "wrapHandlers nodeNum hs g =
     (let (p, g) = (case hs of None \<Rightarrow> newHandlers g | Some p \<Rightarrow> (p, g))
      in (p, wrapDisconnected nodeNum p (wrapConnected nodeNum p g)))"

text \<open>The path of the dcrd binary, built if there is none yet.\<close>

definition dcrdPath :: "new_env \<Rightarrow> globals \<Rightarrow> string ext" where
  "dcrdPath env g =
     (if pathToDCRD g = [] then buildDcrd (newOs env) (buildDir env) (goBuild env)
      else Inr (pathToDCRD g))"

text \<open>The part after the temporary directory and the certificates.\<close>

definition newWithWallet :: "new_env \<Rightarrow> net_params \<Rightarrow> u32 \<Rightarrow> string \<Rightarrow> nat option \<Rightarrow> slice \<Rightarrow>
    'k mem_wallet option \<Rightarrow> globals \<Rightarrow> 'k harness res \<times> globals" where
  "newWithWallet env params nodeNum dir hs extraArgs mw g =
     (case mw of
        None \<Rightarrow> (Panic NilDeref, g)
      | Some m \<Rightarrow>
     (let miningAddr = ''--miningaddr='' @
            (case coinbaseAddr m of None \<Rightarrow> ''%!s(<nil>)'' | Some a \<Rightarrow> addrString a);
          (extraArgs, st) = goAppend (spareCap env) extraArgs [miningAddr] (argStore g);
          g = g\<lparr>argStore := st\<rparr> in
      case newConfig (osPipe1 env) (osPipe2 env) (readFile env) dir
          (joinPath dir ''rpc.cert'') (joinPath dir ''rpc.key'') extraArgs (openFds g) of
        (Inl err, fs) \<Rightarrow> (Err err, g\<lparr>openFds := fs\<rparr>)
      | (Inr cfg, fs) \<Rightarrow>
     (let g = g\<lparr>openFds := fs\<rparr> in
      case dcrdPath env g of
        Inl err \<Rightarrow> (Err err, g)
      | Inr path \<Rightarrow>
          (let (p, g) = wrapHandlers nodeNum hs (g\<lparr>pathToDCRD := path\<rparr>) in
           (Ok \<lparr>ActiveNet = params, client = None, hnode = Some (newNode (cfg\<lparr>cfgPathToDCRD := path\<rparr>) fs),
                hhandlers = p, wallet = Some m, testNodeDir = dir, maxConnRetries = 20,
                keepNodeDir = False, dirPresent = True,
                shutClients = [], leftNodes = [], stoppedWallets = []\<rparr>, g)))))"

text \<open>The main network has no flag, and nothing is appended for it.\<close>

definition appendFlags :: "new_env \<Rightarrow> slice \<Rightarrow> string list \<Rightarrow> globals \<Rightarrow> slice \<times> globals" where
  "appendFlags env extraArgs flags g =
     (if flags = [] then (extraArgs, g)
      else (case goAppend (spareCap env) extraArgs flags (argStore g) of
              (extraArgs, st) \<Rightarrow> (extraArgs, g\<lparr>argStore := st\<rparr>)))"

definition New :: "net_ids \<Rightarrow> 'k key_api \<Rightarrow> new_env \<Rightarrow> net_params \<Rightarrow> nat option \<Rightarrow> slice \<Rightarrow>
    globals \<Rightarrow> 'k harness res \<times> globals" where
  "New ids K env params hs extraArgs g =
     (case netFlag ids (Net params) of
        None \<Rightarrow> (Err (Msg ''dcrdtest.New must be called with one of the supported chain networks''), g)
      | Some flags \<Rightarrow>
     (let (extraArgs, g) = appendFlags env extraArgs flags g;
          nodeNum = numTestInstances g + 1;
          g = g\<lparr>numTestInstances := nodeNum\<rparr> in
      case mkdirTemp env nodeNum of
        Inl err \<Rightarrow> (Err err, g)
      | Inr dir \<Rightarrow>
     (case certPairErr env of
        Some err \<Rightarrow> (Err err, g)
      | None \<Rightarrow>
     (case newMemWallet K params nodeNum of
        Ok mw \<Rightarrow> newWithWallet env params nodeNum dir hs extraArgs mw g
      | Err err \<Rightarrow> (Err err, g)
      | Panic p \<Rightarrow> (Panic p, g)
      | Blocked \<Rightarrow> (Blocked, g)))))"

definition SetKeepNodeDir :: "bool \<Rightarrow> 'k harness \<Rightarrow> 'k harness" where
  "SetKeepNodeDir keep h = h\<lparr>keepNodeDir := keep\<rparr>"

section \<open>TearDown\<close>

text \<open>
  \<open>Stop\<close> of the wallet: \<open>quit\<close> is closed, and the call returns when the wait group is at zero.
  \<open>drain\<close> is what the chain syncer still does to the wallet until it has returned; a closed
  channel stays closed. \<open>rmErr\<close> is the result of removing the directory.
\<close>

definition stopWallet :: "('k mem_wallet \<Rightarrow> 'k mem_wallet) \<Rightarrow> 'k mem_wallet \<Rightarrow> unit res \<times> 'k mem_wallet" where
  "stopWallet drain m =
     (case closeQuit m of
        Ok m \<Rightarrow>
          (let m = (drain m)\<lparr>quitClosed := True\<rparr>
           in (if wg m = 0 then Ok () else Blocked, m))
      | Err e \<Rightarrow> (Err e, m)
      | Panic p \<Rightarrow> (Panic p, m)
      | Blocked \<Rightarrow> (Blocked, m))"

definition removeDir :: "goerr option \<Rightarrow> 'k harness \<Rightarrow> 'k harness" where
  "removeDir rmErr h = (if \<not> keepNodeDir h \<and> rmErr = None then h\<lparr>dirPresent := False\<rparr> else h)"

definition tearDownWallet :: "('k mem_wallet \<Rightarrow> 'k mem_wallet) \<Rightarrow> goerr option \<Rightarrow> 'k harness \<Rightarrow>
    unit res \<times> 'k harness" where
  "tearDownWallet drain rmErr h =
     (case wallet h of
        None \<Rightarrow> (Ok (), removeDir rmErr h)
      | Some m \<Rightarrow>
          (case stopWallet drain m of
             (Ok _, m) \<Rightarrow>
               (Ok (), removeDir rmErr (h\<lparr>wallet := None, stoppedWallets := stoppedWallets h @ [m]\<rparr>))
           | (q, m) \<Rightarrow> (q, h\<lparr>wallet := Some m\<rparr>)))"

definition shutdownClient :: "'k harness \<Rightarrow> 'k harness" where
  "shutdownClient h =
     (case client h of
        None \<Rightarrow> h
      | Some c \<Rightarrow> h\<lparr>client := None, shutClients := shutClients h @ [c]\<rparr>)"

definition TearDown :: "node_env \<Rightarrow> ('k mem_wallet \<Rightarrow> 'k mem_wallet) \<Rightarrow> goerr option \<Rightarrow> 'k harness \<Rightarrow>
    unit res \<times> 'k harness" where
  "TearDown env drain rmErr h =
     (let h = shutdownClient h in
      case hnode h of
        None \<Rightarrow> tearDownWallet drain rmErr h
      | Some n \<Rightarrow>
          (let h = h\<lparr>hnode := None\<rparr> in
           case shutdown env n of
             (Ok _, n) \<Rightarrow> tearDownWallet drain rmErr (h\<lparr>leftNodes := leftNodes h @ [n]\<rparr>)
           | (q, n) \<Rightarrow> (q, h\<lparr>leftNodes := leftNodes h @ [n]\<rparr>)))"

text \<open>
  \<open>failed\<close> is \<open>t.Failed()\<close> before the call; the result says whether \<open>t.Fatal\<close> ends the test.
\<close>

definition TearDownInTest :: "node_env \<Rightarrow> ('k mem_wallet \<Rightarrow> 'k mem_wallet) \<Rightarrow> goerr option \<Rightarrow> bool \<Rightarrow> 'k harness \<Rightarrow> bool res \<times> 'k harness" where
  "TearDownInTest env drain rmErr failed h =
     (let h = (if failed then SetKeepNodeDir True h else h) in
      case TearDown env drain rmErr h of
        (Ok _, h) \<Rightarrow> (Ok False, h)
      | (Err err, h) \<Rightarrow> (Ok (\<not> failed), h)
      | (Panic p, h) \<Rightarrow> (Panic p, h)
      | (Blocked, h) \<Rightarrow> (Blocked, h))"

section \<open>SetUp\<close>

text \<open>
  The calls of the client change a world \<open>'s\<close>. \<open>rpcNew conf handlers i\<close> is attempt \<open>i\<close> of
  \<open>rpcclient.New\<close>, with the pause after it if it fails; \<open>syncerTick\<close> is what the chain syncer does
  to the wallet between two looks, \<open>syncerDrain\<close> what it does when the wallet is stopped.
\<close>

record ('k, 's) setup_env =
  nodeEnv :: node_env
  rmErr :: "goerr option"
  rpcNew :: "connConfig \<Rightarrow> nat \<Rightarrow> nat \<Rightarrow> 's \<Rightarrow> nat ext \<times> 's"
  loadTxFilter :: "address \<Rightarrow> 's \<Rightarrow> goerr option \<times> 's"
  notifyBlocks :: "'s \<Rightarrow> goerr option \<times> 's"
  generate :: "u32 \<Rightarrow> 's \<Rightarrow> goerr option \<times> 's"
  bestBlock :: "'s \<Rightarrow> int ext \<times> 's"
  syncerTick :: "'k mem_wallet \<Rightarrow> 'k mem_wallet"
  syncerDrain :: "'k mem_wallet \<Rightarrow> 'k mem_wallet"

fun connectLoop :: "(nat \<Rightarrow> 's \<Rightarrow> nat ext \<times> 's) \<Rightarrow> nat \<Rightarrow> nat \<Rightarrow> 's \<Rightarrow> nat option \<times> 's" where
  "connectLoop dial 0 i s = (None, s)"
| "connectLoop dial (Suc n) i s =
     (case dial i s of
        (Inl err, s) \<Rightarrow> connectLoop dial n (Suc i) s
      | (Inr c, s) \<Rightarrow> (Some c, s))"

definition connectRPCClient :: "(connConfig \<Rightarrow> nat \<Rightarrow> nat \<Rightarrow> 's \<Rightarrow> nat ext \<times> 's) \<Rightarrow> 's \<Rightarrow> 'k harness \<Rightarrow>
    unit res \<times> 's \<times> 'k harness" where
  "connectRPCClient dial s h =
     (case hnode h of
        None \<Rightarrow> (Panic NilDeref, s, h)
      | Some n \<Rightarrow>
          (case connectLoop (dial (rpcConnConfig n) (hhandlers h)) (maxConnRetries h) 0 s of
             (None, s) \<Rightarrow> (Err (Msg ''connection timeout''), s, h)
           | (Some c, s) \<Rightarrow>
               (case wallet h of
                  None \<Rightarrow> (Panic NilDeref, s, h\<lparr>client := Some c\<rparr>)
                | Some m \<Rightarrow> (Ok (), s, h\<lparr>client := Some c, wallet := Some (SetRPCClient (Some c) m)\<rparr>))))"

definition syncRound :: "('k mem_wallet \<Rightarrow> 'k mem_wallet) \<Rightarrow> int \<Rightarrow> 'k mem_wallet \<Rightarrow>
    unit option \<times> 'k mem_wallet" where
  "syncRound tick height m =
     (let m = tick m in (if SyncedHeight m = height then Some () else None, m))"

definition numToGenerate :: "net_params \<Rightarrow> u32 \<Rightarrow> u32" where
  "numToGenerate params numMatureOutputs = (ucast (CoinbaseMaturity params) + numMatureOutputs) + 1"

text \<open>The part of \<open>SetUp\<close> after the client is connected; \<open>m\<close> is the wallet.\<close>

definition setUpWallet :: "('k, 's) setup_env \<Rightarrow> bool \<Rightarrow> u32 \<Rightarrow> 'k mem_wallet \<Rightarrow> 's \<Rightarrow> 'k harness \<Rightarrow>
    unit res \<times> 'k harness" where
  "setUpWallet env createTestChain numMatureOutputs m s h =
     (let m = Start m; h = h\<lparr>wallet := Some m\<rparr> in
      case coinbaseAddr m of
        None \<Rightarrow> (Err (Msg ''memWallet coinbase addr is nil''), h)
      | Some a \<Rightarrow>
     (case loadTxFilter env a s of
        (Some err, s) \<Rightarrow> (Err err, h)
      | (None, s) \<Rightarrow>
     (case notifyBlocks env s of
        (Some err, s) \<Rightarrow> (Err err, h)
      | (None, s) \<Rightarrow>
     (case (if createTestChain \<and> numMatureOutputs \<noteq> 0
            then generate env (numToGenerate (ActiveNet h) numMatureOutputs) s else (None, s)) of
        (Some err, s) \<Rightarrow> (Err err, h)
      | (None, s) \<Rightarrow>
     (case bestBlock env s of
        (Inl err, s) \<Rightarrow> (Err err, h)
      | (Inr height, s) \<Rightarrow>
          (case poll (syncRound (syncerTick env) height) m of
             None \<Rightarrow> (Blocked, h)
           | Some (_, m) \<Rightarrow> (Ok (), h\<lparr>wallet := Some m\<rparr>)))))))"

definition setUpBody :: "('k, 's) setup_env \<Rightarrow> bool \<Rightarrow> u32 \<Rightarrow> 's \<Rightarrow> 'k harness \<Rightarrow> unit res \<times> 'k harness" where
  "setUpBody env createTestChain numMatureOutputs s h =
     (case hnode h of
        None \<Rightarrow> (Panic NilDeref, h)
      | Some n \<Rightarrow>
     (case start (nodeEnv env) n of
        (Ok _, n) \<Rightarrow>
          (case connectRPCClient (rpcNew env) s (h\<lparr>hnode := Some n\<rparr>) of
             (Ok _, s, h) \<Rightarrow>
               (case wallet h of
                  None \<Rightarrow> (Panic NilDeref, h)
                | Some m \<Rightarrow> setUpWallet env createTestChain numMatureOutputs m s h)
           | (q, s, h) \<Rightarrow> (q, h))
      | (q, n) \<Rightarrow> (q, h\<lparr>hnode := Some n\<rparr>)))"

text \<open>The deferred function tears the harness down after an error; the error itself is kept.\<close>

definition SetUp :: "('k, 's) setup_env \<Rightarrow> bool \<Rightarrow> u32 \<Rightarrow> 's \<Rightarrow> 'k harness \<Rightarrow> unit res \<times> 'k harness" where
  "SetUp env createTestChain numMatureOutputs s h =
     (case setUpBody env createTestChain numMatureOutputs s h of
        (Err err, h) \<Rightarrow>
          (case TearDown (nodeEnv env) (syncerDrain env) (rmErr env) h of
             (Panic p, h) \<Rightarrow> (Panic p, h)
           | (Blocked, h) \<Rightarrow> (Blocked, h)
           | (_, h) \<Rightarrow> (Err err, h))
      | (q, h) \<Rightarrow> (q, h))"

section \<open>Access to the wallet and the node\<close>

text \<open>A method of the wallet that the harness delegates to; the wallet is nil after \<open>TearDown\<close>.\<close>

definition onWallet :: "('k mem_wallet \<Rightarrow> 'a res \<times> 'k mem_wallet) \<Rightarrow> 'k harness \<Rightarrow> 'a res \<times> 'k harness" where
  "onWallet f h =
     (case wallet h of
        None \<Rightarrow> (Panic NilDeref, h)
      | Some m \<Rightarrow> (case f m of (q, m) \<Rightarrow> (q, h\<lparr>wallet := Some m\<rparr>)))"

definition NewAddressH :: "'k key_api \<Rightarrow> (address \<Rightarrow> goerr option) \<Rightarrow> 'k harness \<Rightarrow> address res \<times> 'k harness" where
  "NewAddressH K lf = onWallet (NewAddress K lf)"

definition ConfirmedBalanceH :: "outpoint list \<Rightarrow> 'k harness \<Rightarrow> int res \<times> 'k harness" where
  "ConfirmedBalanceH ks = onWallet (\<lambda>m. (Ok (ConfirmedBalance ks m), m))"

definition SendOutputsH :: "wire_api \<Rightarrow> 'k key_api \<Rightarrow> (address \<Rightarrow> goerr option) \<Rightarrow> (msgtx \<Rightarrow> bytes ext) \<Rightarrow>
    outpoint list \<Rightarrow> txout list \<Rightarrow> int \<Rightarrow> 'k harness \<Rightarrow> bytes res \<times> 'k harness" where
  "SendOutputsH w K lf sendRaw ks outputs rate = onWallet (SendOutputs w K lf sendRaw ks outputs rate)"

definition CreateTransactionH :: "wire_api \<Rightarrow> 'k key_api \<Rightarrow> (address \<Rightarrow> goerr option) \<Rightarrow> outpoint list \<Rightarrow>
    txout list \<Rightarrow> int \<Rightarrow> 'k harness \<Rightarrow> msgtx res \<times> 'k harness" where
  "CreateTransactionH w K lf ks outputs rate = onWallet (CreateTransaction w K lf ks outputs rate)"

definition UnlockOutputsH :: "txin list \<Rightarrow> 'k harness \<Rightarrow> unit res \<times> 'k harness" where
  "UnlockOutputsH inputs = onWallet (\<lambda>m. (Ok (), UnlockOutputs inputs m))"

definition RPCConfig :: "'k harness \<Rightarrow> connConfig res" where
  "RPCConfig h = (case hnode h of None \<Rightarrow> Panic NilDeref | Some n \<Rightarrow> Ok (rpcConnConfig n))"

definition P2PAddressH :: "'k harness \<Rightarrow> bytes res" where
  "P2PAddressH h = (case hnode h of None \<Rightarrow> Panic NilDeref | Some n \<Rightarrow> Ok (p2pAddr n))"

section \<open>What the operations do\<close>

text \<open>An attempt of \<open>connectRPCClient\<close>, in the form of the retry contract.\<close>

definition dialOnce :: "(nat \<Rightarrow> 's \<Rightarrow> nat ext \<times> 's) \<Rightarrow> nat \<Rightarrow> 's \<Rightarrow> nat option \<times> 's" where
  "dialOnce dial i s = (case dial i s of (Inl err, s) \<Rightarrow> (None, s) | (Inr c, s) \<Rightarrow> (Some c, s))"

interpretation connect: retry "connectLoop dial" "dialOnce dial"
  by unfold_locales (auto simp: dialOnce_def split: prod.splits sum.splits)

subsection \<open>Tearing down\<close>

lemma removeDir_simps [simp]:
  "wallet (removeDir rm h) = wallet h" "client (removeDir rm h) = client h"
  "hnode (removeDir rm h) = hnode h" "keepNodeDir (removeDir rm h) = keepNodeDir h"
  "shutClients (removeDir rm h) = shutClients h" "leftNodes (removeDir rm h) = leftNodes h"
  "stoppedWallets (removeDir rm h) = stoppedWallets h"
  "dirPresent (removeDir rm h) \<longleftrightarrow> dirPresent h \<and> (keepNodeDir h \<or> rm \<noteq> None)"
  by (auto simp: removeDir_def)

lemma shutdownClient_simps [simp]:
  "wallet (shutdownClient h) = wallet h" "client (shutdownClient h) = None"
  "hnode (shutdownClient h) = hnode h" "keepNodeDir (shutdownClient h) = keepNodeDir h"
  "dirPresent (shutdownClient h) = dirPresent h" "leftNodes (shutdownClient h) = leftNodes h"
  "stoppedWallets (shutdownClient h) = stoppedWallets h"
  "shutClients (shutdownClient h) = shutClients h @ (case client h of None \<Rightarrow> [] | Some c \<Rightarrow> [c])"
  by (simp_all add: shutdownClient_def split: option.split)

lemma stopWallet_Ok:
  "stopWallet drain m = (Ok (), m') \<longleftrightarrow>
   \<not> quitClosed m \<and> m' = (drain (m\<lparr>quitClosed := True\<rparr>))\<lparr>quitClosed := True\<rparr> \<and>
   wg (drain (m\<lparr>quitClosed := True\<rparr>)) = 0"
  by (auto simp: stopWallet_def closeQuit_def Let_def)

lemma tearDownWallet_no_err: "fst (tearDownWallet drain rm h) \<noteq> Err e"
  by (auto simp: tearDownWallet_def stopWallet_def closeQuit_def Let_def split: option.split)

lemma tearDownWallet_Ok:
  "tearDownWallet drain rm h = (Ok (), h') \<longleftrightarrow>
   (case wallet h of
      None \<Rightarrow> h' = removeDir rm h
    | Some m \<Rightarrow> \<exists>m'. stopWallet drain m = (Ok (), m') \<and>
        h' = removeDir rm (h\<lparr>wallet := None, stoppedWallets := stoppedWallets h @ [m']\<rparr>))"
  by (auto simp: tearDownWallet_def split: option.splits prod.splits res.splits)

lemma TearDown_Err:
  assumes "TearDown env drain rm h = (Err e, h')"
  shows "\<exists>n n'. hnode h = Some n \<and> shutdown env n = (Err e, n') \<and>
    h' = (shutdownClient h)\<lparr>hnode := None, leftNodes := leftNodes h @ [n']\<rparr>"
  using assms tearDownWallet_no_err [of drain rm _ e]
  by (auto simp: TearDown_def Let_def split: option.split_asm res.split_asm prod.split_asm)
    (metis fst_conv)+

lemma TearDown_node:
  assumes "hnode h = Some n" "shutdown env n = (q, n')"
  shows "TearDown env drain rm h =
    (if q = Ok ()
     then tearDownWallet drain rm ((shutdownClient h)\<lparr>hnode := None, leftNodes := leftNodes h @ [n']\<rparr>)
     else (q, (shutdownClient h)\<lparr>hnode := None, leftNodes := leftNodes h @ [n']\<rparr>))"
  using assms by (auto simp: TearDown_def Let_def split: res.split)

lemma TearDown_no_node:
  assumes "hnode h = None"
  shows "TearDown env drain rm h = tearDownWallet drain rm (shutdownClient h)"
  using assms by (simp add: TearDown_def)

subsection \<open>Setting up\<close>

lemma syncRound_snd: "snd (syncRound tick height m) = tick m"
  by (simp add: syncRound_def Let_def)

lemma syncRound_iff: "syncRound tick height m = (Some u, m') \<longleftrightarrow> m' = tick m \<and> SyncedHeight m' = height"
  by (auto simp: syncRound_def Let_def)

lemma syncRound_polled: "polled (syncRound tick height) k m = (tick ^^ k) m"
  by (simp add: polled_def syncRound_snd)

lemma setUpWallet_Ok:
  assumes "setUpWallet env create num m s h = (Ok (), h')"
  shows "\<exists>a s2 s3 s4 height s5 k. coinbaseAddr m = Some a \<and> loadTxFilter env a s = (None, s2) \<and>
    notifyBlocks env s2 = (None, s3) \<and>
    (if create \<and> num \<noteq> 0 then generate env (numToGenerate (ActiveNet h) num) s3 = (None, s4) else s4 = s3) \<and>
    bestBlock env s4 = (Inr height, s5) \<and>
    SyncedHeight ((syncerTick env ^^ Suc k) (Start m)) = height \<and>
    h' = h\<lparr>wallet := Some ((syncerTick env ^^ Suc k) (Start m))\<rparr>"
proof -
  from assms obtain a s2 s3 s4 height s5 u m' where
    calls: "coinbaseAddr m = Some a" "loadTxFilter env a s = (None, s2)" "notifyBlocks env s2 = (None, s3)"
      "if create \<and> num \<noteq> 0 then generate env (numToGenerate (ActiveNet h) num) s3 = (None, s4) else s4 = s3"
      "bestBlock env s4 = (Inr height, s5)"
    and p: "poll (syncRound (syncerTick env) height) (Start m) = Some (u, m')" "h' = h\<lparr>wallet := Some m'\<rparr>"
    by (auto simp: setUpWallet_def Let_def Start_def
        split: if_splits option.split_asm sum.split_asm prod.split_asm)
  from p(1) obtain k where "m' = (syncerTick env ^^ Suc k) (Start m)" "SyncedHeight m' = height"
    by (auto simp: poll_iff syncRound_polled syncRound_iff)
  with calls p(2) show ?thesis by blast
qed

lemma connectRPCClient_Ok:
  "connectRPCClient dial s h = (Ok (), s', h') \<longleftrightarrow>
   (\<exists>n c m. hnode h = Some n \<and> wallet h = Some m \<and>
      connectLoop (dial (rpcConnConfig n) (hhandlers h)) (maxConnRetries h) 0 s = (Some c, s') \<and>
      h' = h\<lparr>client := Some c, wallet := Some (SetRPCClient (Some c) m)\<rparr>)"
  by (auto simp: connectRPCClient_def split: option.split prod.split)

lemma setUpBody_Ok:
  assumes "setUpBody env create num s h = (Ok (), h')"
  shows "\<exists>n0 n m0 c s1. hnode h = Some n0 \<and> start (nodeEnv env) n0 = (Ok (), n) \<and> wallet h = Some m0 \<and>
    connectLoop (rpcNew env (rpcConnConfig n) (hhandlers h)) (maxConnRetries h) 0 s = (Some c, s1) \<and>
    setUpWallet env create num (SetRPCClient (Some c) m0) s1
      (h\<lparr>hnode := Some n, client := Some c, wallet := Some (SetRPCClient (Some c) m0)\<rparr>) = (Ok (), h')"
proof -
  from assms obtain n0 n s1 h1 m1 where n: "hnode h = Some n0" "start (nodeEnv env) n0 = (Ok (), n)"
    and c: "connectRPCClient (rpcNew env) s (h\<lparr>hnode := Some n\<rparr>) = (Ok (), s1, h1)"
    and m: "wallet h1 = Some m1" "setUpWallet env create num m1 s1 h1 = (Ok (), h')"
    by (auto simp: setUpBody_def split: option.split_asm prod.split_asm res.split_asm)
  from c obtain c m0 where "wallet h = Some m0"
    "connectLoop (rpcNew env (rpcConnConfig n) (hhandlers h)) (maxConnRetries h) 0 s = (Some c, s1)"
    "h1 = h\<lparr>hnode := Some n, client := Some c, wallet := Some (SetRPCClient (Some c) m0)\<rparr>"
    by (auto simp: connectRPCClient_Ok)
  with n m show ?thesis by auto
qed

lemma setUpWallet_frame:
  assumes "setUpWallet env create num m s h = (q, h')"
  shows "hnode h' = hnode h \<and> leftNodes h' = leftNodes h \<and> shutClients h' = shutClients h \<and>
    stoppedWallets h' = stoppedWallets h \<and> wallet h' \<noteq> None"
  using assms
  by (auto simp: setUpWallet_def Let_def split: if_splits option.split_asm sum.split_asm prod.split_asm)

lemma setUpBody_Err:
  assumes "setUpBody env create num s h = (Err e, h1)"
  shows "\<exists>n0. hnode h = Some n0 \<and> hnode h1 = Some (snd (start (nodeEnv env) n0)) \<and>
    leftNodes h1 = leftNodes h \<and> shutClients h1 = shutClients h \<and> stoppedWallets h1 = stoppedWallets h \<and>
    (wallet h1 = None \<longleftrightarrow> wallet h = None)"
proof -
  from assms obtain n0 where n0: "hnode h = Some n0" by (cases "hnode h") (simp_all add: setUpBody_def)
  obtain q n where st: "start (nodeEnv env) n0 = (q, n)" by force
  show ?thesis
  proof (cases "q = Ok ()")
    case False
    with assms n0 st have "h1 = h\<lparr>hnode := Some n\<rparr>"
      by (cases q) (auto simp: setUpBody_def)
    with n0 st show ?thesis by simp
  next
    case True
    obtain q2 s1 h2 where c: "connectRPCClient (rpcNew env) s (h\<lparr>hnode := Some n\<rparr>) = (q2, s1, h2)"
      by (metis prod_cases3)
    show ?thesis
    proof (cases "q2 = Ok ()")
      case True
      with c obtain c m0 where h2: "wallet h = Some m0"
        "h2 = h\<lparr>hnode := Some n, client := Some c, wallet := Some (SetRPCClient (Some c) m0)\<rparr>"
        by (auto simp: connectRPCClient_Ok)
      with assms n0 st \<open>q = Ok ()\<close> c True
      have "setUpWallet env create num (SetRPCClient (Some c) m0) s1 h2 = (Err e, h1)"
        by (simp add: setUpBody_def)
      from setUpWallet_frame [OF this] h2 n0 st show ?thesis by simp
    next
      case False
      with assms n0 st \<open>q = Ok ()\<close> c have "q2 = Err e" "h1 = h2"
        by (cases q2; simp add: setUpBody_def)+
      with c have "h1 = h\<lparr>hnode := Some n\<rparr>"
        by (auto simp: connectRPCClient_def split: option.split_asm prod.split_asm)
      with n0 st show ?thesis by simp
    qed
  qed
qed

subsection \<open>Making a harness\<close>

lemma wrapHandlers_result:
  assumes "wrapHandlers nodeNum hs g = (p, g')"
  shows "(case hs of None \<Rightarrow> p = nextStruct g | Some q \<Rightarrow> p = q)"
    "OnBlockConnected (structs g' p) = Some (WalletIngest nodeNum #
      (case hs of None \<Rightarrow> [] | Some q \<Rightarrow> (case OnBlockConnected (structs g q) of None \<Rightarrow> [] | Some obc \<Rightarrow> obc)))"
    "OnBlockDisconnected (structs g' p) = Some (WalletUnwind nodeNum #
      (case hs of None \<Rightarrow> [] | Some q \<Rightarrow> (case OnBlockDisconnected (structs g q) of None \<Rightarrow> [] | Some obd \<Rightarrow> obd)))"
    "argStore g' = argStore g" "numTestInstances g' = numTestInstances g" "pathToDCRD g' = pathToDCRD g"
  using assms
  by (auto simp: wrapHandlers_def wrapConnected_def wrapDisconnected_def newHandlers_def Let_def
      split: option.splits)

lemma appendFlags_result:
  assumes "appendFlags env s flags g = (s', g')"
  shows "g' = g\<lparr>argStore := argStore g'\<rparr>"
    "sliceContents (argStore g') s' = sliceContents (argStore g) s @ flags"
    "sliceLen s + length flags \<le> length (arrayAt (argStore g) (sliceArr s)) \<Longrightarrow>
      s' = s\<lparr>sliceLen := sliceLen s + length flags\<rparr> \<and>
      arrayAt (argStore g') (sliceArr s) = take (sliceLen s) (arrayAt (argStore g) (sliceArr s)) @ flags
        @ drop (sliceLen s + length flags) (arrayAt (argStore g) (sliceArr s))"
proof -
  have "g' = g\<lparr>argStore := argStore g'\<rparr> \<and> sliceContents (argStore g') s' = sliceContents (argStore g) s @ flags \<and>
    (sliceLen s + length flags \<le> length (arrayAt (argStore g) (sliceArr s)) \<longrightarrow>
      s' = s\<lparr>sliceLen := sliceLen s + length flags\<rparr> \<and>
      arrayAt (argStore g') (sliceArr s) = take (sliceLen s) (arrayAt (argStore g) (sliceArr s)) @ flags
        @ drop (sliceLen s + length flags) (arrayAt (argStore g) (sliceArr s)))"
  proof (cases "flags = []")
    case True
    with assms have "s' = s" "g' = g" by (simp_all add: appendFlags_def)
    with True show ?thesis by simp
  next
    case False
    obtain t st where t: "goAppend (spareCap env) s flags (argStore g) = (t, st)" by force
    with False assms have "s' = t" "g' = g\<lparr>argStore := st\<rparr>" by (simp_all add: appendFlags_def)
    with goAppend_contents [OF t] t show ?thesis
      by (auto simp: goAppend_def Let_def split: if_splits)
  qed
  then show "g' = g\<lparr>argStore := argStore g'\<rparr>"
    "sliceContents (argStore g') s' = sliceContents (argStore g) s @ flags"
    "sliceLen s + length flags \<le> length (arrayAt (argStore g) (sliceArr s)) \<Longrightarrow>
      s' = s\<lparr>sliceLen := sliceLen s + length flags\<rparr> \<and>
      arrayAt (argStore g') (sliceArr s) = take (sliceLen s) (arrayAt (argStore g) (sliceArr s)) @ flags
        @ drop (sliceLen s + length flags) (arrayAt (argStore g) (sliceArr s))"
    by blast+
qed

lemma newConfig_extra: "newConfig p1 p2 rf pre cert key ext fs = (Inr cfg, fs') \<Longrightarrow> extra cfg = ext"
  by (auto simp: newConfig_def setDefaults_def Let_def split: prod.split_asm sum.split_asm)

text \<open>The parts of a successful \<open>New\<close>.\<close>

lemma New_Ok:
  assumes "New ids K env params hs extraArgs g = (Ok h, g')"
  obtains m a flags n s1 st1 s2 st2 g2 where
    "netFlag ids (Net params) = Some flags" "wallet h = Some m" "coinbaseAddr m = Some a"
    "appendFlags env extraArgs flags g = (s1, g\<lparr>argStore := st1\<rparr>)"
    "goAppend (spareCap env) s1 [''--miningaddr='' @ addrString a] st1 = (s2, st2)"
    "hnode h = Some n" "extra (config n) = s2" "cfgPathToDCRD (config n) = pathToDCRD g'"
    "wrapHandlers (numTestInstances g + 1) hs g2 = (hhandlers h, g')"
    "structs g2 = structs g" "argStore g2 = st2" "numTestInstances g2 = numTestInstances g + 1"
    "pathToDCRD g \<noteq> [] \<longrightarrow> pathToDCRD g' = pathToDCRD g"
proof -
  let ?k = "numTestInstances g + 1"
  from assms obtain flags where f: "netFlag ids (Net params) = Some flags"
    by (auto simp: New_def split: option.split_asm)
  obtain s1 st1 where fl: "appendFlags env extraArgs flags g = (s1, g\<lparr>argStore := st1\<rparr>)"
    using appendFlags_result(1) [of env extraArgs flags g] by (metis surj_pair)
  from assms f fl obtain dir mw where mw: "newMemWallet K params ?k = Ok mw"
    and nw: "newWithWallet env params ?k dir hs s1 mw (g\<lparr>argStore := st1, numTestInstances := ?k\<rparr>) = (Ok h, g')"
    by (auto simp: New_def Let_def split: option.split_asm sum.split_asm res.split_asm)
  from nw obtain m where m: "mw = Some m" by (cases mw) (simp_all add: newWithWallet_def)
  from mw m obtain a where a: "coinbaseAddr m = Some a"
    by (auto simp: newMemWallet_def split: sum.split_asm)
  obtain s2 st2 where ap: "goAppend (spareCap env) s1 [''--miningaddr='' @ addrString a] st1 = (s2, st2)" by force
  from nw m a ap obtain cfg fs path where cfg: "newConfig (osPipe1 env) (osPipe2 env) (readFile env) dir
      (joinPath dir ''rpc.cert'') (joinPath dir ''rpc.key'') s2 (openFds g) = (Inr cfg, fs)"
    and path: "dcrdPath env (g\<lparr>numTestInstances := ?k, argStore := st2, openFds := fs\<rparr>) = Inr path"
    and w: "wrapHandlers ?k hs (g\<lparr>numTestInstances := ?k, argStore := st2, openFds := fs, pathToDCRD := path\<rparr>)
        = (hhandlers h, g')"
    and h: "hnode h = Some (newNode (cfg\<lparr>cfgPathToDCRD := path\<rparr>) fs)" "wallet h = Some m"
    by (auto simp: newWithWallet_def Let_def split: prod.split_asm sum.split_asm)
  have "pathToDCRD g' = path" using wrapHandlers_result(6) [OF w] by simp
  moreover have "pathToDCRD g \<noteq> [] \<Longrightarrow> path = pathToDCRD g" using path by (simp add: dcrdPath_def)
  ultimately show thesis
    by (intro that [OF f h(2) a fl ap h(1) _ _ w])
      (simp_all add: newNode_def newConfig_extra [OF cfg])
qed

section \<open>Properties\<close>

text \<open>
  C34: A new harness has the next instance number; its dcrd gets the caller's arguments, then the
  flag of the network, then the wallet's address for mining; it uses the dcrd binary that is set
  or was built, which later harnesses use too; it keeps the caller's struct of handlers, if there
  is one, and in it blocks reach the wallet before the caller's own handler.
\<close>

theorem new_harness_ready:
  assumes "New ids K env params hs extraArgs g = (Ok h, g')"
  shows "\<exists>m a flags n. wallet h = Some m \<and> coinbaseAddr m = Some a \<and> netFlag ids (Net params) = Some flags \<and>
    hnode h = Some n \<and>
    sliceContents (argStore g') (extra (config n)) =
      sliceContents (argStore g) extraArgs @ flags @ [''--miningaddr='' @ addrString a] \<and>
    numTestInstances g' = numTestInstances g + 1 \<and>
    cfgPathToDCRD (config n) = pathToDCRD g' \<and> (pathToDCRD g \<noteq> [] \<longrightarrow> pathToDCRD g' = pathToDCRD g) \<and>
    (\<forall>p. hs = Some p \<longrightarrow> hhandlers h = p) \<and>
    OnBlockConnected (structs g' (hhandlers h)) = Some (WalletIngest (numTestInstances g + 1) #
      (case hs of None \<Rightarrow> [] | Some p \<Rightarrow> (case OnBlockConnected (structs g p) of None \<Rightarrow> [] | Some obc \<Rightarrow> obc)))"
proof -
  from assms obtain m a flags n s1 st1 s2 st2 g2 where
    1: "netFlag ids (Net params) = Some flags" "wallet h = Some m" "coinbaseAddr m = Some a"
    and fl: "appendFlags env extraArgs flags g = (s1, g\<lparr>argStore := st1\<rparr>)"
    and ap: "goAppend (spareCap env) s1 [''--miningaddr='' @ addrString a] st1 = (s2, st2)"
    and n: "hnode h = Some n" "extra (config n) = s2" "cfgPathToDCRD (config n) = pathToDCRD g'"
    and w: "wrapHandlers (numTestInstances g + 1) hs g2 = (hhandlers h, g')"
    and g2: "structs g2 = structs g" "argStore g2 = st2" "numTestInstances g2 = numTestInstances g + 1"
      "pathToDCRD g \<noteq> [] \<longrightarrow> pathToDCRD g' = pathToDCRD g"
    by (rule New_Ok) (rule that)
  have "sliceContents st1 s1 = sliceContents (argStore g) extraArgs @ flags"
    using appendFlags_result(2) [OF fl] by simp
  with goAppend_contents [OF ap] have
    "sliceContents st2 s2 = sliceContents (argStore g) extraArgs @ flags @ [''--miningaddr='' @ addrString a]"
    by simp
  moreover have "argStore g' = st2" "numTestInstances g' = numTestInstances g + 1"
    using wrapHandlers_result(4,5) [OF w] g2 by simp_all
  ultimately show ?thesis
    using 1 n g2 wrapHandlers_result(1,2) [OF w] by (auto split: option.split)
qed

text \<open>
  C35: A struct of handlers that is passed to \<open>New\<close> twice runs both wallets, for both harnesses:
  \<open>New\<close> changes the struct the pointer leads to and keeps the pointer, so after the second call
  the first harness's handlers too run the second wallet's callbacks and then its own.
\<close>

theorem reused_handlers_reach_both_wallets:
  assumes "New ids K env params (Some p) extraArgs g = (Ok h1, g1)"
    and "New ids K env' params' (Some p) extraArgs' g1 = (Ok h2, g2)"
  shows "hhandlers h1 = p \<and> hhandlers h2 = p \<and>
    OnBlockConnected (structs g2 p) =
      Some (WalletIngest (numTestInstances g + 2) # WalletIngest (numTestInstances g + 1) #
        (case OnBlockConnected (structs g p) of None \<Rightarrow> [] | Some obc \<Rightarrow> obc)) \<and>
    OnBlockDisconnected (structs g2 p) =
      Some (WalletUnwind (numTestInstances g + 2) # WalletUnwind (numTestInstances g + 1) #
        (case OnBlockDisconnected (structs g p) of None \<Rightarrow> [] | Some obd \<Rightarrow> obd))"
proof -
  have one: "hhandlers h = p \<and> numTestInstances g' = numTestInstances g + 1 \<and>
      OnBlockConnected (structs g' p) = Some (WalletIngest (numTestInstances g + 1) #
        (case OnBlockConnected (structs g p) of None \<Rightarrow> [] | Some obc \<Rightarrow> obc)) \<and>
      OnBlockDisconnected (structs g' p) = Some (WalletUnwind (numTestInstances g + 1) #
        (case OnBlockDisconnected (structs g p) of None \<Rightarrow> [] | Some obd \<Rightarrow> obd))"
    if new: "New ids K env params (Some p) extraArgs g = (Ok h, g')" for env params extraArgs g h g'
  proof -
    from new obtain g2 where w: "wrapHandlers (numTestInstances g + 1) (Some p) g2 = (hhandlers h, g')"
      and g2: "structs g2 = structs g" "numTestInstances g2 = numTestInstances g + 1"
      by (rule New_Ok) (rule that)
    from wrapHandlers_result [OF w] g2 show ?thesis by simp
  qed
  have two: "numTestInstances g + 1 + 1 = numTestInstances g + 2" by simp
  from one [OF assms(1)] one [OF assms(2)] show ?thesis by (simp add: two)
qed

text \<open>
  A slice of arguments with spare capacity that is passed to \<open>New\<close> twice, for the same network, is
  overwritten: both nodes are configured with the same part of the array, and the address the
  first dcrd is told to mine to is that of the second wallet.
\<close>

lemma reused_arguments_overwritten:
  assumes "New ids K env params hs extraArgs g = (Ok h1, g1)" "hnode h1 = Some n1"
    and "New ids K env' params hs' extraArgs g1 = (Ok h2, g2)" "wallet h2 = Some m2" "coinbaseAddr m2 = Some a2"
    and "netFlag ids (Net params) = Some flags"
    and "sliceLen extraArgs + length flags < length (arrayAt (argStore g) (sliceArr extraArgs))"
  shows "sliceContents (argStore g2) (extra (config n1)) =
    sliceContents (argStore g) extraArgs @ flags @ [''--miningaddr='' @ addrString a2]"
proof -
  let ?i = "sliceArr extraArgs" and ?l = "sliceLen extraArgs"
  have one: "extra (config n) = \<lparr>sliceArr = ?i, sliceLen = ?l + length flags + 1\<rparr> \<and>
      arrayAt (argStore g') ?i = take ?l (arrayAt (argStore g) ?i) @ flags @ [''--miningaddr='' @ addrString a]
        @ drop (?l + length flags + 1) (arrayAt (argStore g) ?i)"
    if new: "New ids K env params hs extraArgs g = (Ok h, g')" and n: "hnode h = Some n"
      and m: "wallet h = Some m" "coinbaseAddr m = Some a"
      and room: "?l + length flags < length (arrayAt (argStore g) ?i)" for env hs g h g' n m a
  proof -
    from new obtain s1 st1 s2 st2 g2 where
      fl: "appendFlags env extraArgs flags g = (s1, g\<lparr>argStore := st1\<rparr>)"
      and ap: "goAppend (spareCap env) s1 [''--miningaddr='' @ addrString a] st1 = (s2, st2)"
      and s2: "extra (config n) = s2"
      and w: "wrapHandlers (numTestInstances g + 1) hs g2 = (hhandlers h, g')" "argStore g2 = st2"
      by (rule New_Ok) (use n m assms(6) that in auto)
    have s1: "s1 = extraArgs\<lparr>sliceLen := ?l + length flags\<rparr>"
      "arrayAt st1 ?i = take ?l (arrayAt (argStore g) ?i) @ flags @ drop (?l + length flags) (arrayAt (argStore g) ?i)"
      using appendFlags_result(3) [OF fl] room by simp_all
    have "s2 = extraArgs\<lparr>sliceLen := ?l + length flags + 1\<rparr>"
      "arrayAt st2 ?i = take ?l (arrayAt (argStore g) ?i) @ flags @ [''--miningaddr='' @ addrString a]
        @ drop (?l + length flags + 1) (arrayAt (argStore g) ?i)"
      using ap room by (auto simp: s1 goAppend_def Let_def split: if_splits)
    moreover have "argStore g' = st2" using wrapHandlers_result(4) [OF w(1)] w(2) by simp
    ultimately show ?thesis using s2 by (cases extraArgs) simp
  qed
  from assms(1) obtain m1 a1 where "wallet h1 = Some m1" "coinbaseAddr m1 = Some a1" by (rule New_Ok) (rule that)
  note first = one [OF assms(1,2) this assms(7)]
  from assms(3) obtain n2 where "hnode h2 = Some n2" by (rule New_Ok) (rule that)
  moreover have "?l + length flags < length (arrayAt (argStore g1) ?i)" using first assms(7) by simp
  ultimately have "arrayAt (argStore g2) ?i = take ?l (arrayAt (argStore g1) ?i) @ flags @
      [''--miningaddr='' @ addrString a2] @ drop (?l + length flags + 1) (arrayAt (argStore g1) ?i)"
    using one [OF assms(3) _ assms(4,5)] by blast
  with first assms(7) show ?thesis by (simp add: sliceContents_def)
qed

text \<open>
  If the master key of the wallet cannot be made, \<open>New\<close> panics: \<open>newMemWallet\<close> has returned a nil
  wallet without an error.
\<close>

lemma new_panics_without_master_key:
  assumes "NewMaster K (harnessHDSeed (numTestInstances g + 1)) = Inl err"
    and "netFlag ids (Net params) \<noteq> None" "mkdirTemp env (numTestInstances g + 1) = Inr dir"
    and "certPairErr env = None"
  shows "fst (New ids K env params hs extraArgs g) = Panic NilDeref"
proof -
  from assms(2) obtain flags where f: "netFlag ids (Net params) = Some flags" by blast
  obtain s1 st1 where "appendFlags env extraArgs flags g = (s1, g\<lparr>argStore := st1\<rparr>)"
    using appendFlags_result(1) [of env extraArgs flags g] by (metis surj_pair)
  with f assms show ?thesis by (simp add: New_def newWithWallet_def newMemWallet_def Let_def)
qed

text \<open>
  \<open>connectRPCClient\<close> connects with the first of \<open>maxConnRetries\<close> attempts that succeeds, with the
  configuration of the node and the handlers of the harness, and then hands the client to the
  wallet; it reports a timeout exactly if all of them fail.
\<close>

lemma connect_rpc_client_result:
  assumes "hnode h = Some n" "wallet h = Some m" "d = dial (rpcConnConfig n) (hhandlers h)"
  shows "case connectRPCClient dial s h of
      (Ok _, t, h') \<Rightarrow> \<exists>k < maxConnRetries h. \<exists>c.
        (\<forall>j < k. fst (dialOnce d j (afterTries (dialOnce d) 0 j s)) = None) \<and>
        d k (afterTries (dialOnce d) 0 k s) = (Inr c, t) \<and>
        h' = h\<lparr>client := Some c, wallet := Some (m\<lparr>rpc := Some c\<rparr>)\<rparr>
    | (Err e, t, h') \<Rightarrow> e = Msg ''connection timeout'' \<and> h' = h \<and>
        (\<forall>j < maxConnRetries h. fst (dialOnce d j (afterTries (dialOnce d) 0 j s)) = None)
    | _ \<Rightarrow> False"
proof -
  obtain q t where q: "connectLoop d (maxConnRetries h) 0 s = (q, t)" by force
  have d: "dialOnce d i u = (Some c, v) \<longleftrightarrow> d i u = (Inr c, v)" for i u c v
    by (auto simp: dialOnce_def split: prod.splits sum.splits)
  show ?thesis
  proof (cases q)
    case None
    with q have "connect.fails_before d 0 (maxConnRetries h) s" by (simp add: connect.loop_None)
    with None q assms show ?thesis
      by (auto simp: connectRPCClient_def connect.fails_before_def)
  next
    case (Some c)
    with q have "\<exists>k < maxConnRetries h. connect.fails_before d 0 k s \<and>
        d k (afterTries (dialOnce d) 0 k s) = (Inr c, t)"
      by (simp add: connect.loop_Some d)
    with q Some assms show ?thesis
      by (auto simp: connectRPCClient_def SetRPCClient_def connect.fails_before_def)
  qed
qed

text \<open>
  C16: A successful \<open>SetUp\<close> has started the node, has connected a client to it with the handlers of
  the harness and given it to the wallet, has loaded the filter for the coinbase address,
  subscribed to blocks and then asked for the blocks that mature the requested number of
  outputs, in this order, and returns only when the wallet is at the best height the node
  reported after all that. The chain syncer is taken to leave the wallet's client alone.
\<close>

theorem setup_success:
  assumes "SetUp env create num s h = (Ok (), h')" "\<And>m. rpc (syncerTick env m) = rpc m"
  shows "\<exists>n0 n m0 c a s1 s2 s3 s4 s5 m height k.
    hnode h = Some n0 \<and> start (nodeEnv env) n0 = (Ok (), n) \<and> hnode h' = Some n \<and>
    connectLoop (rpcNew env (rpcConnConfig n) (hhandlers h)) (maxConnRetries h) 0 s = (Some c, s1) \<and>
    client h' = Some c \<and> wallet h = Some m0 \<and> coinbaseAddr m0 = Some a \<and>
    loadTxFilter env a s1 = (None, s2) \<and> notifyBlocks env s2 = (None, s3) \<and>
    (if create \<and> num \<noteq> 0
     then generate env ((ucast (CoinbaseMaturity (ActiveNet h)) + num) + 1) s3 = (None, s4) else s4 = s3) \<and>
    bestBlock env s4 = (Inr height, s5) \<and>
    wallet h' = Some m \<and> rpc m = Some c \<and> SyncedHeight m = height \<and>
    m = (syncerTick env ^^ Suc k) (Start (SetRPCClient (Some c) m0))"
proof -
  have body: "setUpBody env create num s h = (Ok (), h')"
    using assms(1) by (auto simp: SetUp_def split: prod.split_asm res.split_asm)
  have keeps: "rpc ((syncerTick env ^^ k) m) = rpc m" for k m by (induction k) (simp_all add: assms(2))
  from setUpBody_Ok [OF body] obtain n0 n m0 c s1 where
    1: "hnode h = Some n0" "start (nodeEnv env) n0 = (Ok (), n)" "wallet h = Some m0"
      "connectLoop (rpcNew env (rpcConnConfig n) (hhandlers h)) (maxConnRetries h) 0 s = (Some c, s1)"
    and w: "setUpWallet env create num (SetRPCClient (Some c) m0) s1
      (h\<lparr>hnode := Some n, client := Some c, wallet := Some (SetRPCClient (Some c) m0)\<rparr>) = (Ok (), h')"
    by blast
  let ?m = "Start (SetRPCClient (Some c) m0)"
  let ?h = "h\<lparr>hnode := Some n, client := Some c, wallet := Some (SetRPCClient (Some c) m0)\<rparr>"
  from setUpWallet_Ok [OF w] obtain a s2 s3 s4 height s5 k where
    2: "coinbaseAddr (SetRPCClient (Some c) m0) = Some a" "loadTxFilter env a s1 = (None, s2)"
      "notifyBlocks env s2 = (None, s3)"
      "if create \<and> num \<noteq> 0 then generate env (numToGenerate (ActiveNet ?h) num) s3 = (None, s4) else s4 = s3"
      "bestBlock env s4 = (Inr height, s5)" "SyncedHeight ((syncerTick env ^^ Suc k) ?m) = height"
      "h' = ?h\<lparr>wallet := Some ((syncerTick env ^^ Suc k) ?m)\<rparr>"
    by (elim exE conjE) (rule that)
  have 3: "coinbaseAddr m0 = Some a" "hnode h' = Some n" "client h' = Some c"
      "wallet h' = Some ((syncerTick env ^^ Suc k) ?m)"
      "if create \<and> num \<noteq> 0 then generate env ((ucast (CoinbaseMaturity (ActiveNet h)) + num) + 1) s3 = (None, s4)
       else s4 = s3"
    using 2(1,4,7) by (simp_all add: numToGenerate_def SetRPCClient_def cong: if_cong)
  have "rpc ((syncerTick env ^^ Suc k) ?m) = Some c"
    by (simp only: keeps) (simp add: Start_def SetRPCClient_def)
  with 1 2(2,3,5,6) 3 show ?thesis by blast
qed

text \<open>
  C33: A \<open>SetUp\<close> that returns an error has torn the harness down. The client it may have had by then
  has been shut down and is gone; the node, in the state in which \<open>start\<close> left it, has been shut
  down and is gone; if that succeeded the wallet has been stopped, its goroutines have ended, and
  it is gone too, and otherwise the wallet is still there and has not been stopped.
\<close>

theorem setup_error_tears_down:
  assumes "SetUp env create num s h = (Err e, h')"
  shows "\<exists>h1 n0 q n. setUpBody env create num s h = (Err e, h1) \<and>
    client h' = None \<and> shutClients h' = shutClients h @ (case client h1 of None \<Rightarrow> [] | Some c \<Rightarrow> [c]) \<and>
    hnode h = Some n0 \<and> shutdown (nodeEnv env) (snd (start (nodeEnv env) n0)) = (q, n) \<and>
    hnode h' = None \<and> leftNodes h' = leftNodes h @ [n] \<and>
    (if q = Ok () then wallet h' = None \<and>
       (wallet h = None \<and> stoppedWallets h' = stoppedWallets h \<or>
        (\<exists>m m'. wallet h1 = Some m \<and> stopWallet (syncerDrain env) m = (Ok (), m') \<and>
           stoppedWallets h' = stoppedWallets h @ [m'] \<and> quitClosed m' \<and> wg m' = 0))
     else (\<exists>err. q = Err err) \<and> wallet h' = wallet h1 \<and> stoppedWallets h' = stoppedWallets h)"
proof -
  from assms obtain h1 t where body: "setUpBody env create num s h = (Err e, h1)"
    and t: "TearDown (nodeEnv env) (syncerDrain env) (rmErr env) h1 = (t, h')" "t = Ok () \<or> (\<exists>err. t = Err err)"
    by (auto simp: SetUp_def split: prod.split_asm res.split_asm)
  from setUpBody_Err [OF body] obtain n0 where n0: "hnode h = Some n0"
    "hnode h1 = Some (snd (start (nodeEnv env) n0))" and
    same: "leftNodes h1 = leftNodes h" "shutClients h1 = shutClients h" "stoppedWallets h1 = stoppedWallets h"
      "wallet h1 = None \<longleftrightarrow> wallet h = None" by (elim exE conjE) (rule that)
  obtain q n where q: "shutdown (nodeEnv env) (snd (start (nodeEnv env) n0)) = (q, n)" by force
  let ?h = "(shutdownClient h1)\<lparr>hnode := None, leftNodes := leftNodes h1 @ [n]\<rparr>"
  have td: "(t, h') = (if q = Ok () then tearDownWallet (syncerDrain env) (rmErr env) ?h else (q, ?h))"
    using t(1) TearDown_node [OF n0(2) q] by (rule trans [OF sym])
  show ?thesis
  proof (cases "q = Ok ()")
    case True
    with td t(2) tearDownWallet_no_err [of "syncerDrain env" "rmErr env" ?h]
    have ok: "tearDownWallet (syncerDrain env) (rmErr env) ?h = (Ok (), h')" by (metis fst_conv)
    show ?thesis
    proof (cases "wallet h1")
      case None
      with ok have "h' = removeDir (rmErr env) ?h" by (simp add: tearDownWallet_Ok)
      with None True body n0 q same show ?thesis by simp
    next
      case (Some m)
      with ok obtain m' where m': "stopWallet (syncerDrain env) m = (Ok (), m')"
        "h' = removeDir (rmErr env) (?h\<lparr>wallet := None, stoppedWallets := stoppedWallets ?h @ [m']\<rparr>)"
        by (auto simp: tearDownWallet_Ok)
      moreover have "quitClosed m' \<and> wg m' = 0" using m'(1) by (auto simp: stopWallet_Ok)
      ultimately show ?thesis using Some True body n0 q same by simp
    qed
  next
    case False
    with td t(2) have "h' = ?h" "\<exists>err. q = Err err" by auto
    with False body n0 q same show ?thesis by simp
  qed
qed

text \<open>
  C17: When the node cannot be shut down, \<open>TearDown\<close> returns its error at once and leaves the wallet
  running and the directory in place; a second \<open>TearDown\<close> then stops the wallet, its goroutines
  having ended when it returns, and removes the directory, and after that a third one has nothing
  left to do. The hypothesis on \<open>drain\<close> is that the wallet's goroutines bring the wait group to zero
  once \<open>quit\<close> is closed, which \<open>HarnessSync.stop_wallet_completes\<close> shows of the chain syncer.
\<close>

theorem teardown_completes_on_retry:
  assumes "TearDown env drain rm h = (Err e, h1)" "wallet h = Some m" "\<not> quitClosed m"
    and "wg (drain (m\<lparr>quitClosed := True\<rparr>)) = 0"
  shows "(\<exists>n n'. hnode h = Some n \<and> shutdown env n = (Err e, n') \<and> leftNodes h1 = leftNodes h @ [n']) \<and>
    hnode h1 = None \<and> wallet h1 = Some m \<and> stoppedWallets h1 = stoppedWallets h \<and> dirPresent h1 = dirPresent h \<and>
    (\<exists>h2 m'. TearDown env' drain None h1 = (Ok (), h2) \<and> wallet h2 = None \<and>
       stoppedWallets h2 = stoppedWallets h @ [m'] \<and> quitClosed m' \<and> wg m' = 0 \<and>
       (dirPresent h2 \<longleftrightarrow> dirPresent h \<and> keepNodeDir h) \<and>
       TearDown env'' drain'' None h2 = (Ok (), h2))"
proof -
  from TearDown_Err [OF assms(1)] obtain n n' where n: "hnode h = Some n" "shutdown env n = (Err e, n')"
    and h1: "h1 = (shutdownClient h)\<lparr>hnode := None, leftNodes := leftNodes h @ [n']\<rparr>" by blast
  let ?m = "(drain (m\<lparr>quitClosed := True\<rparr>))\<lparr>quitClosed := True\<rparr>"
  let ?h2 = "removeDir None (h1\<lparr>wallet := None, stoppedWallets := stoppedWallets h @ [?m]\<rparr>)"
  have idle: "shutdownClient g = g" if "client g = None" for g :: "'a harness"
    using that by (simp add: shutdownClient_def)
  have "client h1 = None" "hnode h1 = None" "wallet h1 = Some m" "stoppedWallets h1 = stoppedWallets h"
    using assms(2) by (simp_all add: h1)
  moreover have "stopWallet drain m = (Ok (), ?m)" using assms(3,4) by (simp add: stopWallet_Ok)
  ultimately have 2: "TearDown env' drain None h1 = (Ok (), ?h2)"
    by (simp add: TearDown_no_node idle tearDownWallet_def)
  have "TearDown env'' drain'' None ?h2 = (Ok (), removeDir None ?h2)"
    using h1 by (simp add: TearDown_no_node idle tearDownWallet_def)
  moreover have "removeDir None ?h2 = ?h2" by (simp add: removeDir_def)
  ultimately have 3: "TearDown env'' drain'' None ?h2 = (Ok (), ?h2)" by simp
  show ?thesis
    using n h1 2 3 assms(2,4) by (intro conjI exI [of _ ?h2] exI [of _ ?m]) auto
qed

section \<open>A concrete harness\<close>

definition demo_ids :: net_ids where
  "demo_ids = \<lparr>MainNet = 1, TestNet3 = 2, SimNet = 0x12141c16, RegNet = 3\<rparr>"

definition demo_new_env :: new_env where
  "demo_new_env =
     \<lparr>newOs = Unix, mkdirTemp = (\<lambda>n. Inr ''/tmp/d''), certPairErr = None, osPipe1 = Inr (3, 4),
      osPipe2 = Inr (5, 6), readFile = (\<lambda>f. Inr [1]), buildDir = Inr ''/tmp/b'', goBuild = (\<lambda>p. None),
      spareCap = (\<lambda>n. 1)\<rparr>"

text \<open>The store holds one array of arguments, and at address zero one struct with a user's handler.\<close>

definition demo_globals :: globals where
  "demo_globals =
     \<lparr>numTestInstances = 0, pathToDCRD = [], openFds = {},
      argStore = \<lparr>arrayAt = (\<lambda>_. [''--x'']), nextArray = 1\<rparr>,
      structs = (\<lambda>_. \<lparr>OnBlockConnected = Some [UserCallback 7], OnBlockDisconnected = None\<rparr>),
      nextStruct = 1\<rparr>"

definition demo_args :: slice where
  "demo_args = \<lparr>sliceArr = 0, sliceLen = 1\<rparr>"

lemmas new_defs = New_def newWithWallet_def newMemWallet_def demo_keys_def keyToAddr_def demo_address_def
  demo_ids_def demo_new_env_def demo_globals_def demo_net_def netFlag_def newConfig_def appendFlags_def
  newIPCPipePair_def setDefaults_def dcrdPath_def buildDcrd_def joinPath_def Let_def

lemma demo_new:
  assumes "newOs env = Unix" "pathToDCRD g \<noteq> [] \<or> g = demo_globals"
  shows "\<exists>h g'. New demo_ids demo_keys demo_new_env demo_net (Some 0) demo_args g = (Ok h, g') \<and> pathToDCRD g' \<noteq> []"
  using assms by (auto simp: new_defs wrapHandlers_def wrapConnected_def wrapDisconnected_def split: prod.split)

theorem new_harness_ready_witness:
  "\<exists>h g n. New demo_ids demo_keys demo_new_env demo_net (Some 0) demo_args demo_globals = (Ok h, g)
     \<and> hnode h = Some n \<and> sliceContents (argStore g) (extra (config n)) = [''--x'', ''--simnet'', ''--miningaddr=addr'']
     \<and> hhandlers h = 0 \<and> OnBlockConnected (structs g 0) = Some [WalletIngest 1, UserCallback 7]"
proof -
  obtain h g where h: "New demo_ids demo_keys demo_new_env demo_net (Some 0) demo_args demo_globals = (Ok h, g)"
    using demo_new [of demo_new_env demo_globals] by (auto simp: demo_new_env_def)
  moreover have "addrString a = ''addr''" if "wallet h = Some m" "coinbaseAddr m = Some a" for m a
    using h that by (auto simp: new_defs split: prod.split_asm)
  ultimately show ?thesis
    using new_harness_ready [OF h]
    by (auto simp: demo_ids_def demo_net_def netFlag_def demo_globals_def demo_args_def sliceContents_def)
qed

theorem reused_handlers_reach_both_wallets_witness:
  "\<exists>h1 g1 h2 g2.
     New demo_ids demo_keys demo_new_env demo_net (Some 0) demo_args demo_globals = (Ok h1, g1) \<and>
     New demo_ids demo_keys demo_new_env demo_net (Some 0) demo_args g1 = (Ok h2, g2) \<and>
     OnBlockConnected (structs g2 (hhandlers h1)) = Some [WalletIngest 2, WalletIngest 1, UserCallback 7]"
proof -
  have env: "newOs demo_new_env = Unix" by (simp add: demo_new_env_def)
  obtain h1 g1 where 1: "New demo_ids demo_keys demo_new_env demo_net (Some 0) demo_args demo_globals = (Ok h1, g1)"
    and path: "pathToDCRD g1 \<noteq> []"
    using demo_new [OF env] by blast
  obtain h2 g2 where 2: "New demo_ids demo_keys demo_new_env demo_net (Some 0) demo_args g1 = (Ok h2, g2)"
    using demo_new [OF env] path by blast
  from reused_handlers_reach_both_wallets [OF 1 2] 1 2 show ?thesis by (auto simp: demo_globals_def)
qed

text \<open>A harness whose node reports both addresses, and a world in which the second dial succeeds.\<close>

definition demo_harness :: "u32 harness" where
  "demo_harness =
     \<lparr>ActiveNet = demo_net, client = None, hnode = Some demo_node, hhandlers = 0,
      wallet = Some demo_wallet, testNodeDir = ''/tmp/d'', maxConnRetries = 20, keepNodeDir = False,
      dirPresent = True, shutClients = [], leftNodes = [], stoppedWallets = []\<rparr>"

definition demo_dial :: "connConfig \<Rightarrow> nat \<Rightarrow> nat \<Rightarrow> nat \<Rightarrow> nat ext \<times> nat" where
  "demo_dial conf p i s = (if i = 0 then Inl (External 6) else Inr 42, Suc s)"

definition demo_drain :: "u32 mem_wallet \<Rightarrow> u32 mem_wallet" where
  "demo_drain m = m\<lparr>wg := 0\<rparr>"

text \<open>The world counts the calls of the client.\<close>

definition demo_setup :: "bytes list \<Rightarrow> (u32, nat) setup_env" where
  "demo_setup chunks =
     \<lparr>nodeEnv = demo_env chunks, rmErr = None, rpcNew = demo_dial, loadTxFilter = (\<lambda>a s. (None, Suc s)),
      notifyBlocks = (\<lambda>s. (None, Suc s)), generate = (\<lambda>n s. (None, Suc s)), bestBlock = (\<lambda>s. (Inr 100, Suc s)),
      syncerTick = (\<lambda>m. m), syncerDrain = demo_drain\<rparr>"

theorem setup_success_witness:
  "\<exists>h c m. SetUp (demo_setup [p2pEvent [49], rpcEvent [50]]) True 2 0 demo_harness = (Ok (), h)
     \<and> client h = Some c \<and> wallet h = Some m \<and> rpc m = Some c \<and> SyncedHeight m = 100"
proof -
  let ?e = "demo_env [p2pEvent [49], rpcEvent [50]]"
  have "start ?e demo_node = (Ok (), demo_node\<lparr>readers := readers demo_node + 2, cmdStarted := True,
      pid := 77, pidFile := joinPath (prefix (config demo_node)) ''dcrd.pid'', waiting := True,
      p2pAddr := [49], rpcAddr := [50]\<rparr>)"
    by (rule demo_started)
  then obtain h where h: "SetUp (demo_setup [p2pEvent [49], rpcEvent [50]]) True 2 0 demo_harness = (Ok (), h)"
    by (simp add: SetUp_def setUpBody_def demo_setup_def demo_harness_def connectRPCClient_def demo_dial_def
        SetRPCClient_def setUpWallet_def Start_def demo_wallet_def poll.simps syncRound_def SyncedHeight_def
        numeral_eq_Suc)
  have "rpc (syncerTick (demo_setup [p2pEvent [49], rpcEvent [50]]) m) = rpc m" for m
    by (simp add: demo_setup_def)
  from setup_success [OF h this] h show ?thesis by (auto simp: demo_setup_def)
qed

text \<open>The same harness when dcrd cannot be executed.\<close>

theorem setup_error_tears_down_witness:
  "\<exists>h e m. SetUp ((demo_setup [])\<lparr>nodeEnv := (demo_env [])\<lparr>startCmd := Inl (External 8)\<rparr>\<rparr>) True 2 0 demo_harness
     = (Err e, h) \<and> client h = None \<and> hnode h = None \<and> wallet h = None \<and>
     stoppedWallets h = [m] \<and> quitClosed m"
proof -
  let ?env = "(demo_setup [])\<lparr>nodeEnv := (demo_env [])\<lparr>startCmd := Inl (External 8)\<rparr>\<rparr>"
  obtain h e where h: "SetUp ?env True 2 0 demo_harness = (Err e, h)"
    by (simp add: SetUp_def setUpBody_def demo_setup_def demo_harness_def start_def node_defs TearDown_def
        shutdown_def stop_def cleanup_def tearDownWallet_def stopWallet_def closeQuit_def demo_wallet_def Let_def
        demo_drain_def)
  have "fst (shutdown (nodeEnv ?env) (snd (start (nodeEnv ?env) demo_node))) = Ok ()"
    by (simp add: demo_setup_def start_def node_defs shutdown_def stop_def cleanup_def)
  with setup_error_tears_down [OF h] h show ?thesis
    by (auto simp: demo_harness_def)
qed

text \<open>A running node whose pid file cannot be removed.\<close>

theorem teardown_completes_on_retry_witness:
  "\<exists>e h1 h2. TearDown ((demo_env [])\<lparr>removeFile := Some (External 9)\<rparr>) demo_drain None
       (demo_harness\<lparr>hnode := Some (demo_node\<lparr>pidFile := ''p''\<rparr>)\<rparr>) = (Err e, h1)
     \<and> wallet h1 = Some demo_wallet \<and> TearDown (demo_env []) demo_drain None h1 = (Ok (), h2) \<and> wallet h2 = None"
proof -
  let ?h = "demo_harness\<lparr>hnode := Some (demo_node\<lparr>pidFile := ''p''\<rparr>)\<rparr>"
  obtain e h1 where t: "TearDown ((demo_env [])\<lparr>removeFile := Some (External 9)\<rparr>) demo_drain None ?h = (Err e, h1)"
    by (simp add: TearDown_def shutdown_def stop_def cleanup_def node_defs demo_harness_def)
  have "wallet ?h = Some demo_wallet" "\<not> quitClosed demo_wallet" "wg (demo_drain (demo_wallet\<lparr>quitClosed := True\<rparr>)) = 0"
    by (simp_all add: demo_harness_def demo_wallet_def demo_drain_def)
  from teardown_completes_on_retry [OF t this] t show ?thesis by blast
qed

end
