(* ===== verification/HarnessSync.thy ===== *)
theory HarnessSync
  imports Harness WalletSystem
begin

text \<open>
  The end of \<open>Harness.SetUp\<close> of \<open>src/dcrdtest/rpc_harness.go\<close> together with the chain syncer of
  \<open>src/dcrdtest/memwallet.go\<close>: the harness looks at the wallet's height every tenth of a second,
  and in between the chain syncer applies the blocks of the node. The theory shows that the wait
  ends and what the wallet holds when it does, and that the wait in \<open>TearDown\<close> ends too.
\<close>

section \<open>Following a chain\<close>

text \<open>The parts of the wallet that the chain syncer reads and writes; the queue may have grown.\<close>

definition same_view :: "'k mem_wallet \<Rightarrow> 'k mem_wallet \<Rightarrow> bool" where
  "same_view m m' \<longleftrightarrow> utxos m' = utxos m \<and> addrs m' = addrs m \<and> net m' = net m \<and>
     currentHeight m' = currentHeight m"

text \<open>\<open>follows w m us m'\<close>: from \<open>m\<close> the chain syncer has applied the updates \<open>us\<close>, in this order.\<close>

inductive follows :: "wire_api \<Rightarrow> 'k mem_wallet \<Rightarrow> chain_update list \<Rightarrow> 'k mem_wallet \<Rightarrow> bool"
  for w m where
  idle: "same_view m m' \<Longrightarrow> follows w m [] m'"
| applied: "follows w m us m1 \<Longrightarrow> scan_orders m1 ord \<Longrightarrow> same_view (applyUpdate w ord b m1) m' \<Longrightarrow>
    follows w m (us @ [b]) m'"

lemma follows_ledger:
  assumes "follows w m us m'"
  shows "coins m' = fold (ledgerBlock w (addrs m) (net m)) us (coins m)"
    "currentHeight m' = (if us = [] then currentHeight m else blockHeight (last us))"
    "addrs m' = addrs m" "net m' = net m"
  using assms
  by (induction rule: follows.induct)
    (simp_all add: same_view_def coins_def applyUpdate_frame applyUpdate_coins [unfolded coins_def])

text \<open>
  Between two looks the chain syncer does what \<open>tick\<close> does: after \<open>i\<close> of them it has applied the
  first \<open>a i\<close> updates, and at some time all of them.
\<close>

definition catches_up :: "wire_api \<Rightarrow> ('k mem_wallet \<Rightarrow> 'k mem_wallet) \<Rightarrow> 'k mem_wallet \<Rightarrow>
    chain_update list \<Rightarrow> bool" where
  "catches_up w tick m us \<longleftrightarrow>
     (\<exists>a. (\<forall>i. follows w m (take (a i) us) ((tick ^^ i) m)) \<and> (\<exists>i. length us \<le> a i))"

section \<open>The wait\<close>

lemma poll_syncRound:
  assumes "SyncedHeight ((tick ^^ Suc k) m) = height"
  shows "\<exists>j. poll (syncRound tick height) m = Some ((), (tick ^^ Suc j) m) \<and>
    SyncedHeight ((tick ^^ Suc j) m) = height"
proof -
  let ?P = "\<lambda>k. SyncedHeight ((tick ^^ Suc k) m) = height"
  let ?j = "LEAST k. ?P k"
  note p = syncRound_polled [of tick height _ m]
  have "?P ?j" using assms by (rule LeastI)
  moreover have "undecided (syncRound tick height) ?j m"
    using not_less_Least [of _ ?P] by (auto simp: undecided_def p syncRound_def Let_def)
  ultimately show ?thesis
    by (intro exI [of _ ?j] conjI poll_returns) (simp_all add: p syncRound_iff)
qed

text \<open>On a chain of growing heights the wallet is at the last height only when all is applied.\<close>

lemma at_tip:
  assumes "follows w m (take n us) m'" "sorted_wrt (<) (currentHeight m # map blockHeight us)" "us \<noteq> []"
    "currentHeight m' = blockHeight (last us)"
  shows "take n us = us"
proof (rule ccontr)
  assume short: "take n us \<noteq> us"
  then have n: "n < length us" by (metis not_less take_all)
  have "currentHeight m' < blockHeight (last us)"
  proof (cases n)
    case 0
    with follows_ledger(2) [OF assms(1)] assms(2,3) show ?thesis by simp
  next
    case (Suc k)
    have "currentHeight m' = blockHeight (us ! k)"
      using follows_ledger(2) [OF assms(1)] Suc n assms(3) by (simp add: last_conv_nth min_def)
    moreover have "sorted_wrt (<) (map blockHeight us)" using assms(2) by simp
    from sorted_wrt_nth_less [OF this, of k "length us - 1"] Suc n
    have "blockHeight (us ! k) < blockHeight (us ! (length us - 1))" by simp
    ultimately show ?thesis using assms(3) by (simp add: last_conv_nth)
  qed
  with assms(4) show False by simp
qed

lemma wait_ends:
  assumes "catches_up w tick m us" "sorted_wrt (<) (currentHeight m # map blockHeight us)" "us \<noteq> []"
  shows "\<exists>m'. poll (syncRound tick (blockHeight (last us))) m = Some ((), m') \<and>
    SyncedHeight m' = blockHeight (last us) \<and> coins m' = fold (ledgerBlock w (addrs m) (net m)) us (coins m)"
proof -
  from assms(1) obtain a i where a: "\<And>i. follows w m (take (a i) us) ((tick ^^ i) m)"
    and i: "length us \<le> a i" by (auto simp: catches_up_def)
  have tip: "currentHeight ((tick ^^ i) m) = blockHeight (last us)"
    using follows_ledger(2) [OF a [of i]] i assms(3) by simp
  have "currentHeight m < blockHeight (last us)" using assms(2,3) by simp
  with tip obtain k where "i = Suc k" by (cases i) auto
  with tip poll_syncRound [where tick = tick and k = k and m = m] obtain j where
    j: "poll (syncRound tick (blockHeight (last us))) m = Some ((), (tick ^^ Suc j) m)"
      "SyncedHeight ((tick ^^ Suc j) m) = blockHeight (last us)"
    by (auto simp: SyncedHeight_def)
  have "take (a (Suc j)) us = us"
    using at_tip [OF a [of "Suc j"] assms(2,3)] j(2) by (simp add: SyncedHeight_def)
  with follows_ledger(1) [OF a [of "Suc j"]] j show ?thesis by auto
qed

section \<open>The property\<close>

text \<open>
  C15: \<open>SetUp\<close> returns. If the node starts, the client connects and its calls succeed, and the
  chain syncer gets through the blocks up to the best one in time, then \<open>SetUp\<close> returns nil, the
  wallet is at the node's best height, and its coins are exactly those the ledger gives it for
  these blocks.
\<close>

theorem setup_returns_synced:
  assumes "hnode h = Some n0" "start (nodeEnv env) n0 = (Ok (), n)" "wallet h = Some m0"
    and "connectLoop (rpcNew env (rpcConnConfig n) (hhandlers h)) (maxConnRetries h) 0 s = (Some c, s1)"
    and "coinbaseAddr m0 = Some a" "loadTxFilter env a s1 = (None, s2)" "notifyBlocks env s2 = (None, s3)"
    and "if create \<and> num \<noteq> 0 then generate env (numToGenerate (ActiveNet h) num) s3 = (None, s4) else s4 = s3"
    and "us \<noteq> []" "bestBlock env s4 = (Inr (blockHeight (last us)), s5)"
    and "sorted_wrt (<) (currentHeight m0 # map blockHeight us)"
    and "catches_up w (syncerTick env) (Start (SetRPCClient (Some c) m0)) us"
  shows "\<exists>h' m. SetUp env create num s h = (Ok (), h') \<and> hnode h' = Some n \<and> client h' = Some c \<and>
    wallet h' = Some m \<and> SyncedHeight m = blockHeight (last us) \<and>
    coins m = fold (ledgerBlock w (addrs m0) (net m0)) us (coins m0)"
proof -
  let ?m = "Start (SetRPCClient (Some c) m0)"
  have view: "addrs ?m = addrs m0" "net ?m = net m0" "coins ?m = coins m0" "currentHeight ?m = currentHeight m0"
    by (simp_all add: Start_def SetRPCClient_def coins_def)
  from wait_ends [OF assms(12) _ assms(9)] assms(11) obtain m where
    m: "poll (syncRound (syncerTick env) (blockHeight (last us))) ?m = Some ((), m)"
      "SyncedHeight m = blockHeight (last us)"
      "coins m = fold (ledgerBlock w (addrs m0) (net m0)) us (coins m0)"
    by (auto simp: view)
  let ?h = "h\<lparr>hnode := Some n, client := Some c, wallet := Some (SetRPCClient (Some c) m0)\<rparr>"
  have "connectRPCClient (rpcNew env) s (h\<lparr>hnode := Some n\<rparr>) = (Ok (), s1, ?h)"
    using assms(3,4) by (simp add: connectRPCClient_def)
  moreover have "setUpWallet env create num (SetRPCClient (Some c) m0) s1 ?h = (Ok (), ?h\<lparr>wallet := Some m\<rparr>)"
    using assms(5-8,10) m(1)
    by (auto simp: setUpWallet_def Let_def Start_def SetRPCClient_def split: if_splits)
  ultimately have "SetUp env create num s h = (Ok (), ?h\<lparr>wallet := Some m\<rparr>)"
    using assms(1,2) by (simp add: SetUp_def setUpBody_def)
  with m(2,3) show ?thesis by simp
qed

section \<open>Stopping the wallet\<close>

text \<open>
  The wait of \<open>Stop\<close> ends: whatever run the wallet's goroutines make once \<open>quit\<close> is closed, the
  wallet they leave is the one with which \<open>stopWallet\<close> returns. So the chain syncer meets the
  hypothesis under which the second \<open>TearDown\<close> completes.
\<close>

lemma stop_wallet_completes:
  assumes "wire_ok w" "reachable w K s" "\<not> panicked s" "closeQuit (wal s) = Ok m"
    and "(own_step w ^^ k) (s\<lparr>wal := m\<rparr>) t" "\<forall>u. \<not> own_step w t u"
  shows "stopWallet (\<lambda>_. wal t) (wal s) = (Ok (), wal t) \<and> quitClosed (wal t)"
proof -
  have "reachable w K (s\<lparr>wal := m\<rparr>)"
    using reachable.call [OF assms(2,3) call_step.stop [OF assms(4)]] .
  moreover have "quitClosed m" "\<not> quitClosed (wal s)"
    using assms(4) by (auto simp: closeQuit_def split: if_splits)
  ultimately have "stopped_ok w K t"
    using own_steps_ok [OF assms(1) _ assms(5), of K] assms(3) by (simp add: stopped_ok_def)
  with stopped_progress [OF assms(1) _ assms(6)] have "quitClosed (wal t)" "wg (wal t) = 0"
    by (auto simp: stopped_ok_def)
  moreover from this(1) have "(wal t)\<lparr>quitClosed := True\<rparr> = wal t" by (cases "wal t") simp
  ultimately show ?thesis using \<open>\<not> quitClosed (wal s)\<close> by (simp add: stopWallet_Ok)
qed

section \<open>A concrete wait\<close>

text \<open>The wallet is at height one hundred; the first tick applies the block at the next height.\<close>

definition demo_tick :: "u32 mem_wallet \<Rightarrow> u32 mem_wallet" where
  "demo_tick m = (if currentHeight m = 101 then m else applyUpdate demo_wire (\<lambda>_ _. [0]) demo_block m)"

definition demo_following :: "(u32, nat) setup_env" where
  "demo_following = (demo_setup [p2pEvent [49], rpcEvent [50]])\<lparr>bestBlock := (\<lambda>s. (Inr 101, s)), syncerTick := demo_tick\<rparr>"

lemma same_view_refl: "same_view m m"
  by (simp add: same_view_def)

lemma demo_catches_up:
  assumes "currentHeight m = 100" "addrs m = addrs demo_wallet"
  shows "catches_up demo_wire demo_tick m [demo_block]"
proof -
  let ?b = "applyUpdate demo_wire (\<lambda>_ _. [0]) demo_block m"
  have "demo_tick m = ?b" "demo_tick ?b = ?b"
    using assms(1) by (simp_all add: demo_tick_def applyUpdate_frame demo_block_def)
  then have run: "(demo_tick ^^ i) m = (if i = 0 then m else ?b)" for i
    by (induction i) auto
  have "scan_orders m (\<lambda>_ _. [0])"
    using demo_scan_orders assms(2) by (simp add: scan_orders_def)
  from applied [OF idle [OF same_view_refl] this same_view_refl] have "follows demo_wire m [demo_block] ?b"
    by simp
  then have "follows demo_wire m (take i [demo_block]) ((demo_tick ^^ i) m)" for i
    unfolding run by (cases i) (simp_all add: idle same_view_refl)
  then show ?thesis
    unfolding catches_up_def by (intro exI [of _ "\<lambda>i. i"] conjI allI exI [of _ 1]) simp_all
qed

theorem setup_returns_synced_witness:
  "\<exists>h m. SetUp demo_following False 0 0 demo_harness = (Ok (), h) \<and> wallet h = Some m \<and>
     SyncedHeight m = 101 \<and>
     coins m = ledgerBlock demo_wire (addrs demo_wallet) (net demo_wallet) demo_block (coins demo_wallet)"
proof -
  have st: "start (nodeEnv demo_following) demo_node = (Ok (), demo_node\<lparr>readers := readers demo_node + 2,
      cmdStarted := True, pid := 77, pidFile := joinPath (prefix (config demo_node)) ''dcrd.pid'',
      waiting := True, p2pAddr := [49], rpcAddr := [50]\<rparr>)"
    using demo_started by (simp add: demo_following_def demo_setup_def)
  have dial: "connectLoop (rpcNew demo_following conf (hhandlers demo_harness)) (maxConnRetries demo_harness) 0 0
      = (Some 42, 2)" for conf
    by (simp add: demo_following_def demo_setup_def demo_harness_def demo_dial_def numeral_eq_Suc)
  have up: "catches_up demo_wire (syncerTick demo_following) (Start (SetRPCClient (Some 42) demo_wallet)) [demo_block]"
    using demo_catches_up [of "Start (SetRPCClient (Some 42) demo_wallet)"]
    by (simp add: demo_following_def demo_setup_def Start_def SetRPCClient_def demo_wallet_def)
  have calls: "loadTxFilter demo_following (demo_address [2, 1]) 2 = (None, 3)"
    "notifyBlocks demo_following 3 = (None, 4)"
    "bestBlock demo_following 4 = (Inr (blockHeight (last [demo_block])), 4)"
    by (simp_all add: demo_following_def demo_setup_def demo_block_def)
  have h: "hnode demo_harness = Some demo_node" "wallet demo_harness = Some demo_wallet"
    "coinbaseAddr demo_wallet = Some (demo_address [2, 1])"
    "sorted_wrt (<) (currentHeight demo_wallet # map blockHeight [demo_block])"
    by (simp_all add: demo_harness_def demo_wallet_def demo_block_def)
  from setup_returns_synced [OF h(1) st h(2) dial h(3) calls(1,2) _ _ calls(3) h(4) up, of False 0]
  show ?thesis by (auto simp: demo_block_def)
qed

end
