(* ===== verification/NodeStop.thy ===== *)
theory NodeStop
  imports Node
begin

text \<open>
  The goroutines behind \<open>node.stop\<close> of \<open>src/dcrdtest/node.go\<close>: the caller of \<open>stop\<close>, the goroutine
  that waits for the process and sends its result on \<open>cmdDone\<close>, the readers of stderr and stdout,
  and the process itself. The theory gives their steps, shows that every interleaving ends, and
  that it ends as the big-step \<open>stop\<close> of \<open>Node\<close> says.
\<close>

section \<open>The steps\<close>

datatype process = Running | Ended "goerr option"

datatype waiter = NotLaunched | InWait | Sending | ClosingDone | WaiterDone

datatype stopper = Checking | ClosingRx | AwaitGroup | Receiving | ClosingTx | Returned

text \<open>
  \<open>doneBuf\<close> and \<open>doneClosed\<close> are the channel \<open>cmdDone\<close>, which holds one message; \<open>grp\<close> is the
  counter of the wait group \<open>wg\<close>, \<open>ioReaders\<close> the number of readers that have not reached the
  end of their stream. The process may end at any time, with any result, whether it was asked to
  or not; \<open>sent\<close> are the signals sent to it, one if closing \<open>pipeRX\<close> fails.
\<close>

record stop_run =
  proc :: process
  waiterAt :: waiter
  stopAt :: stopper
  ioReaders :: nat
  grp :: nat
  doneBuf :: "goerr option list"
  doneClosed :: bool
  waitErr :: "goerr option"
  openFds :: "fd set"
  sent :: "signal list"

definition cmdDoneCap :: nat where
  "cmdDoneCap = 1"

text \<open>A running node \<open>n\<close> on which \<open>stop\<close> is called.\<close>

definition stopping :: "node \<Rightarrow> stop_run" where
  "stopping n =
     \<lparr>proc = Running, waiterAt = (if waiting n then InWait else NotLaunched), stopAt = Checking,
      ioReaders = readers n, grp = readers n + (if waiting n then 1 else 0), doneBuf = cmdDoneBuf n,
      doneClosed = cmdDoneClosed n, waitErr = cmdErr n, openFds = fds n, sent = signals n\<rparr>"

inductive stop_step :: "os \<Rightarrow> (fd \<Rightarrow> goerr option) \<Rightarrow> node \<Rightarrow> stop_run \<Rightarrow> stop_run \<Rightarrow> bool"
  for sys ce n where
  exits: "proc r = Running \<Longrightarrow> stop_step sys ce n r (r\<lparr>proc := Ended e\<rparr>)"
| reader_eof: "proc r = Ended e \<Longrightarrow> ioReaders r = Suc k \<Longrightarrow>
    stop_step sys ce n r (r\<lparr>ioReaders := k, grp := grp r - 1\<rparr>)"
| cmd_wait: "waiterAt r = InWait \<Longrightarrow> proc r = Ended e \<Longrightarrow>
    stop_step sys ce n r (r\<lparr>waitErr := e, waiterAt := Sending\<rparr>)"
| send_done: "waiterAt r = Sending \<Longrightarrow> length (doneBuf r) < cmdDoneCap \<Longrightarrow>
    stop_step sys ce n r (r\<lparr>doneBuf := doneBuf r @ [waitErr r], waiterAt := ClosingDone\<rparr>)"
| close_done: "waiterAt r = ClosingDone \<Longrightarrow>
    stop_step sys ce n r (r\<lparr>doneClosed := True, waiterAt := WaiterDone, grp := grp r - 1\<rparr>)"
| not_started: "stopAt r = Checking \<Longrightarrow> \<not> cmdStarted n \<Longrightarrow> stop_step sys ce n r (r\<lparr>stopAt := Returned\<rparr>)"
| already_stopped: "stopAt r = Checking \<Longrightarrow> cmdStarted n \<Longrightarrow> doneBuf r \<noteq> [] \<or> doneClosed r \<Longrightarrow>
    stop_step sys ce n r (r\<lparr>doneBuf := tl (doneBuf r), stopAt := Returned\<rparr>)"
| still_running: "stopAt r = Checking \<Longrightarrow> cmdStarted n \<Longrightarrow> doneBuf r = [] \<Longrightarrow> \<not> doneClosed r \<Longrightarrow>
    stop_step sys ce n r (r\<lparr>stopAt := ClosingRx\<rparr>)"
| close_rx: "stopAt r = ClosingRx \<Longrightarrow> m = askToStop sys ce (n\<lparr>fds := openFds r, signals := sent r\<rparr>) \<Longrightarrow>
    stop_step sys ce n r (r\<lparr>openFds := fds m, sent := signals m, stopAt := AwaitGroup\<rparr>)"
| group_done: "stopAt r = AwaitGroup \<Longrightarrow> grp r = 0 \<Longrightarrow> stop_step sys ce n r (r\<lparr>stopAt := Receiving\<rparr>)"
| receive_done: "stopAt r = Receiving \<Longrightarrow> doneBuf r \<noteq> [] \<or> doneClosed r \<Longrightarrow>
    stop_step sys ce n r (r\<lparr>doneBuf := tl (doneBuf r), stopAt := ClosingTx\<rparr>)"
| close_tx: "stopAt r = ClosingTx \<Longrightarrow> stop_step sys ce n r
    (r\<lparr>openFds := snd (closePair ce (pipeTX (config n)) (openFds r)), stopAt := Returned\<rparr>)"

text \<open>The node when the goroutines are in \<open>r\<close>.\<close>

definition nodeAt :: "node \<Rightarrow> stop_run \<Rightarrow> node" where
  "nodeAt n r = n\<lparr>fds := openFds r, cmdDoneBuf := doneBuf r, cmdDoneClosed := doneClosed r,
     cmdErr := waitErr r, waiting := waiterAt r \<in> {InWait, Sending, ClosingDone}, readers := ioReaders r,
     signals := sent r\<rparr>"

section \<open>Every interleaving ends\<close>

fun waiterLeft :: "waiter \<Rightarrow> nat" where
  "waiterLeft NotLaunched = 0" | "waiterLeft InWait = 3" | "waiterLeft Sending = 2"
| "waiterLeft ClosingDone = 1" | "waiterLeft WaiterDone = 0"

fun stopLeft :: "stopper \<Rightarrow> nat" where
  "stopLeft Checking = 5" | "stopLeft ClosingRx = 4" | "stopLeft AwaitGroup = 3"
| "stopLeft Receiving = 2" | "stopLeft ClosingTx = 1" | "stopLeft Returned = 0"

definition stepsLeft :: "stop_run \<Rightarrow> nat" where
  "stepsLeft r = (case proc r of Running \<Rightarrow> 1 | Ended e \<Rightarrow> 0) + waiterLeft (waiterAt r)
     + stopLeft (stopAt r) + ioReaders r"

lemma stop_step_decreases: "stop_step sys ce n r r' \<Longrightarrow> stepsLeft r' < stepsLeft r"
  by (induction rule: stop_step.induct) (simp_all add: stepsLeft_def split: process.split)

lemma stop_steps_bounded:
  "(stop_step sys ce n ^^ k) r r' \<Longrightarrow> k + stepsLeft r' \<le> stepsLeft r"
proof (induction k arbitrary: r')
  case (Suc k)
  then obtain r1 where "(stop_step sys ce n ^^ k) r r1" "stop_step sys ce n r1 r'" by auto
  with Suc.IH [of r1] stop_step_decreases [of sys ce n r1 r'] show ?case by fastforce
qed simp

lemma stop_run_ends:
  "\<exists>k r'. (stop_step sys ce n ^^ k) r r' \<and> (\<forall>r''. \<not> stop_step sys ce n r' r'')"
proof (induction r rule: measure_induct_rule [of stepsLeft])
  case (less r)
  show ?case
  proof (cases "\<exists>r1. stop_step sys ce n r r1")
    case True
    then obtain r1 where r1: "stop_step sys ce n r r1" by blast
    with less [OF stop_step_decreases] obtain k r' where
      "(stop_step sys ce n ^^ k) r1 r'" "\<forall>r''. \<not> stop_step sys ce n r' r''" by blast
    with r1 show ?thesis by (intro exI [of _ "Suc k"]) (blast intro: relpowp_Suc_I2)
  next
    case False
    then show ?thesis by (intro exI [of _ 0]) auto
  qed
qed

section \<open>What holds on the way\<close>

definition asked :: "os \<Rightarrow> (fd \<Rightarrow> goerr option) \<Rightarrow> node \<Rightarrow> stop_run \<Rightarrow> bool" where
  "asked sys ce n r \<longleftrightarrow> openFds r = fds (askToStop sys ce n) \<and> sent r = signals (askToStop sys ce n)"

declare asked_def [simp]

definition afterTx :: "os \<Rightarrow> (fd \<Rightarrow> goerr option) \<Rightarrow> node \<Rightarrow> fd set" where
  "afterTx sys ce n = snd (closePair ce (pipeTX (config n)) (fds (askToStop sys ce n)))"

text \<open>The goroutine that waits: what it has done, and what is in the channel.\<close>

fun waiter_ok :: "node \<Rightarrow> stop_run \<Rightarrow> waiter \<Rightarrow> bool" where
  "waiter_ok n r NotLaunched \<longleftrightarrow> \<not> waiting n \<and> doneBuf r = [] \<and> \<not> doneClosed r \<and> waitErr r = cmdErr n"
| "waiter_ok n r InWait \<longleftrightarrow> waiting n \<and> doneBuf r = [] \<and> \<not> doneClosed r \<and> waitErr r = cmdErr n"
| "waiter_ok n r Sending \<longleftrightarrow> waiting n \<and> doneBuf r = [] \<and> \<not> doneClosed r \<and> proc r = Ended (waitErr r)"
| "waiter_ok n r ClosingDone \<longleftrightarrow> waiting n \<and> \<not> doneClosed r \<and> proc r = Ended (waitErr r) \<and>
     (doneBuf r = [waitErr r] \<and> stopAt r \<noteq> Returned \<or> doneBuf r = [] \<and> stopAt r = Returned)"
| "waiter_ok n r WaiterDone \<longleftrightarrow> waiting n \<and> doneClosed r \<and> proc r = Ended (waitErr r) \<and>
     (if stopAt r \<in> {ClosingTx, Returned} then doneBuf r = [] else doneBuf r = [waitErr r])"

text \<open>The caller: which descriptors are open, and that it waits for the group.\<close>

fun stopper_ok :: "os \<Rightarrow> (fd \<Rightarrow> goerr option) \<Rightarrow> node \<Rightarrow> stop_run \<Rightarrow> stopper \<Rightarrow> bool" where
  "stopper_ok sys ce n r Checking \<longleftrightarrow> openFds r = fds n \<and> sent r = signals n"
| "stopper_ok sys ce n r ClosingRx \<longleftrightarrow> openFds r = fds n \<and> sent r = signals n"
| "stopper_ok sys ce n r AwaitGroup \<longleftrightarrow> asked sys ce n r"
| "stopper_ok sys ce n r Receiving \<longleftrightarrow> asked sys ce n r \<and> grp r = 0"
| "stopper_ok sys ce n r ClosingTx \<longleftrightarrow> asked sys ce n r \<and> grp r = 0 \<and> waiterAt r = WaiterDone"
| "stopper_ok sys ce n r Returned \<longleftrightarrow> waiterAt r \<in> {ClosingDone, WaiterDone} \<and>
     (openFds r = fds n \<and> sent r = signals n \<or>
      openFds r = afterTx sys ce n \<and> sent r = signals (askToStop sys ce n) \<and> grp r = 0)"

definition stop_inv :: "os \<Rightarrow> (fd \<Rightarrow> goerr option) \<Rightarrow> node \<Rightarrow> stop_run \<Rightarrow> bool" where
  "stop_inv sys ce n r \<longleftrightarrow>
     grp r = ioReaders r + (if waiterAt r \<in> {InWait, Sending, ClosingDone} then 1 else 0) \<and>
     waiter_ok n r (waiterAt r) \<and> stopper_ok sys ce n r (stopAt r)"

lemma stop_inv_stopping:
  assumes "cmdStarted n" "cmdDoneBuf n = []" "\<not> cmdDoneClosed n"
  shows "stop_inv sys ce n (stopping n)"
  using assms by (simp add: stop_inv_def stopping_def)

lemma stop_inv_step:
  assumes "stop_step sys ce n r r'" "stop_inv sys ce n r" "cmdStarted n"
  shows "stop_inv sys ce n r'"
  using assms
proof (induction rule: stop_step.induct)
  case (exits r e)
  then show ?case
    by (cases "waiterAt r"; cases "stopAt r") (auto simp: stop_inv_def)
next
  case (reader_eof r e k)
  then show ?case
    by (cases "waiterAt r"; cases "stopAt r") (auto simp: stop_inv_def)
next
  case (cmd_wait r e)
  then show ?case by (cases "stopAt r") (auto simp: stop_inv_def)
next
  case (send_done r)
  then show ?case by (cases "stopAt r") (auto simp: stop_inv_def)
next
  case (close_done r)
  then show ?case by (cases "stopAt r") (auto simp: stop_inv_def)
next
  case (already_stopped r)
  then show ?case by (cases "waiterAt r") (auto simp: stop_inv_def)
next
  case (still_running r)
  then show ?case by (cases "waiterAt r") (auto simp: stop_inv_def)
next
  case (close_rx r)
  then show ?case by (cases "waiterAt r") (auto simp: stop_inv_def askToStop_eq asked_def)
next
  case (group_done r)
  then show ?case by (cases "waiterAt r") (auto simp: stop_inv_def)
next
  case (receive_done r)
  then show ?case by (cases "waiterAt r") (auto simp: stop_inv_def)
next
  case (close_tx r)
  then show ?case by (cases "waiterAt r") (auto simp: stop_inv_def afterTx_def)
qed simp

lemma stop_inv_steps:
  assumes "(stop_step sys ce n ^^ k) (stopping n) r" "cmdStarted n" "cmdDoneBuf n = []" "\<not> cmdDoneClosed n"
  shows "stop_inv sys ce n r"
  using assms(1)
proof (induction k arbitrary: r)
  case 0
  then show ?case using stop_inv_stopping [OF assms(2-4)] by simp
next
  case (Suc k)
  then show ?case using stop_inv_step [OF _ _ assms(2)] by auto
qed

section \<open>Where the runs end\<close>

lemma no_step_ended:
  assumes "\<forall>r'. \<not> stop_step sys ce n r r'" "stop_inv sys ce n r"
  shows "\<exists>e. proc r = Ended e" "ioReaders r = 0" "waiterAt r \<in> {NotLaunched, WaiterDone}"
proof -
  show "\<exists>e. proc r = Ended e"
    using assms(1) exits [of r sys ce n undefined] by (cases "proc r") auto
  then obtain e where e: "proc r = Ended e" by blast
  show "ioReaders r = 0"
    using assms(1) reader_eof [OF e, where sys = sys and ce = ce and n = n] by (cases "ioReaders r") auto
  show "waiterAt r \<in> {NotLaunched, WaiterDone}"
    using assms cmd_wait [OF _ e] send_done [of r] close_done [of r]
    by (cases "waiterAt r") (auto simp: stop_inv_def cmdDoneCap_def)
qed

lemma no_step_returned:
  assumes "\<forall>r'. \<not> stop_step sys ce n r r'" "stop_inv sys ce n r" "cmdStarted n"
  shows "stopAt r = Returned \<or> stopAt r = Receiving \<and> waiterAt r = NotLaunched"
proof (cases "stopAt r")
  case Checking
  with assms show ?thesis using already_stopped [of r n] still_running [of r n] by blast
next
  case AwaitGroup
  have "grp r = 0" using no_step_ended [OF assms(1,2)] assms(2) by (auto simp: stop_inv_def)
  with AwaitGroup assms(1) show ?thesis using group_done by blast
next
  case Receiving
  with assms(1) have "doneBuf r = []" "\<not> doneClosed r"
    using receive_done [OF Receiving] by blast+
  with assms(2) no_step_ended(3) [OF assms(1,2)] have "waiterAt r = NotLaunched"
    by (auto simp: stop_inv_def)
  with Receiving show ?thesis by simp
qed (use assms(1) close_rx close_tx in blast)+

lemma returned_result:
  assumes "stop_inv (goos env) (closeErr env) n r" "stopAt r = Returned" "waiterAt r = WaiterDone" "ioReaders r = 0"
    "cmdStarted n" "cmdDoneBuf n = []" "\<not> cmdDoneClosed n" "proc r = Ended e"
  shows "stop (env\<lparr>exits := Some e\<rparr>) n = (Ok (), nodeAt n r) \<or>
    stop env (n\<lparr>waiting := False, readers := 0, cmdErr := e, cmdDoneClosed := True\<rparr>) = (Ok (), nodeAt n r)"
  using assms by (auto simp: stop_inv_def stop_def nodeAt_def afterTx_def askToStop_eq asked_def Let_def)

section \<open>Properties\<close>

text \<open>
  C13: Whatever the interleaving of the goroutines, \<open>stop\<close> on a running node takes a bounded number
  of steps, and a run that can go no further has returned: the process has ended, all goroutines
  have finished, and the node is as the sequential \<open>stop\<close> leaves it, either having stopped
  the process itself or having found that it had ended before.
\<close>

theorem stop_interleaved:
  assumes "cmdStarted n" "waiting n" "cmdDoneBuf n = []" "\<not> cmdDoneClosed n"
    and "(stop_step (goos env) (closeErr env) n ^^ k) (stopping n) r"
  shows "k \<le> readers n + 9 \<and>
    ((\<forall>r'. \<not> stop_step (goos env) (closeErr env) n r r') \<longrightarrow> stopAt r = Returned \<and>
      (\<exists>e. proc r = Ended e \<and>
        (stop (env\<lparr>exits := Some e\<rparr>) n = (Ok (), nodeAt n r) \<or>
         stop env (n\<lparr>waiting := False, readers := 0, cmdErr := e, cmdDoneClosed := True\<rparr>)
           = (Ok (), nodeAt n r))))"
proof (intro conjI impI)
  show "k \<le> readers n + 9"
    using stop_steps_bounded [OF assms(5)] assms(2) by (simp add: stepsLeft_def stopping_def)
  note inv = stop_inv_steps [OF assms(5,1,3,4)]
  assume stuck: "\<forall>r'. \<not> stop_step (goos env) (closeErr env) n r r'"
  have launched: "waiterAt r \<noteq> NotLaunched" using inv assms(2) by (auto simp: stop_inv_def)
  with no_step_returned [OF stuck inv assms(1)] show ret: "stopAt r = Returned" by blast
  obtain e where e: "proc r = Ended e" using no_step_ended(1) [OF stuck inv] by blast
  have "waiterAt r = WaiterDone" using no_step_ended(3) [OF stuck inv] launched by blast
  with returned_result [OF inv ret _ no_step_ended(2) [OF stuck inv] assms(1,3,4) e] e
  show "\<exists>e. proc r = Ended e \<and>
        (stop (env\<lparr>exits := Some e\<rparr>) n = (Ok (), nodeAt n r) \<or>
         stop env (n\<lparr>waiting := False, readers := 0, cmdErr := e, cmdDoneClosed := True\<rparr>)
           = (Ok (), nodeAt n r))" by blast
qed

text \<open>Without the goroutine that waits, no interleaving of \<open>stop\<close> returns.\<close>

lemma stop_without_waiter:
  assumes "cmdStarted n" "\<not> waiting n" "cmdDoneBuf n = []" "\<not> cmdDoneClosed n"
    and "(stop_step sys ce n ^^ k) (stopping n) r"
  shows "stopAt r \<noteq> Returned"
proof
  assume ret: "stopAt r = Returned"
  note inv = stop_inv_steps [OF assms(5,1,3,4)]
  have "waiterAt r = NotLaunched"
    using inv assms(2) by (cases "waiterAt r") (auto simp: stop_inv_def)
  with inv ret show False by (simp add: stop_inv_def)
qed

text \<open>
  C40: If the pid file cannot be created, \<open>start\<close> never returns, although the process may end: the
  \<open>stop\<close> it calls waits for a result that the goroutine, not yet launched, will never send. No
  interleaving of that call with the process and the readers returns.
\<close>

theorem start_hangs_without_pid_file:
  assumes "stderrPipe env = None" "stdoutPipe env = None" "startCmd env = Inr p"
    and "createPidFile env = Some err"
    and "\<not> waiting n" "cmdDoneBuf n = []" "\<not> cmdDoneClosed n"
    and "n1 = n\<lparr>readers := readers n + 2, cmdStarted := True, pid := p\<rparr>"
  shows "start env n = stopAndReturn env (Some err) n1 \<and> fst (start env n) = Blocked \<and>
    (\<forall>k r. (stop_step (goos env) (closeErr env) n1 ^^ k) (stopping n1) r \<longrightarrow> stopAt r \<noteq> Returned)"
proof (intro conjI allI impI)
  show eq: "start env n = stopAndReturn env (Some err) n1"
    using assms(1-4,8) by (simp add: start_def Let_def)
  have n1: "cmdStarted n1" "\<not> waiting n1" "cmdDoneBuf n1 = []" "\<not> cmdDoneClosed n1"
    using assms(5-8) by simp_all
  then show "fst (start env n) = Blocked"
    by (simp add: eq stopAndReturn_def stop_def askToStop_eq Let_def split: option.split)
  fix k r
  assume "(stop_step (goos env) (closeErr env) n1 ^^ k) (stopping n1) r"
  then show "stopAt r \<noteq> Returned" by (rule stop_without_waiter [OF n1])
qed

section \<open>A concrete run\<close>

abbreviation demo_running :: node where
  "demo_running \<equiv> demo_node\<lparr>cmdStarted := True, waiting := True\<rparr>"

theorem stop_interleaved_witness:
  "\<exists>k r. (stop_step (goos (demo_env [])) (closeErr (demo_env [])) demo_running ^^ k) (stopping demo_running) r \<and>
     k \<le> 9 \<and> stopAt r = Returned"
proof -
  obtain k r where run: "(stop_step (goos (demo_env [])) (closeErr (demo_env [])) demo_running ^^ k) (stopping demo_running) r"
    and stuck: "\<forall>r'. \<not> stop_step (goos (demo_env [])) (closeErr (demo_env [])) demo_running r r'"
    using stop_run_ends by blast
  from stop_interleaved [OF _ _ _ _ run] stuck have "k \<le> 9 \<and> stopAt r = Returned"
    by (simp add: demo_node_def newNode_def)
  with run show ?thesis by blast
qed

theorem start_hangs_without_pid_file_witness:
  "fst (start ((demo_env [])\<lparr>createPidFile := Some (External 2)\<rparr>) demo_node) = Blocked"
  by (rule start_hangs_without_pid_file [OF _ _ _ _ _ _ _ refl, of _ 77 "External 2", THEN conjunct2, THEN conjunct1])
    (simp_all add: demo_env_def demo_node_def newNode_def)

end
