(* ===== verification/Spec2Isabelle.thy ===== *)
theory Spec2Isabelle
  imports WalletInit VotingSystem SimnetMiner Utils HarnessSync NodeStop
begin

text \<open>
  A verification library for dcrtest, the package \<open>dcrdtest\<close> under \<open>src/dcrdtest\<close>: a harness that
  runs a dcrd node for integration tests, follows its chain with an in-memory wallet, mines
  blocks, and keeps the chain alive with a wallet that buys tickets and votes.

  \<^bold>\<open>The program\<close>

  A \<open>Harness\<close> (\<open>rpc_harness.go\<close>) owns a \<open>node\<close>, which is a dcrd process (\<open>node.go\<close>,
  \<open>node_common.go\<close> and \<open>node_windows.go\<close>), and a \<open>memWallet\<close> (\<open>memwallet.go\<close>). dcrd tells its addresses through a pipe
  that \<open>ipc.go\<close> reads. The harness connects an RPC client to the node; its notifications queue
  chain updates in the wallet, a goroutine applies them, and the tests create transactions from
  the outputs the wallet then holds. A \<open>VotingWallet\<close> (\<open>votingwallet.go\<close>) is funded by the harness
  and reacts to the notifications of a client of its own. \<open>simnet_miner.go\<close> mines blocks with a
  concurrent search for the nonce; \<open>utils.go\<close> connects and synchronises several harnesses.

  \<^bold>\<open>The theories\<close>

  \<^item> \<open>Prelude\<close>: integers of 64 bits with wrap-around (\<open>i64\<close>), the outcomes of a Go call (\<open>res\<close>: a
    value, an error, a panic, or never returning), the loops over a Go map, and polling loops
    (\<open>poll\<close>). Iteration over a map takes the order as an argument; \<open>is_order\<close> says that the
    runtime may choose it. The locales \<open>undo_log\<close>, \<open>fifo\<close> and \<open>retry\<close> state the contracts
    of a journal, a queue and a bounded retry.
  \<^item> \<open>Wire\<close>: the transactions, headers and network parameters, and the functions of the
    packages of dcrd as the records \<open>wire_api\<close> and \<open>key_api\<close>. Outpoints are a linear order.
  \<^item> \<open>MemWallet\<close>: the wallet's state and all its operations, named as in \<open>memwallet.go\<close>.
    \<open>WalletChain\<close> proves what connecting a block does, against a ledger that adds what pays to
    the wallet and takes away what is spent; \<open>WalletReorg\<close> that disconnecting undoes it, with the
    interpretation \<open>journal\<close> of \<open>undo_log\<close>; \<open>WalletSpend\<close> selection, value, locks and
    signatures; \<open>WalletSystem\<close> the goroutines as step relations (\<open>sync_step\<close>, \<open>call_step\<close>) with
    the interpretation \<open>updates\<close> of \<open>fifo\<close>, and \<open>own_step\<close> for what the wallet's own goroutines do
    once it is being stopped; \<open>WalletInit\<close> the construction of a wallet.
  \<^item> \<open>GoIO\<close> and \<open>Ipc\<close>: pipes as lists of chunks, \<open>bufio.Reader\<close>, \<open>io.ReadFull\<close>, and the
    messages of \<open>ipc.go\<close>.
  \<^item> \<open>Node\<close>: configuration, arguments, \<open>start\<close>, \<open>stop\<close>, \<open>cleanup\<close>, \<open>shutdown\<close> and \<open>genCertPair\<close> of
    \<open>node.go\<close>, with \<open>node_common.go\<close> and \<open>node_windows.go\<close> as the cases of \<open>os\<close>; the signals sent
    to the process are part of the node. The slices of arguments (\<open>slice\<close>) point into a store of
    arrays, so that \<open>append\<close> may write where another slice reads. \<open>NodeStop\<close>: the
    goroutines behind \<open>stop\<close> as the step relation \<open>stop_step\<close>, which refines the sequential \<open>stop\<close>.
  \<^item> \<open>Harness\<close>: \<open>New\<close>, \<open>SetUp\<close>, \<open>TearDown\<close>, the RPC connection and the delegations of
    \<open>rpc_harness.go\<close>, and \<open>buildDcrd\<close> of \<open>builder.go\<close>. \<open>globals\<close> holds the variables of the package
    and the stores of the structs of handlers and of the arrays of arguments; a pointer is an
    address. What \<open>TearDown\<close> drops stays in the harness's state as it was left (\<open>shutClients\<close>,
    \<open>leftNodes\<close>, \<open>stoppedWallets\<close>). In \<open>setup_env\<close> every call of the client moves a world on, and what
    the chain syncer does between two looks and until it has stopped are the functions
    \<open>syncerTick\<close> and \<open>syncerDrain\<close>. \<open>HarnessSync\<close>: the waits of \<open>SetUp\<close> and \<open>TearDown\<close> composed with the
    chain syncer.
  \<^item> \<open>VotingWallet\<close>: the state and operations of \<open>votingwallet.go\<close>. \<open>VotingRun\<close>: the invariant of
    its supply of outputs, and the shapes of tickets and votes; \<open>VotingFunding\<close>: \<open>Start\<close>
    composed with the in-memory wallet, and \<open>GenerateBlocks\<close> as blocks with a wait after each
    (\<open>mined_waiting\<close>); \<open>VotingSystem\<close>: the two channels
    (locale \<open>bounded_channel\<close>, with an interpretation for each) and the goroutine that serves them.
  \<^item> \<open>Mining\<close>: \<open>solveBlock\<close> as a step relation of goroutines over 32-bit nonces. \<open>SimnetMiner\<close>: the
    hexadecimal codec, \<open>waitPredicate\<close> and the two adjusted miners of \<open>simnet_miner.go\<close>.
  \<^item> \<open>Utils\<close>: joining, connecting and removing nodes, as in \<open>utils.go\<close>.

  The locale \<open>retry\<close> is interpreted on all loops of its kind: \<open>wait\<close>, \<open>dial\<close>, \<open>reqs\<close>, \<open>connect\<close>.

  \<^bold>\<open>How the code is read\<close>

  A Go struct is a record, an error a value of \<open>goerr\<close>; a result with an error is \<open>'a ext\<close>
  (\<open>Inl\<close> the error) where the call always returns, and \<open>'a res\<close> where it may panic or wait for ever.
  A method returns its result and the new state. Integers keep their width: \<open>u16\<close> and \<open>u32\<close> are
  words, \<open>int64\<close> and \<open>int\<close> are integers reduced by \<open>i64\<close> where they may overflow. What a mutex
  guards is one step. An \<open>rpcclient\<close> call changes a world \<open>'s\<close> of which nothing is known.

  Code outside the repository is a parameter: \<open>wire_api\<close>, \<open>key_api\<close>, \<open>vote_api\<close>, \<open>mining_api\<close>,
  \<open>pow_api\<close>, \<open>peer_api\<close> for packages and RPC clients, \<open>node_env\<close>, \<open>new_env\<close>, \<open>setup_env\<close> for
  processes, files and the node's answers. \<open>wire_ok\<close> is the documented behaviour of the
  constructors of \<open>wire\<close>, \<open>services_ok\<close> says that the services of the voting wallet succeed, and
  the concrete instances \<open>demo_*\<close> show that such hypotheses can hold.

  \<^bold>\<open>What is shown\<close>

  \<^item> In-memory wallet: it follows the ledger, a reorganisation of clean blocks is undone, created
    transactions conserve value, are signed, take the shortest sufficient prefix of the coins and
    never spend a coin twice, a failed or cancelled one leaves no trace; the updates are applied
    in order; the invariant of all reachable states; after \<open>Stop\<close> every run of the goroutines ends.
  \<^item> IPC and node: an encoded message is read back whatever its cut; when \<open>start\<close> returns and
    when it waits for ever; every interleaving of \<open>stop\<close> ends, and as the sequential model says.
  \<^item> Harness: \<open>New\<close> and what it changes in the caller's structs, \<open>SetUp\<close> (the order of its calls, it
    returns, and with which coins), what it tears down on errors, and \<open>TearDown\<close>.
  \<^item> Voting wallet: the supply of outputs never runs out, whichever channel is served first;
    what tickets and votes spend and pay; the funding; block generation; its failures.
  \<^item> Mining: the ranges partition the nonces for every number of cores, the search is correct in
    every interleaving and always returns.
  \<^item> Utilities: when \<open>syncBlocks\<close> returns, and what \<open>RemoveNode\<close> does not wait for.

  \<^bold>\<open>Bounds\<close>

  Polling loops without a bound are \<open>partial_function (option)\<close>; \<open>None\<close> is waiting for ever, and the
  theorems say when they return. The retry loops count as the code does (20 connections, the
  tries of the voting wallet). The reader's buffer has 4096 bytes as in \<open>bufio\<close>. \<open>cores_ok\<close> takes
  between one and \<open>2^31 - 1\<close> cores; \<open>params_ok\<close> says that the 16-bit product of
  \<open>requiredTicketCount\<close> does not wrap around. \<open>GenerateBlocks\<close> and the miners take the
  numbers of polls before each timeout from a schedule, and the theorems hold for every schedule.
  \<open>solve_run\<close> counts its steps, at most \<open>2^32 + 2\<close> for each core.

  \<^bold>\<open>Not modelled\<close>

  Logging and \<open>log.go\<close>; \<open>doc.go\<close> and \<open>require.go\<close>, which have no logic; the text that is copied from
  dcrd's stdout and stderr (the goroutines that copy it are counted); time, but for the order
  of what it separates.
\<close>

end
